(* ===== verification/Js_Base.thy ===== *)
theory Js_Base
  imports Main "HOL-Library.Word"
begin

text \<open>
  The prelude of the development: the JavaScript values the SDK computes with (strings as
  sequences of 16-bit code units, buffers as sequences of bytes), the result type that stands
  for \<open>return\<close> and \<open>throw\<close>, and the string operations of the language's standard library that
  every component uses (\<open>startsWith\<close>, \<open>split\<close>, \<open>toLowerCase\<close>, the decimal text of a number).
  The collection \<open>js_eval\<close> holds the rules that evaluate the model on a closed input,
  \<open>js_str\<close> the rules that move string literals through the string operations.
\<close>

named_theorems js_eval \<open>rules that evaluate the model on closed inputs\<close>
named_theorems js_str \<open>string literals under the string operations\<close>

section \<open>Strings and buffers\<close>

type_synonym byte = "8 word"
type_synonym code_unit = "16 word"
type_synonym js_string = "code_unit list"

text \<open>A string literal of the source: every character is one code unit below 256.\<close>

definition js :: "string \<Rightarrow> js_string" where
  "js s = map of_char s"

lemma unat_of_char [simp]: "unat (of_char c :: code_unit) = (of_char c :: nat)"
  by (cases c) (simp add: unat_word_ariths)

lemma of_char_unit_eq_iff [simp]: "((of_char c :: code_unit) = of_char d) = (c = d)"
  by (metis unat_of_char char_of_char)

lemma inj_of_char_unit: "inj (of_char :: char \<Rightarrow> code_unit)"
  by (simp add: inj_def)

lemma unat_byte_bound: "unat (b :: byte) < 256"
  using unsigned_less [of b, where 'a = nat] by simp

lemma unat_unit_bound: "unat (c :: code_unit) < 0x10000"
  using unsigned_less [of c, where 'a = nat] by simp

lemma js_Nil [simp]: "js [] = []"
  by (simp add: js_def)

lemma js_Cons [js_eval]: "js (c # s) = of_char c # js s"
  by (simp add: js_def)

lemma js_eq_iff [simp]: "(js s = js t) = (s = t)"
  by (simp add: js_def inj_map_eq_map [OF inj_of_char_unit])

lemma js_eq_Nil_iff [simp]: "(js s = []) = (s = [])" "([] = js s) = (s = [])"
  by (auto simp: js_def)

lemma length_js [simp]: "length (js s) = length s"
  by (simp add: js_def)

lemma js_append [js_str]: "js (s @ t) = js s @ js t"
  by (simp add: js_def)

lemma set_js: "set (js s) = of_char ` set s"
  by (simp add: js_def)

section \<open>Results: return and throw\<close>

text \<open>
  A function that may throw returns \<open>Inl\<close> of the error it throws or \<open>Inr\<close> of the value it
  returns; \<open>result_bind\<close> is the sequencing of two statements.
\<close>

type_synonym ('e, 'a) result = "'e + 'a"

fun result_bind :: "('e, 'a) result \<Rightarrow> ('a \<Rightarrow> ('e, 'b) result) \<Rightarrow> ('e, 'b) result" where
  "result_bind (Inl e) k = Inl e"
| "result_bind (Inr x) k = k x"

lemma result_bind_Inr_iff:
  "result_bind r k = Inr y \<longleftrightarrow> (\<exists>x. r = Inr x \<and> k x = Inr y)"
  by (cases r) auto

lemma result_bind_Inl_iff:
  "result_bind r k = Inl e \<longleftrightarrow> r = Inl e \<or> (\<exists>x. r = Inr x \<and> k x = Inl e)"
  by (cases r) auto

lemmas result_bind_iff = result_bind_Inr_iff result_bind_Inl_iff

text \<open>\<open>list.map(f)\<close> for an \<open>f\<close> that may throw: the first error in list order.\<close>

fun result_map :: "('a \<Rightarrow> ('e, 'b) result) \<Rightarrow> 'a list \<Rightarrow> ('e, 'b list) result" where
  "result_map f [] = Inr []"
| "result_map f (x # xs) =
     result_bind (f x) (\<lambda>y. result_bind (result_map f xs) (\<lambda>ys. Inr (y # ys)))"

lemma result_map_Inr_iff:
  "result_map f xs = Inr ys \<longleftrightarrow> list_all2 (\<lambda>x y. f x = Inr y) xs ys"
proof (induction xs arbitrary: ys)
  case Nil
  then show ?case by auto
next
  case (Cons x xs)
  then show ?case by (cases ys) (auto simp: result_bind_iff)
qed

lemma result_map_Inl: "result_map f xs = Inl e \<Longrightarrow> \<exists>x\<in>set xs. f x = Inl e"
  by (induction xs) (auto simp: result_bind_iff)

section \<open>String operations of the standard library\<close>

text \<open>\<open>s.startsWith(p)\<close>, and \<open>s.slice(n)\<close> for \<open>0 \<le> n\<close>, which is \<^const>\<open>drop\<close>.\<close>

definition starts_with :: "js_string \<Rightarrow> js_string \<Rightarrow> bool" where
  "starts_with p s \<longleftrightarrow> take (length p) s = p"

lemma starts_with_iff: "starts_with p s \<longleftrightarrow> (\<exists>t. s = p @ t)"
  unfolding starts_with_def by (metis append_eq_conv_conj append_take_drop_id)

lemma starts_with_Nil [simp]: "starts_with [] s"
  by (simp add: starts_with_def)

lemma starts_with_Cons [js_eval]:
  "starts_with (a # p) [] = False"
  "starts_with (a # p) (b # s) = (a = b \<and> starts_with p s)"
  by (auto simp: starts_with_def)

lemma starts_with_append [simp]: "starts_with p (p @ s)"
  by (simp add: starts_with_def)

text \<open>\<open>s.split(c)\<close> for a one-character separator: never empty, the pieces joined by \<open>c\<close> are \<open>s\<close>.\<close>

fun split_on :: "code_unit \<Rightarrow> js_string \<Rightarrow> js_string list" where
  "split_on c [] = [[]]"
| "split_on c (x # xs) =
     (if x = c then [] # split_on c xs
      else (case split_on c xs of [] \<Rightarrow> [[x]] | p # ps \<Rightarrow> (x # p) # ps))"

fun join_with :: "code_unit \<Rightarrow> js_string list \<Rightarrow> js_string" where
  "join_with c [] = []"
| "join_with c [p] = p"
| "join_with c (p # q # ps) = p @ c # join_with c (q # ps)"

lemma split_on_not_Nil [simp]: "split_on c s \<noteq> []"
  by (induction s) (auto split: list.splits)

lemma join_with_Cons_Cons: "join_with c ((x # p) # ps) = x # join_with c (p # ps)"
  by (cases ps) auto

lemma join_with_Nil_Cons: "ps \<noteq> [] \<Longrightarrow> join_with c ([] # ps) = c # join_with c ps"
  by (cases ps) auto

lemma join_split_on: "join_with c (split_on c s) = s"
  by (induction s) (auto simp: join_with_Cons_Cons join_with_Nil_Cons split: list.splits)

lemma split_on_no_sep: "p \<in> set (split_on c s) \<Longrightarrow> c \<notin> set p"
  by (induction s arbitrary: p) (auto split: list.splits if_splits)

lemma split_on_free: "c \<notin> set p \<Longrightarrow> split_on c p = [p]"
  by (induction p) auto

lemma split_on_append_sep: "c \<notin> set p \<Longrightarrow> split_on c (p @ c # s) = p # split_on c s"
  by (induction p) auto

lemma split_join_with:
  "ps \<noteq> [] \<Longrightarrow> \<forall>p\<in>set ps. c \<notin> set p \<Longrightarrow> split_on c (join_with c ps) = ps"
  by (induction c ps rule: join_with.induct) (auto simp: split_on_free split_on_append_sep)

text \<open>The text before a separator's first occurrence, and the text after it, are unique.\<close>

lemma first_sep_unique:
  "xs @ a # r = ys @ a # q \<Longrightarrow> a \<notin> set xs \<Longrightarrow> a \<notin> set ys \<Longrightarrow> xs = ys \<and> r = q"
proof (induction xs arbitrary: ys)
  case Nil
  then show ?case by (cases ys) auto
next
  case (Cons x xs)
  then show ?case by (cases ys) auto
qed

text \<open>
  \<open>s.toLowerCase()\<close>, up to what a lookup of an ASCII name can tell: the ASCII capitals, and the
  Kelvin sign U+212A, the one code unit outside ASCII that lower-cases to an ASCII string
  (\<open>k\<close>). Every other non-ASCII code unit lower-cases to a text with a non-ASCII unit in it, so
  it is left alone here.
\<close>

definition lower_unit :: "code_unit \<Rightarrow> code_unit" where
  "lower_unit c = (if 0x41 \<le> c \<and> c \<le> 0x5A then c + 0x20 else if c = 0x212A then 0x6B else c)"

definition to_lower :: "js_string \<Rightarrow> js_string" where
  "to_lower s = map lower_unit s"

lemma lower_unit_idem [simp]: "lower_unit (lower_unit c) = lower_unit c"
proof -
  have "\<not> (0x41 \<le> c + 0x20 \<and> c + 0x20 \<le> 0x5A) \<and> c + 0x20 \<noteq> 0x212A"
    if "0x41 \<le> c" "c \<le> 0x5A"
    using that by unat_arith
  then show ?thesis by (auto simp: lower_unit_def)
qed

lemma to_lower_idem [simp]: "to_lower (to_lower s) = to_lower s"
  by (simp add: to_lower_def)

lemma length_to_lower [simp]: "length (to_lower s) = length s"
  by (simp add: to_lower_def)

lemma to_lower_Nil [simp]: "to_lower [] = []"
  by (simp add: to_lower_def)

lemma to_lower_Cons [js_eval]: "to_lower (c # s) = lower_unit c # to_lower s"
  by (simp add: to_lower_def)

lemma to_lower_append [js_str]: "to_lower (s @ t) = to_lower s @ to_lower t"
  by (simp add: to_lower_def)

text \<open>A literal without a capital is its own lower case.\<close>

definition no_capital :: "string \<Rightarrow> bool" where
  "no_capital s \<longleftrightarrow> list_all (\<lambda>c. of_char c < (0x41 :: nat) \<or> (0x5A :: nat) < of_char c) s"

lemma to_lower_js: "no_capital s \<Longrightarrow> to_lower (js s) = js s"
proof -
  have "lower_unit (of_char c) = of_char c" if "of_char c < (0x41 :: nat) \<or> (0x5A :: nat) < of_char c" for c
  proof -
    have bound: "of_char c < (256 :: nat)" by (cases c) simp
    have "of_char c \<noteq> (0x212A :: code_unit)"
    proof
      assume "of_char c = (0x212A :: code_unit)"
      then have "(of_char c :: nat) = 0x212A" using unat_of_char [of c] by (simp del: unat_of_char)
      with bound show False by linarith
    qed
    with that show ?thesis
      by (auto simp: lower_unit_def word_le_nat_alt word_less_nat_alt)
  qed
  then show "no_capital s \<Longrightarrow> to_lower (js s) = js s"
    by (induction s) (simp_all add: no_capital_def js_Cons to_lower_def)
qed

section \<open>Character classes\<close>

definition is_digit :: "code_unit \<Rightarrow> bool" where
  "is_digit c \<longleftrightarrow> 0x30 \<le> c \<and> c \<le> 0x39"

definition is_upper :: "code_unit \<Rightarrow> bool" where
  "is_upper c \<longleftrightarrow> 0x41 \<le> c \<and> c \<le> 0x5A"

definition is_lower :: "code_unit \<Rightarrow> bool" where
  "is_lower c \<longleftrightarrow> 0x61 \<le> c \<and> c \<le> 0x7A"

definition is_alnum :: "code_unit \<Rightarrow> bool" where
  "is_alnum c \<longleftrightarrow> is_digit c \<or> is_upper c \<or> is_lower c"

text \<open>\<open>[0-9a-f]\<close>\<close>

definition is_lower_hex :: "code_unit \<Rightarrow> bool" where
  "is_lower_hex c \<longleftrightarrow> is_digit c \<or> 0x61 \<le> c \<and> c \<le> 0x66"

text \<open>The pattern \<open>/^[0-9a-f]{64}$/\<close> of a SHA-256 digest in hex.\<close>

definition sha256_pattern :: "js_string \<Rightarrow> bool" where
  "sha256_pattern s \<longleftrightarrow> length s = 64 \<and> list_all is_lower_hex s"

section \<open>Decimal text\<close>

fun digit_chars :: "nat \<Rightarrow> js_string" where
  "digit_chars n =
     (if n < 10 then [word_of_nat (0x30 + n)]
      else digit_chars (n div 10) @ [word_of_nat (0x30 + n mod 10)])"

declare digit_chars.simps [simp del]

text \<open>The mathematical value of a string of decimal digits.\<close>

definition digits_value :: "js_string \<Rightarrow> nat" where
  "digits_value s = fold (\<lambda>c n. 10 * n + (unat c - 0x30)) s 0"

lemma digits_value_snoc: "digits_value (s @ [c]) = 10 * digits_value s + (unat c - 0x30)"
  by (simp add: digits_value_def)

lemma digits_value_Nil [simp]: "digits_value [] = 0"
  by (simp add: digits_value_def)

lemma unat_digit_char: "d < 10 \<Longrightarrow> unat (word_of_nat (0x30 + d) :: code_unit) = 0x30 + d"
  by (simp add: unat_of_nat del: of_nat_add)

lemma digit_chars_value: "digits_value (digit_chars n) = n"
proof (induction n rule: digit_chars.induct)
  case (1 n)
  show ?case
  proof (cases "n < 10")
    case True
    then have "digits_value [word_of_nat (0x30 + n)] = n"
      by (simp add: digits_value_def unat_digit_char del: of_nat_add)
    with True show ?thesis by (subst digit_chars.simps) simp
  next
    case False
    have "unat (word_of_nat (0x30 + n mod 10) :: code_unit) = 0x30 + n mod 10"
      by (rule unat_digit_char) simp
    with 1 False show ?thesis
      by (subst digit_chars.simps) (simp add: digits_value_snoc del: of_nat_add)
  qed
qed

lemma is_digit_iff: "is_digit c \<longleftrightarrow> (\<exists>d<10. c = word_of_nat (0x30 + d))"
proof
  assume "is_digit c"
  then have "0x30 \<le> unat c" "unat c \<le> 0x39"
    by (simp_all add: is_digit_def word_le_nat_alt)
  then have "unat c - 0x30 < 10" "c = word_of_nat (0x30 + (unat c - 0x30))"
    by (simp_all del: of_nat_add)
  then show "\<exists>d<10. c = word_of_nat (0x30 + d)" by blast
next
  assume "\<exists>d<10. c = word_of_nat (0x30 + d)"
  then obtain d where "d < 10" "c = word_of_nat (0x30 + d)" by blast
  then show "is_digit c"
    using unat_digit_char [of d] by (simp add: is_digit_def word_le_nat_alt del: of_nat_add)
qed

lemma digit_chars_digits: "list_all is_digit (digit_chars n)"
proof (induction n rule: digit_chars.induct)
  case (1 n)
  have "is_digit (word_of_nat (0x30 + n mod 10))"
    by (rule is_digit_iff [THEN iffD2]) (rule exI [of _ "n mod 10"], simp)
  with 1 show ?case
    by (cases "n < 10") (subst digit_chars.simps, simp)+
qed

lemma digit_chars_not_Nil [simp]: "digit_chars n \<noteq> []"
  by (subst digit_chars.simps) simp

lemma digits_value_bound: "list_all is_digit s \<Longrightarrow> digits_value s < 10 ^ length s"
proof (induction s rule: rev_induct)
  case (snoc c s)
  have "unat c - 0x30 < 10"
    using snoc.prems by (auto simp: is_digit_def word_le_nat_alt)
  moreover have "digits_value s < 10 ^ length s" using snoc by simp
  ultimately show ?case by (simp add: digits_value_snoc)
qed simp

lemma length_digit_chars: "n < 10 ^ Suc k \<Longrightarrow> length (digit_chars n) \<le> Suc k"
proof (induction k arbitrary: n)
  case 0
  then show ?case by (subst digit_chars.simps) simp
next
  case (Suc k)
  then have "n div 10 < 10 ^ Suc k" by simp
  from Suc.IH [OF this] show ?case by (subst digit_chars.simps) simp
qed

lemmas unit_classes = is_digit_def is_upper_def is_lower_def is_alnum_def is_lower_hex_def

declare unit_classes [js_eval] lower_unit_def [js_eval] sha256_pattern_def [js_eval]

section \<open>Ordered rules\<close>

text \<open>
  The contract of a strict decoder: a list of rules, each with the error it is reported by. The
  first rule an input breaks decides the error; an input that breaks none is decoded.
\<close>

fun first_violation :: "(bool \<times> 'e) list \<Rightarrow> 'e option" where
  "first_violation [] = None"
| "first_violation ((b, e) # rs) = (if b then first_violation rs else Some e)"

lemma first_violation_None_iff: "first_violation rs = None \<longleftrightarrow> list_all fst rs"
  by (induction rs rule: first_violation.induct) auto

lemma first_violation_append:
  "first_violation (rs @ rs') = (case first_violation rs of None \<Rightarrow> first_violation rs' | Some e \<Rightarrow> Some e)"
  by (induction rs rule: first_violation.induct) auto

lemma first_violation_Some_iff:
  "first_violation rs = Some e \<longleftrightarrow> (\<exists>pre post. rs = pre @ (False, e) # post \<and> list_all fst pre)"
proof
  show "first_violation rs = Some e \<Longrightarrow> \<exists>pre post. rs = pre @ (False, e) # post \<and> list_all fst pre"
  proof (induction rs rule: first_violation.induct)
    case (2 b e' rs)
    show ?case
    proof (cases b)
      case True
      with 2 obtain pre post where "rs = pre @ (False, e) # post" "list_all fst pre" by auto
      with True show ?thesis by (intro exI [of _ "(b, e') # pre"] exI [of _ post]) simp
    next
      case False
      with 2 show ?thesis by (intro exI [of _ "[]"] exI [of _ rs]) simp
    qed
  qed simp
  show "\<exists>pre post. rs = pre @ (False, e) # post \<and> list_all fst pre \<Longrightarrow> first_violation rs = Some e"
    by (auto simp: first_violation_append simp flip: first_violation_None_iff)
qed

locale strict_decoder =
  fixes decode :: "'r \<Rightarrow> ('e, 'm) result"
    and rules :: "'r \<Rightarrow> (bool \<times> 'e) list"
    and build :: "'r \<Rightarrow> 'm"
  assumes by_rules: "decode raw = (case first_violation (rules raw) of Some e \<Rightarrow> Inl e | None \<Rightarrow> Inr (build raw))"
begin

lemma accepts_iff: "decode raw = Inr m \<longleftrightarrow> list_all fst (rules raw) \<and> m = build raw"
  by (auto simp: by_rules first_violation_None_iff [symmetric] split: option.split)

lemma refuses_iff:
  "decode raw = Inl e \<longleftrightarrow> (\<exists>pre post. rules raw = pre @ (False, e) # post \<and> list_all fst pre)"
  unfolding by_rules first_violation_Some_iff [symmetric] by (simp split: option.split)

end

section \<open>Codecs\<close>

text \<open>The value of a result, without its error.\<close>

fun result_value :: "('e, 'a) result \<Rightarrow> 'a option" where
  "result_value (Inl e) = None"
| "result_value (Inr x) = Some x"

lemma result_value_Some [simp]: "result_value r = Some x \<longleftrightarrow> r = Inr x"
  by (cases r) auto

text \<open>
  The contract of a text form: the decoder reads back what the encoder writes for every value the
  format can carry. A canonical form has, besides, one text for each value.
\<close>

locale codec =
  fixes enc :: "'a \<Rightarrow> 's"
    and dec :: "'s \<Rightarrow> 'a option"
    and carries :: "'a \<Rightarrow> bool"
  assumes decode_encode: "carries x \<Longrightarrow> dec (enc x) = Some x"
begin

lemma encode_inj: "carries x \<Longrightarrow> carries y \<Longrightarrow> enc x = enc y \<Longrightarrow> x = y"
  by (metis decode_encode option.inject)

end

locale canonical_codec = codec +
  assumes encode_decode: "dec s = Some x \<Longrightarrow> carries x \<and> enc x = s"
begin

lemma decode_iff: "dec s = Some x \<longleftrightarrow> carries x \<and> enc x = s"
  using decode_encode encode_decode by blast

lemma decode_inj: "dec s = Some x \<Longrightarrow> dec t = Some x \<Longrightarrow> s = t"
  by (simp add: decode_iff)

lemma decode_defined_iff: "dec s \<noteq> None \<longleftrightarrow> (\<exists>x. carries x \<and> s = enc x)"
  using decode_iff by fastforce

end

end
