(* ===== verification/Js_Number.thy ===== *)
theory Js_Number
  imports Js_Base Complex_Main "HOL-Library.Log_Nat"
begin

text \<open>
  JavaScript numbers: IEEE 754 binary64. A finite number is the rational it denotes; \<open>round64\<close>
  rounds a rational to the nearest binary64 value, ties to even, and overflows to an infinity.
  The two zeros are one value here: no operation the SDK applies to a number (\<open>===\<close>, \<open><\<close>,
  \<open>-\<close>, \<open>Math.abs\<close>, \<open>Number.isInteger\<close>) tells them apart.
\<close>

datatype js_number = Fin rat | PosInf | NegInf | NaN

section \<open>Rounding to binary64\<close>

text \<open>The integer part of the base-2 logarithm of a positive rational.\<close>

definition ilog2 :: "rat \<Rightarrow> int" where
  "ilog2 q =
     (case quotient_of q of (a, b) \<Rightarrow>
        let e = bitlen a - bitlen b in if power_int 2 e \<le> q then e else e - 1)"

definition round_half_even :: "rat \<Rightarrow> int" where
  "round_half_even q =
     (let f = floor q; d = q - of_int f
      in if d < 1 / 2 then f else if 1 / 2 < d then f + 1 else if even f then f else f + 1)"

text \<open>The exponent of the last bit of the binary64 value nearest to \<open>q\<close>.\<close>

definition ulp_exp :: "rat \<Rightarrow> int" where
  "ulp_exp q = max (ilog2 \<bar>q\<bar> - 52) (-1074)"

definition round64 :: "rat \<Rightarrow> js_number" where
  "round64 q =
     (if q = 0 then Fin 0
      else let e = ulp_exp q;
               r = of_int (round_half_even (q / power_int 2 e)) * power_int 2 e
           in if 2 ^ 1024 \<le> r then PosInf else if r \<le> - (2 ^ 1024) then NegInf else Fin r)"

lemma bitlen_powi_bounds:
  assumes "0 < a"
  shows "power_int 2 (bitlen a - 1) \<le> (of_int a :: rat)" "(of_int a :: rat) < power_int 2 (bitlen a)"
proof -
  have pos: "0 < bitlen a" using assms by (simp add: bitlen_eq_zero_iff order_less_le bitlen_nonneg)
  have b: "2 ^ nat (bitlen a - 1) \<le> a \<and> a < 2 ^ nat (bitlen a)"
    using assms by (rule bitlen_bounds)
  have 1: "power_int 2 (bitlen a - 1) = (of_int (2 ^ nat (bitlen a - 1)) :: rat)"
    using pos by (simp add: power_int_def)
  have 2: "power_int 2 (bitlen a) = (of_int (2 ^ nat (bitlen a)) :: rat)"
    using pos by (simp add: power_int_def)
  show "power_int 2 (bitlen a - 1) \<le> (of_int a :: rat)"
    unfolding 1 using b by (simp only: of_int_le_iff)
  show "(of_int a :: rat) < power_int 2 (bitlen a)"
    unfolding 2 using b by (simp only: of_int_less_iff)
qed

lemma ilog2_lower:
  assumes "0 < q"
  shows "power_int 2 (ilog2 q) \<le> q"
proof -
  obtain a b where ab: "quotient_of q = (a, b)" by (cases "quotient_of q")
  then have b: "0 < b" and q: "q = of_int a / of_int b"
    using quotient_of_denom_pos quotient_of_div by blast+
  with assms have a: "0 < a" by (simp add: zero_less_divide_iff)
  have "power_int 2 (bitlen a - bitlen b - 1) = (power_int 2 (bitlen a - 1) / power_int 2 (bitlen b) :: rat)"
    by (simp add: power_int_diff)
  also have "\<dots> \<le> of_int a / of_int b"
    using bitlen_powi_bounds [OF a] bitlen_powi_bounds [OF b] b a
    by (intro frac_le) (auto intro: less_imp_le)
  finally have "power_int 2 (bitlen a - bitlen b - 1) \<le> q" by (simp add: q)
  then show ?thesis by (simp add: ilog2_def ab Let_def)
qed

section \<open>Exact integers\<close>

lemma round_half_even_of_int [simp]: "round_half_even (of_int n) = n"
  by (simp add: round_half_even_def)

lemma ilog2_less:
  assumes "0 < n" and "n < 2 ^ 53"
  shows "ilog2 (of_int n) \<le> 52"
proof (rule ccontr)
  assume "\<not> ilog2 (of_int n) \<le> 52"
  then have "power_int 2 53 \<le> (power_int 2 (ilog2 (of_int n)) :: rat)"
    by (intro power_int_increasing) auto
  also have "\<dots> \<le> of_int n" using assms by (intro ilog2_lower) simp
  finally have "(of_int (2 ^ 53) :: rat) \<le> of_int n" by (simp add: power_int_def)
  then have "2 ^ 53 \<le> n" by (simp only: of_int_le_iff)
  with assms show False by simp
qed

text \<open>Every integer of magnitude below \<open>2^53\<close> is a binary64 value, so it rounds to itself.\<close>

lemma round64_safe_int:
  assumes "\<bar>n\<bar> < 2 ^ 53"
  shows "round64 (of_int n) = Fin (of_int n)"
proof (cases "n = 0")
  case True
  then show ?thesis by (simp add: round64_def)
next
  case False
  let ?q = "of_int n :: rat"
  let ?e = "ulp_exp ?q"
  have "ilog2 \<bar>?q\<bar> \<le> 52"
    using ilog2_less [of "\<bar>n\<bar>"] assms False by simp
  then have e: "?e \<le> 0" by (simp add: ulp_exp_def)
  then have "?q / power_int 2 ?e = of_int (n * 2 ^ nat (- ?e))"
    by (simp add: power_int_def field_simps)
  then have "of_int (round_half_even (?q / power_int 2 ?e)) * power_int 2 ?e
    = (of_int (n * 2 ^ nat (- ?e)) * power_int 2 ?e :: rat)"
    by (simp only: round_half_even_of_int)
  also have "\<dots> = ?q" using e by (simp add: power_int_def field_simps)
  finally have r: "of_int (round_half_even (?q / power_int 2 ?e)) * power_int 2 ?e = ?q" .
  have "n < 2 ^ 1024" "- (2 ^ 1024) < n" using assms by simp_all
  then have "?q < of_int (2 ^ 1024)" "of_int (- (2 ^ 1024)) < ?q"
    by (simp_all only: of_int_less_iff)
  with r False show ?thesis by (simp add: round64_def Let_def)
qed

section \<open>The operations of the language\<close>

text \<open>\<open>a - b\<close>\<close>

fun num_sub :: "js_number \<Rightarrow> js_number \<Rightarrow> js_number" where
  "num_sub (Fin a) (Fin b) = round64 (a - b)"
| "num_sub NaN _ = NaN"
| "num_sub _ NaN = NaN"
| "num_sub PosInf PosInf = NaN"
| "num_sub NegInf NegInf = NaN"
| "num_sub PosInf _ = PosInf"
| "num_sub NegInf _ = NegInf"
| "num_sub _ PosInf = NegInf"
| "num_sub _ NegInf = PosInf"

text \<open>\<open>Math.abs(a)\<close>\<close>

fun num_abs :: "js_number \<Rightarrow> js_number" where
  "num_abs (Fin a) = Fin \<bar>a\<bar>"
| "num_abs NaN = NaN"
| "num_abs PosInf = PosInf"
| "num_abs NegInf = PosInf"

text \<open>\<open>a < b\<close>: false as soon as one side is not a number.\<close>

fun num_less :: "js_number \<Rightarrow> js_number \<Rightarrow> bool" where
  "num_less (Fin a) (Fin b) = (a < b)"
| "num_less NaN _ = False"
| "num_less _ NaN = False"
| "num_less PosInf _ = False"
| "num_less _ NegInf = False"
| "num_less _ PosInf = True"
| "num_less NegInf _ = True"

text \<open>\<open>a === b\<close>\<close>

definition num_eq :: "js_number \<Rightarrow> js_number \<Rightarrow> bool" where
  "num_eq a b \<longleftrightarrow> a \<noteq> NaN \<and> a = b"

text \<open>\<open>Number.isInteger(a)\<close>\<close>

fun num_is_integer :: "js_number \<Rightarrow> bool" where
  "num_is_integer (Fin a) = (of_int (floor a) = a)"
| "num_is_integer _ = False"

definition num_of_int :: "int \<Rightarrow> js_number" where
  "num_of_int n = round64 (of_int n)"

text \<open>\<open>Number(s)\<close> of a non-empty string of decimal digits.\<close>

definition num_of_digits :: "js_string \<Rightarrow> js_number" where
  "num_of_digits s = round64 (of_nat (digits_value s))"

lemma num_of_int_safe: "\<bar>n\<bar> < 2 ^ 53 \<Longrightarrow> num_of_int n = Fin (of_int n)"
  unfolding num_of_int_def by (rule round64_safe_int)

lemma num_of_digits_safe:
  assumes "digits_value s < 2 ^ 53"
  shows "num_of_digits s = Fin (of_nat (digits_value s))"
proof -
  have "\<bar>int (digits_value s)\<bar> < 2 ^ 53" using assms by simp
  then show ?thesis
    unfolding num_of_digits_def using round64_safe_int by (metis of_int_of_nat_eq)
qed

text \<open>Differences of integers are exact as long as the difference is below \<open>2^53\<close>.\<close>

lemma num_sub_safe:
  assumes "\<bar>m - n\<bar> < 2 ^ 53"
  shows "num_sub (Fin (of_int m)) (Fin (of_int n)) = Fin (of_int (m - n))"
  using round64_safe_int [OF assms] by simp

lemma num_is_integer_iff: "num_is_integer x \<longleftrightarrow> (\<exists>n. x = Fin (of_int n))"
proof (cases x)
  case (Fin a)
  have "of_int (floor a) = a \<longleftrightarrow> (\<exists>n. a = of_int n)" by (metis floor_of_int)
  with Fin show ?thesis by simp
qed simp_all

lemma num_eq_simps [simp]: "num_eq (Fin a) x \<longleftrightarrow> x = Fin a" "num_eq x (Fin a) \<longleftrightarrow> x = Fin a"
  by (auto simp: num_eq_def)

end
