(* ===== verification/Webhook_Headers.thy ===== *)
theory Webhook_Headers
  imports Js_Number
begin

text \<open>
  The webhook component's header parser, \<open>webhook/headers.ts\<close>: the identity of one HTTP-sink
  delivery from whatever header mapping the receiver's framework has. The lemmas show that lookup
  ignores the case of names, that a parsed identity is well-formed (an id that is never empty,
  advisory values that are either absent or in range), and that the parser reads back every
  well-formed identity a sender writes.
\<close>

section \<open>Header mappings\<close>

text \<open>A value of Node's \<open>IncomingHttpHeaders\<close>: a string or an array of strings.\<close>

datatype header_value = One js_string | Many "js_string list"

text \<open>
  \<open>HeaderSource\<close>: a \<open>Headers\<close>, by the pairs its \<open>entries()\<close> yields, or a plain object, by its
  own entries; \<open>None\<close> is the value \<open>undefined\<close>.
\<close>

datatype HeaderSource =
    Headers "(js_string \<times> js_string) list"
  | Record "(js_string \<times> header_value option) list"

text \<open>The result of \<open>lowered.get(name)\<close> for every name; \<open>None\<close> is \<open>undefined\<close>.\<close>

type_synonym lowered = "js_string \<Rightarrow> js_string option"

fun header_entries :: "HeaderSource \<Rightarrow> (js_string \<times> header_value option) list" where
  "header_entries (Headers es) = map (\<lambda>(name, s). (name, Some (One s))) es"
| "header_entries (Record es) = es"

text \<open>\<open>Array.isArray(value) ? value[0] : value\<close>\<close>

fun first_value :: "header_value \<Rightarrow> js_string option" where
  "first_value (One s) = Some s"
| "first_value (Many []) = None"
| "first_value (Many (s # ss)) = Some s"

fun lowered_set :: "js_string \<times> header_value option \<Rightarrow> lowered \<Rightarrow> lowered" where
  "lowered_set (name, None) m = m"
| "lowered_set (name, Some v) m = m(to_lower name := first_value v)"

definition lowered_headers :: "HeaderSource \<Rightarrow> lowered" where
  "lowered_headers h = fold lowered_set (header_entries h) (\<lambda>_. None)"

section \<open>The delivery's identity\<close>

record Verification =
  status :: js_string
  flagged :: bool

record HookHeaders =
  hook_id :: js_string
  hook_source :: js_string
  hook_tenant :: "js_string option"
  contentType :: "js_string option"
  dedupeKey :: "js_string option"
  replayId :: "js_string option"
  hook_idempotencyKey :: "js_string option"
  receivedAt :: "js_number option"
  bodySha256 :: "js_string option"
  verification :: "Verification option"

datatype MissingHookIdError = MissingHookIdError

text \<open>\<open>value || null\<close> for a string or \<open>undefined\<close>: the empty string counts as absent.\<close>

fun or_null :: "js_string option \<Rightarrow> js_string option" where
  "or_null None = None"
| "or_null (Some s) = (if s = [] then None else Some s)"

text \<open>The pattern \<open>/^[0-9]{1,15}$/\<close>.\<close>

definition received_at_pattern :: "js_string \<Rightarrow> bool" where
  "received_at_pattern s \<longleftrightarrow> 1 \<le> length s \<and> length s \<le> 15 \<and> list_all is_digit s"

fun parseReceivedAt :: "js_string option \<Rightarrow> js_number option" where
  "parseReceivedAt None = None"
| "parseReceivedAt (Some s) = (if received_at_pattern s then Some (num_of_digits s) else None)"

fun parseBodySha256 :: "js_string option \<Rightarrow> js_string option" where
  "parseBodySha256 None = None"
| "parseBodySha256 (Some s) = (if sha256_pattern s then Some s else None)"

definition parseVerificationHeaders :: "lowered \<Rightarrow> Verification option" where
  "parseVerificationHeaders m =
     (case or_null (m (js ''x-ankusa-verification'')) of
        None \<Rightarrow> None
      | Some st \<Rightarrow>
          Some \<lparr>status = st, flagged = (m (js ''x-ankusa-verification-flagged'') = Some (js ''true''))\<rparr>)"

definition parseHeaders :: "HeaderSource \<Rightarrow> (MissingHookIdError, HookHeaders) result" where
  "parseHeaders h =
     (let m = lowered_headers h
      in case or_null (m (js ''x-ankusa-id'')) of
           None \<Rightarrow> Inl MissingHookIdError
         | Some i \<Rightarrow>
             Inr \<lparr>hook_id = i,
                  hook_source = (case m (js ''x-ankusa-source'') of None \<Rightarrow> [] | Some s \<Rightarrow> s),
                  hook_tenant = m (js ''x-ankusa-tenant''),
                  contentType = m (js ''content-type''),
                  dedupeKey = or_null (m (js ''x-ankusa-dedupe-key'')),
                  replayId = or_null (m (js ''x-ankusa-replay-id'')),
                  hook_idempotencyKey = or_null (m (js ''x-ankusa-idempotency-key'')),
                  receivedAt = parseReceivedAt (m (js ''x-ankusa-received-at'')),
                  bodySha256 = parseBodySha256 (m (js ''x-ankusa-body-sha256'')),
                  verification = parseVerificationHeaders m\<rparr>)"

section \<open>Lookup\<close>

lemma lowered_set_lower:
  "to_lower (fst e) = to_lower (fst e') \<Longrightarrow> snd e = snd e' \<Longrightarrow> lowered_set e = lowered_set e'"
  by (cases e; cases e'; cases "snd e") (auto simp: fun_eq_iff)

lemma lowered_headers_case:
  assumes "map (apfst to_lower) (header_entries h) = map (apfst to_lower) (header_entries h')"
  shows "lowered_headers h = lowered_headers h'"
proof -
  have "list_all2 (\<lambda>e e'. lowered_set e = lowered_set e') (header_entries h) (header_entries h')"
    using assms unfolding list_all2_conv_all_nth
    by (auto dest!: map_eq_imp_length_eq list_eq_iff_nth_eq [THEN iffD1]
        intro!: lowered_set_lower simp: apfst_def map_prod_def split: prod.splits)
  then have "fold lowered_set (header_entries h) m = fold lowered_set (header_entries h') m" for m
    by (induction arbitrary: m rule: list_all2_induct) auto
  then show ?thesis by (simp add: lowered_headers_def)
qed

section \<open>The identity is well-formed\<close>

fun received_at_ok :: "js_number \<Rightarrow> bool" where
  "received_at_ok (Fin q) = (of_int (floor q) = q \<and> 0 \<le> q \<and> q < 10 ^ 15)"
| "received_at_ok _ = False"

definition hook_wf :: "HookHeaders \<Rightarrow> bool" where
  "hook_wf h \<longleftrightarrow>
     hook_id h \<noteq> [] \<and>
     dedupeKey h \<noteq> Some [] \<and> replayId h \<noteq> Some [] \<and> hook_idempotencyKey h \<noteq> Some [] \<and>
     (case receivedAt h of None \<Rightarrow> True | Some x \<Rightarrow> received_at_ok x) \<and>
     (case bodySha256 h of None \<Rightarrow> True | Some s \<Rightarrow> sha256_pattern s) \<and>
     (case verification h of None \<Rightarrow> True | Some v \<Rightarrow> status v \<noteq> [])"

lemma or_null_not_empty [simp]: "or_null v \<noteq> Some []"
  by (cases v) auto

lemma or_null_Some_iff: "or_null v = Some s \<longleftrightarrow> v = Some s \<and> s \<noteq> []"
  by (cases v) auto

lemma parseReceivedAt_range:
  assumes "parseReceivedAt v = Some x"
  shows "\<exists>n. x = Fin (of_nat n) \<and> n < 10 ^ 15"
proof -
  from assms obtain s where s: "received_at_pattern s" "x = num_of_digits s"
    by (cases v) (auto split: if_splits)
  then have "digits_value s < 10 ^ length s" "length s \<le> 15"
    by (simp_all add: received_at_pattern_def digits_value_bound)
  moreover have "(10 :: nat) ^ length s \<le> 10 ^ 15"
    using \<open>length s \<le> 15\<close> by (intro power_increasing) simp_all
  ultimately have n: "digits_value s < 10 ^ 15" by linarith
  then have "digits_value s < 2 ^ 53" by simp
  with s n show ?thesis by (auto simp: num_of_digits_safe)
qed

lemma parseBodySha256_pattern: "parseBodySha256 v = Some s \<Longrightarrow> sha256_pattern s"
  by (cases v) (auto split: if_splits)

lemma parseVerification_status: "parseVerificationHeaders m = Some v \<Longrightarrow> status v \<noteq> []"
  by (auto simp: parseVerificationHeaders_def or_null_Some_iff split: option.splits)

lemma received_at_exact:
  assumes "parseReceivedAt v = Some x"
  shows "received_at_ok x"
proof -
  obtain n where n: "x = Fin (of_nat n)" "n < 10 ^ 15" using parseReceivedAt_range [OF assms] by blast
  then have "(of_nat n :: rat) < of_nat (10 ^ 15)" by (simp only: of_nat_less_iff)
  moreover have "of_int (floor (of_nat n :: rat)) = (of_nat n :: rat)" by (simp only: floor_of_nat of_int_of_nat_eq)
  ultimately show ?thesis unfolding n(1) by simp
qed

lemma parseHeaders_wf_aux:
  assumes "parseHeaders h = Inr i"
  shows "hook_wf i"
proof -
  let ?m = "lowered_headers h"
  have i: "hook_id i \<noteq> []"
    "dedupeKey i = or_null (?m (js ''x-ankusa-dedupe-key''))"
    "replayId i = or_null (?m (js ''x-ankusa-replay-id''))"
    "hook_idempotencyKey i = or_null (?m (js ''x-ankusa-idempotency-key''))"
    "receivedAt i = parseReceivedAt (?m (js ''x-ankusa-received-at''))"
    "bodySha256 i = parseBodySha256 (?m (js ''x-ankusa-body-sha256''))"
    "verification i = parseVerificationHeaders ?m"
    using assms by (auto simp: parseHeaders_def Let_def or_null_Some_iff split: option.splits)
  have "case receivedAt i of None \<Rightarrow> True | Some x \<Rightarrow> received_at_ok x"
    using i(5) by (auto split: option.split dest: received_at_exact simp del: received_at_ok.simps)
  moreover have "case bodySha256 i of None \<Rightarrow> True | Some s \<Rightarrow> sha256_pattern s"
    using i(6) by (auto split: option.split dest: parseBodySha256_pattern)
  moreover have "case verification i of None \<Rightarrow> True | Some v \<Rightarrow> status v \<noteq> []"
    using i(7) by (auto split: option.split dest: parseVerification_status)
  ultimately show ?thesis using i(1-4) by (simp add: hook_wf_def)
qed

text \<open>
  A parsed delivery always has an identity to dedupe on, and its advisory fields are in
  range: \<open>receivedAt\<close> is a whole number of milliseconds below \<open>10^15\<close> (so exact as a
  JavaScript number), \<open>bodySha256\<close> is 64 lowercase hex digits, and the keys and the verification
  status are never empty strings.
\<close>

lemma parseHeaders_wf: "case parseHeaders h of Inl _ \<Rightarrow> True | Inr i \<Rightarrow> hook_wf i"
  by (auto split: sum.split intro: parseHeaders_wf_aux)

section \<open>Reading back what a sender writes\<close>

text \<open>
  The headers of one delivery as documented for the HTTP sink: the identity first, the optional
  headers only when there is a value.
\<close>

definition opt_header :: "string \<Rightarrow> js_string option \<Rightarrow> (js_string \<times> js_string) list" where
  "opt_header name v = (case v of None \<Rightarrow> [] | Some s \<Rightarrow> [(js name, s)])"

fun number_text :: "js_number \<Rightarrow> js_string" where
  "number_text (Fin q) = digit_chars (nat (floor q))"
| "number_text _ = []"

definition wire_headers :: "HookHeaders \<Rightarrow> (js_string \<times> js_string) list" where
  "wire_headers h =
     opt_header ''x-ankusa-id'' (Some (hook_id h)) @
     opt_header ''x-ankusa-source'' (Some (hook_source h)) @
     opt_header ''x-ankusa-tenant'' (hook_tenant h) @
     opt_header ''content-type'' (contentType h) @
     opt_header ''x-ankusa-dedupe-key'' (dedupeKey h) @
     opt_header ''x-ankusa-replay-id'' (replayId h) @
     opt_header ''x-ankusa-idempotency-key'' (hook_idempotencyKey h) @
     opt_header ''x-ankusa-received-at'' (map_option number_text (receivedAt h)) @
     opt_header ''x-ankusa-body-sha256'' (bodySha256 h) @
     opt_header ''x-ankusa-verification'' (map_option status (verification h)) @
     opt_header ''x-ankusa-verification-flagged''
       (case verification h of Some v \<Rightarrow> if flagged v then Some (js ''true'') else None | None \<Rightarrow> None)"

text \<open>The map after the headers of an identity: one optional update per name.\<close>

definition set_opt :: "js_string \<Rightarrow> js_string option \<Rightarrow> lowered \<Rightarrow> lowered" where
  "set_opt k v m = (case v of None \<Rightarrow> m | Some s \<Rightarrow> m(k \<mapsto> s))"

lemma set_opt_apply: "set_opt k v m j = (if j = k \<and> v \<noteq> None then v else m j)"
  by (auto simp: set_opt_def split: option.splits)

lemma fold_opt_header:
  "to_lower (js name) = js name \<Longrightarrow>
     fold lowered_set (map (\<lambda>(n, s). (n, Some (One s))) (opt_header name v)) = set_opt (js name) v"
  by (auto simp: opt_header_def set_opt_def fun_eq_iff split: option.splits)

lemma parseReceivedAt_text:
  assumes "received_at_ok x"
  shows "parseReceivedAt (Some (number_text x)) = Some x"
proof -
  from assms obtain q where x: "x = Fin q" by (cases x) simp_all
  with assms have ok: "of_int (floor q) = q" "0 \<le> q" "q < 10 ^ 15" by simp_all
  define n where "n = nat (floor q)"
  have q: "q = of_nat n" using ok(1,2) unfolding n_def by (metis of_nat_nat zero_le_floor)
  have "(of_nat n :: rat) < of_nat (10 ^ 15)" using ok(3) q by simp
  then have n: "n < 10 ^ Suc 14" by (simp only: of_nat_less_iff) simp
  then have "length (digit_chars n) \<le> 15" using length_digit_chars by fastforce
  then have "received_at_pattern (digit_chars n)"
    by (simp add: received_at_pattern_def digit_chars_digits Suc_le_eq)
  moreover have "num_of_digits (digit_chars n) = Fin q"
    using n q by (subst num_of_digits_safe) (simp_all add: digit_chars_value)
  ultimately show ?thesis by (simp add: x flip: n_def)
qed

lemma lowered_wire:
  "lowered_headers (Headers (wire_headers h)) =
     set_opt (js ''x-ankusa-verification-flagged'')
       (case verification h of Some v \<Rightarrow> if flagged v then Some (js ''true'') else None | None \<Rightarrow> None)
    (set_opt (js ''x-ankusa-verification'') (map_option status (verification h))
    (set_opt (js ''x-ankusa-body-sha256'') (bodySha256 h)
    (set_opt (js ''x-ankusa-received-at'') (map_option number_text (receivedAt h))
    (set_opt (js ''x-ankusa-idempotency-key'') (hook_idempotencyKey h)
    (set_opt (js ''x-ankusa-replay-id'') (replayId h)
    (set_opt (js ''x-ankusa-dedupe-key'') (dedupeKey h)
    (set_opt (js ''content-type'') (contentType h)
    (set_opt (js ''x-ankusa-tenant'') (hook_tenant h)
    (set_opt (js ''x-ankusa-source'') (Some (hook_source h))
    (set_opt (js ''x-ankusa-id'') (Some (hook_id h)) (\<lambda>_. None)))))))))))"
proof -
  show ?thesis
    by (simp add: lowered_headers_def wire_headers_def fold_opt_header to_lower_js no_capital_def)
qed

lemma wire_lookup:
  fixes h
  defines "m \<equiv> lowered_headers (Headers (wire_headers h))"
  shows "m (js ''x-ankusa-id'') = Some (hook_id h)"
    "m (js ''x-ankusa-source'') = Some (hook_source h)"
    "m (js ''x-ankusa-tenant'') = hook_tenant h"
    "m (js ''content-type'') = contentType h"
    "m (js ''x-ankusa-dedupe-key'') = dedupeKey h"
    "m (js ''x-ankusa-replay-id'') = replayId h"
    "m (js ''x-ankusa-idempotency-key'') = hook_idempotencyKey h"
    "m (js ''x-ankusa-received-at'') = map_option number_text (receivedAt h)"
    "m (js ''x-ankusa-body-sha256'') = bodySha256 h"
    "m (js ''x-ankusa-verification'') = map_option status (verification h)"
    "m (js ''x-ankusa-verification-flagged'') = (case verification h of
       Some v \<Rightarrow> if flagged v then Some (js ''true'') else None | None \<Rightarrow> None)"
  unfolding m_def lowered_wire by (simp_all add: set_opt_apply)

lemma wire_verification:
  "hook_wf h \<Longrightarrow> parseVerificationHeaders (lowered_headers (Headers (wire_headers h))) = verification h"
  by (cases "verification h")
    (auto simp: parseVerificationHeaders_def wire_lookup hook_wf_def split: option.splits)

lemma wire_advisory:
  "hook_wf h \<Longrightarrow> parseReceivedAt (map_option number_text (receivedAt h)) = receivedAt h"
  "hook_wf h \<Longrightarrow> parseBodySha256 (bodySha256 h) = bodySha256 h"
  "hook_wf h \<Longrightarrow> or_null (dedupeKey h) = dedupeKey h"
  "hook_wf h \<Longrightarrow> or_null (replayId h) = replayId h"
  "hook_wf h \<Longrightarrow> or_null (hook_idempotencyKey h) = hook_idempotencyKey h"
  "hook_wf h \<Longrightarrow> hook_id h \<noteq> []"
  by (auto simp: hook_wf_def parseReceivedAt_text simp del: parseReceivedAt.simps(2)
      split: option.splits)
    (cases "dedupeKey h"; cases "replayId h"; cases "hook_idempotencyKey h"; simp)+

lemma parseHeaders_wire: "hook_wf h \<Longrightarrow> parseHeaders (Headers (wire_headers h)) = Inr h"
  by (simp add: parseHeaders_def Let_def wire_lookup wire_verification wire_advisory)

interpretation hook: codec "\<lambda>h. Headers (wire_headers h)" "\<lambda>s. result_value (parseHeaders s)" hook_wf
  by unfold_locales (simp add: parseHeaders_wire)

text \<open>
  C25. The parser reads back every well-formed identity from the headers that carry it.
\<close>

theorem parseHeaders_roundtrip: "hook_wf h \<Longrightarrow> parseHeaders (Headers (wire_headers h)) = Inr h"
  by (simp add: parseHeaders_wire)

theorem parseHeaders_roundtrip_witness:
  "parseHeaders (Headers (wire_headers
     \<lparr>hook_id = js ''01J9'', hook_source = js ''stripe'', hook_tenant = Some (js ''acme''),
      contentType = None, dedupeKey = Some (js ''evt_1''), replayId = None,
      hook_idempotencyKey = Some (js ''acme:stripe:evt_1''), receivedAt = Some (Fin 1700000000000),
      bodySha256 = None, verification = Some \<lparr>status = js ''failed'', flagged = True\<rparr>\<rparr>)) =
   Inr \<lparr>hook_id = js ''01J9'', hook_source = js ''stripe'', hook_tenant = Some (js ''acme''),
      contentType = None, dedupeKey = Some (js ''evt_1''), replayId = None,
      hook_idempotencyKey = Some (js ''acme:stripe:evt_1''), receivedAt = Some (Fin 1700000000000),
      bodySha256 = None, verification = Some \<lparr>status = js ''failed'', flagged = True\<rparr>\<rparr>"
  by (rule parseHeaders_roundtrip) (simp add: hook_wf_def)

text \<open>
  Lookup ignores the case of header names: two mappings whose entries agree up to the case of
  the names are parsed alike, whatever kind of mapping each is.
\<close>

lemma parseHeaders_case_insensitive:
  assumes "map (apfst to_lower) (header_entries h) = map (apfst to_lower) (header_entries h')"
  shows "parseHeaders h = parseHeaders h'"
  unfolding parseHeaders_def lowered_headers_case [OF assms] ..

end
