(* ===== verification/Js_Text.thy ===== *)
theory Js_Text
  imports Js_Base
begin

text \<open>
  Text and bytes: \<open>Buffer.from(s, "utf8")\<close> (every lone surrogate becomes U+FFFD) and
  \<open>new TextDecoder().decode(bytes)\<close> (the UTF-8 decoder of the WHATWG Encoding standard: an
  ill-formed sequence becomes U+FFFD, one leading byte-order mark is dropped). The lemmas show
  that decoding what was encoded gives back every well-formed text that has no leading U+FEFF.
\<close>

section \<open>Code points of a string\<close>

definition is_high_surrogate :: "code_unit \<Rightarrow> bool" where
  "is_high_surrogate c \<longleftrightarrow> 0xD800 \<le> unat c \<and> unat c \<le> 0xDBFF"

definition is_low_surrogate :: "code_unit \<Rightarrow> bool" where
  "is_low_surrogate c \<longleftrightarrow> 0xDC00 \<le> unat c \<and> unat c \<le> 0xDFFF"

fun code_points :: "js_string \<Rightarrow> nat list" where
  "code_points [] = []"
| "code_points [c] =
     [if is_high_surrogate c \<or> is_low_surrogate c then 0xFFFD else unat c]"
| "code_points (c # d # s) =
     (if is_high_surrogate c \<and> is_low_surrogate d
      then (0x10000 + (unat c - 0xD800) * 0x400 + (unat d - 0xDC00)) # code_points s
      else (if is_high_surrogate c \<or> is_low_surrogate c then 0xFFFD else unat c)
             # code_points (d # s))"

definition utf16_of :: "nat \<Rightarrow> js_string" where
  "utf16_of p =
     (if p < 0x10000 then [word_of_nat p]
      else [word_of_nat (0xD800 + (p - 0x10000) div 0x400),
            word_of_nat (0xDC00 + (p - 0x10000) mod 0x400)])"

text \<open>A string without lone surrogates.\<close>

fun well_formed :: "js_string \<Rightarrow> bool" where
  "well_formed [] = True"
| "well_formed [c] = (\<not> is_high_surrogate c \<and> \<not> is_low_surrogate c)"
| "well_formed (c # d # s) =
     (if is_high_surrogate c then is_low_surrogate d \<and> well_formed s
      else \<not> is_low_surrogate c \<and> well_formed (d # s))"

text \<open>A Unicode scalar value: a code point that is not a surrogate.\<close>

definition is_scalar :: "nat \<Rightarrow> bool" where
  "is_scalar p \<longleftrightarrow> p \<le> 0x10FFFF \<and> \<not> (0xD800 \<le> p \<and> p \<le> 0xDFFF)"

lemma code_points_scalar: "p \<in> set (code_points s) \<Longrightarrow> is_scalar p"
proof (induction s arbitrary: p rule: code_points.induct)
  case 1
  then show ?case by simp
next
  case (2 c)
  then show ?case
    using unat_unit_bound [of c]
    by (auto simp: is_scalar_def is_high_surrogate_def is_low_surrogate_def split: if_splits)
next
  case (3 c d s)
  consider "is_high_surrogate c" "is_low_surrogate d" | "\<not> (is_high_surrogate c \<and> is_low_surrogate d)"
    by blast
  then show ?case
  proof cases
    case 1
    then have "is_scalar (0x10000 + (unat c - 0xD800) * 0x400 + (unat d - 0xDC00))"
      unfolding is_scalar_def is_high_surrogate_def is_low_surrogate_def by linarith
    with 1 3 show ?thesis by auto
  next
    case 2
    have "is_scalar (if is_high_surrogate c \<or> is_low_surrogate c then 0xFFFD else unat c)"
      using unat_unit_bound [of c]
      by (auto simp: is_scalar_def is_high_surrogate_def is_low_surrogate_def)
    with 2 3 show ?thesis by (auto split: if_splits)
  qed
qed

lemma word_of_nat_unat_eq: "word_of_nat (unat (c :: code_unit)) = c"
  by simp

lemma utf16_of_pair:
  assumes "is_high_surrogate c" and "is_low_surrogate d"
  shows "utf16_of (0x10000 + (unat c - 0xD800) * 0x400 + (unat d - 0xDC00)) = [c, d]"
proof -
  obtain x where x: "unat c = 0xD800 + x" "x < 0x400"
    using assms(1) by (auto simp: is_high_surrogate_def intro: that [of "unat c - 0xD800"])
  obtain y where y: "unat d = 0xDC00 + y" "y < 0x400"
    using assms(2) by (auto simp: is_low_surrogate_def intro: that [of "unat d - 0xDC00"])
  have "word_of_nat (0xD800 + x) = c" "word_of_nat (0xDC00 + y) = d"
    by (metis x(1) word_of_nat_unat_eq, metis y(1) word_of_nat_unat_eq)
  with x y show ?thesis by (simp add: utf16_of_def del: of_nat_add)
qed

lemma utf16_code_points: "well_formed s \<Longrightarrow> concat (map utf16_of (code_points s)) = s"
proof (induction s rule: code_points.induct)
  case 1
  then show ?case by simp
next
  case (2 c)
  then show ?case by (simp add: utf16_of_def unat_unit_bound)
next
  case (3 c d s)
  then show ?case
    by (auto simp: utf16_of_pair, auto simp: utf16_of_def unat_unit_bound)
qed

section \<open>UTF-8\<close>

definition utf8_of :: "nat \<Rightarrow> byte list" where
  "utf8_of p =
     (if p < 0x80 then [word_of_nat p]
      else if p < 0x800 then [word_of_nat (0xC0 + p div 0x40), word_of_nat (0x80 + p mod 0x40)]
      else if p < 0x10000 then
        [word_of_nat (0xE0 + p div 0x1000), word_of_nat (0x80 + p div 0x40 mod 0x40),
         word_of_nat (0x80 + p mod 0x40)]
      else
        [word_of_nat (0xF0 + p div 0x40000), word_of_nat (0x80 + p div 0x1000 mod 0x40),
         word_of_nat (0x80 + p div 0x40 mod 0x40), word_of_nat (0x80 + p mod 0x40)])"

definition utf8_encode :: "js_string \<Rightarrow> byte list" where
  "utf8_encode s = concat (map utf8_of (code_points s))"

text \<open>
  The decoder's state between two bytes: \<open>None\<close>, or the continuation bytes still needed, the
  code point so far and the bounds of the next byte.
\<close>

type_synonym utf8_state = "(nat \<times> nat \<times> nat \<times> nat) option"

function utf8_run :: "utf8_state \<Rightarrow> byte list \<Rightarrow> nat list" where
  "utf8_run None [] = []"
| "utf8_run (Some st) [] = [0xFFFD]"
| "utf8_run None (b # bs) =
     (let x = unat b in
      if x \<le> 0x7F then x # utf8_run None bs
      else if 0xC2 \<le> x \<and> x \<le> 0xDF then utf8_run (Some (1, x mod 0x20, 0x80, 0xBF)) bs
      else if 0xE0 \<le> x \<and> x \<le> 0xEF then
        utf8_run (Some (2, x mod 0x10, if x = 0xE0 then 0xA0 else 0x80,
          if x = 0xED then 0x9F else 0xBF)) bs
      else if 0xF0 \<le> x \<and> x \<le> 0xF4 then
        utf8_run (Some (3, x mod 0x8, if x = 0xF0 then 0x90 else 0x80,
          if x = 0xF4 then 0x8F else 0xBF)) bs
      else 0xFFFD # utf8_run None bs)"
| "utf8_run (Some (needed, p, lo, hi)) (b # bs) =
     (let x = unat b in
      if lo \<le> x \<and> x \<le> hi then
        (let q = p * 0x40 + x mod 0x40 in
         if needed = 1 then q # utf8_run None bs else utf8_run (Some (needed - 1, q, 0x80, 0xBF)) bs)
      else 0xFFFD # utf8_run None (b # bs))"
  by pat_completeness auto
termination
  by (relation "measure (\<lambda>(st, bs). 2 * length bs + (case st of None \<Rightarrow> 0 | Some _ \<Rightarrow> 1))")
    (auto simp: Let_def)

definition utf8_decode :: "byte list \<Rightarrow> js_string" where
  "utf8_decode bs =
     concat (map utf16_of (case utf8_run None bs of [] \<Rightarrow> [] | p # ps \<Rightarrow>
       if p = 0xFEFF then ps else p # ps))"

text \<open>\<open>buffer.toString("utf8")\<close>, which keeps a byte-order mark.\<close>

definition utf8_to_string :: "byte list \<Rightarrow> js_string" where
  "utf8_to_string bs = concat (map utf16_of (utf8_run None bs))"

lemma unat_byte_of_nat: "n < 256 \<Longrightarrow> unat (word_of_nat n :: byte) = n"
  by (simp add: unat_of_nat)

lemma mod_offset: "a < n \<Longrightarrow> (k * n + a) mod n = (a :: nat)"
  by simp

lemma div_steps:
  "(p :: nat) div 0x1000 = p div 0x40 div 0x40"
  "(p :: nat) div 0x40000 = p div 0x40 div 0x40 div 0x40"
  by (simp_all flip: div_mult2_eq)

lemma utf8_run_lead2:
  assumes "2 \<le> a" and "a < 0x20"
  shows "utf8_run None (word_of_nat (0xC0 + a) # bs) = utf8_run (Some (1, a, 0x80, 0xBF)) bs"
proof -
  have "unat (word_of_nat (0xC0 + a) :: byte) = 0xC0 + a"
    using assms by (intro unat_byte_of_nat) simp
  moreover have "(0xC0 + a) mod 0x20 = a"
    using mod_offset [of a 32 6] assms by simp
  ultimately show ?thesis using assms by (simp add: Let_def del: of_nat_add)
qed

lemma utf8_run_lead3:
  assumes "a < 0x10"
  shows "utf8_run None (word_of_nat (0xE0 + a) # bs) =
    utf8_run (Some (2, a, if a = 0 then 0xA0 else 0x80, if a = 0xD then 0x9F else 0xBF)) bs"
proof -
  have "unat (word_of_nat (0xE0 + a) :: byte) = 0xE0 + a"
    using assms by (intro unat_byte_of_nat) simp
  moreover have "(0xE0 + a) mod 0x10 = a"
    using mod_offset [of a 16 14] assms by simp
  ultimately show ?thesis using assms by (simp add: Let_def del: of_nat_add)
qed

lemma utf8_run_lead4:
  assumes "a \<le> 4"
  shows "utf8_run None (word_of_nat (0xF0 + a) # bs) =
    utf8_run (Some (3, a, if a = 0 then 0x90 else 0x80, if a = 4 then 0x8F else 0xBF)) bs"
proof -
  have "unat (word_of_nat (0xF0 + a) :: byte) = 0xF0 + a"
    using assms by (intro unat_byte_of_nat) simp
  moreover have "(0xF0 + a) mod 0x8 = a"
    using mod_offset [of a 8 30] assms by simp
  ultimately show ?thesis using assms by (simp add: Let_def del: of_nat_add)
qed

lemma utf8_run_cont:
  assumes "x < 0x40" and "lo \<le> 0x80 + x" and "0x80 + x \<le> hi"
  shows "utf8_run (Some (n, p, lo, hi)) (word_of_nat (0x80 + x) # bs) =
    (if n = 1 then (p * 0x40 + x) # utf8_run None bs
     else utf8_run (Some (n - 1, p * 0x40 + x, 0x80, 0xBF)) bs)"
proof -
  have "unat (word_of_nat (0x80 + x) :: byte) = 0x80 + x"
    using assms by (intro unat_byte_of_nat) simp
  moreover have "(0x80 + x) mod 0x40 = x"
    using mod_offset [of x 64 2] assms by simp
  ultimately show ?thesis using assms by (simp add: Let_def del: of_nat_add)
qed

lemma utf8_run_encode:
  assumes "is_scalar p"
  shows "utf8_run None (utf8_of p @ bs) = p # utf8_run None bs"
proof -
  consider "p < 0x80" | "0x80 \<le> p" "p < 0x800" | "0x800 \<le> p" "p < 0x10000" | "0x10000 \<le> p"
    by linarith
  then show ?thesis
  proof cases
    case 1
    then show ?thesis by (simp add: utf8_of_def unat_byte_of_nat)
  next
    case 2
    then show ?thesis
      by (simp add: utf8_of_def utf8_run_lead2 utf8_run_cont del: of_nat_add utf8_run.simps)
  next
    case 3
    define a b c where "a = p div 0x1000" and "b = p div 0x40 mod 0x40" and "c = p mod 0x40"
    have p: "p = (a * 0x40 + b) * 0x40 + c" and b: "b < 0x40" and c: "c < 0x40"
      unfolding a_def b_def c_def div_steps by simp_all
    have flat: "p = a * 0x1000 + b * 0x40 + c" by (simp add: p)
    have "a < 0x10" using 3 unfolding flat by linarith
    moreover have "0x20 \<le> b" if "a = 0" using that 3 c unfolding flat by linarith
    moreover have "b \<le> 0x1F" if "a = 0xD"
      using that assms b c unfolding flat is_scalar_def by linarith
    moreover have "utf8_of p = [word_of_nat (0xE0 + a), word_of_nat (0x80 + b), word_of_nat (0x80 + c)]"
      using 3 by (simp add: utf8_of_def a_def b_def c_def)
    ultimately show ?thesis using b c p
      by (simp add: utf8_run_lead3 utf8_run_cont del: of_nat_add utf8_run.simps)
  next
    case 4
    define a b c d where "a = p div 0x40000" and "b = p div 0x1000 mod 0x40"
      and "c = p div 0x40 mod 0x40" and "d = p mod 0x40"
    have p: "p = ((a * 0x40 + b) * 0x40 + c) * 0x40 + d"
      and b: "b < 0x40" and c: "c < 0x40" and d: "d < 0x40"
      unfolding a_def b_def c_def d_def div_steps by simp_all
    have flat: "p = a * 0x40000 + b * 0x1000 + c * 0x40 + d" by (simp add: p)
    have "a \<le> 4" using assms unfolding flat is_scalar_def by linarith
    moreover have "0x10 \<le> b" if "a = 0" using that 4 c d unfolding flat by linarith
    moreover have "b \<le> 0xF" if "a = 4" using that assms unfolding flat is_scalar_def by linarith
    moreover have "utf8_of p = [word_of_nat (0xF0 + a), word_of_nat (0x80 + b),
        word_of_nat (0x80 + c), word_of_nat (0x80 + d)]"
      using 4 by (simp add: utf8_of_def a_def b_def c_def d_def)
    ultimately show ?thesis using b c d p
      by (simp add: utf8_run_lead4 utf8_run_cont del: of_nat_add utf8_run.simps)
  qed
qed

lemma utf8_run_concat:
  "\<forall>p\<in>set ps. is_scalar p \<Longrightarrow> utf8_run None (concat (map utf8_of ps)) = ps"
  by (induction ps) (simp_all add: utf8_run_encode)

text \<open>Decoding undoes encoding on a well-formed text without a leading byte-order mark.\<close>

lemma utf8_decode_encode:
  assumes "well_formed s" and "\<not> starts_with [0xFEFF] s"
  shows "utf8_decode (utf8_encode s) = s"
proof -
  have "utf8_run None (utf8_encode s) = code_points s"
    unfolding utf8_encode_def using code_points_scalar by (intro utf8_run_concat) blast
  moreover have "\<not> (\<exists>ps. code_points s = 0xFEFF # ps)"
  proof
    assume "\<exists>ps. code_points s = 0xFEFF # ps"
    then obtain ps where "code_points s = 0xFEFF # ps" by blast
    then have "s = utf16_of 0xFEFF @ concat (map utf16_of ps)"
      using utf16_code_points [OF assms(1)] by simp
    with assms(2) show False by (simp add: utf16_of_def starts_with_def)
  qed
  ultimately show ?thesis
    using utf16_code_points [OF assms(1)]
    by (auto simp: utf8_decode_def split: list.splits)
qed

lemma utf8_to_string_encode:
  assumes "well_formed s"
  shows "utf8_to_string (utf8_encode s) = s"
proof -
  have "utf8_run None (utf8_encode s) = code_points s"
    unfolding utf8_encode_def using code_points_scalar by (intro utf8_run_concat) blast
  then show ?thesis using utf16_code_points [OF assms] by (simp add: utf8_to_string_def)
qed

section \<open>ASCII\<close>

text \<open>On ASCII text the encoding is one byte per code unit, and it is injective.\<close>

definition is_ascii :: "js_string \<Rightarrow> bool" where
  "is_ascii s \<longleftrightarrow> list_all (\<lambda>c. c < 0x80) s"

lemma code_points_ascii: "is_ascii s \<Longrightarrow> code_points s = map unat s"
proof (induction s rule: code_points.induct)
  case (3 c d s)
  then have "unat c < 0x80" by (simp add: is_ascii_def word_less_nat_alt)
  with 3 show ?case by (simp add: is_ascii_def is_high_surrogate_def is_low_surrogate_def)
qed (auto simp: is_ascii_def is_high_surrogate_def is_low_surrogate_def word_less_nat_alt)

lemma utf8_encode_ascii:
  assumes "is_ascii s"
  shows "utf8_encode s = map (\<lambda>c. word_of_nat (unat c)) s"
proof -
  have "\<forall>c\<in>set s. utf8_of (unat c) = [word_of_nat (unat c)]"
    using assms by (auto simp: is_ascii_def list_all_iff utf8_of_def word_less_nat_alt)
  then have "concat (map utf8_of (map unat s)) = map (\<lambda>c. word_of_nat (unat c)) s"
    by (induction s) auto
  with assms show ?thesis by (simp add: utf8_encode_def code_points_ascii)
qed

lemma well_formed_ascii: "is_ascii s \<Longrightarrow> well_formed s"
proof (induction s rule: well_formed.induct)
  case (3 c d s)
  then have "unat c < 0x80" by (simp add: is_ascii_def word_less_nat_alt)
  with 3 show ?case by (simp add: is_ascii_def is_high_surrogate_def is_low_surrogate_def)
qed (auto simp: is_ascii_def is_high_surrogate_def is_low_surrogate_def word_less_nat_alt)

lemma utf8_decode_encode_ascii:
  assumes "is_ascii s"
  shows "utf8_decode (utf8_encode s) = s"
proof (rule utf8_decode_encode)
  show "well_formed s" using assms by (rule well_formed_ascii)
  show "\<not> starts_with [0xFEFF] s" using assms by (auto simp: is_ascii_def starts_with_iff)
qed

lemma utf8_encode_ascii_inj:
  assumes "is_ascii s" and "is_ascii t" and "utf8_encode s = utf8_encode t"
  shows "s = t"
  using assms utf8_decode_encode_ascii by metis

text \<open>Only ASCII text has an ASCII encoding.\<close>

lemma utf8_of_ascii:
  assumes "is_scalar p" and "list_all (\<lambda>b. b < 0x80) (utf8_of p)"
  shows "p < 0x80"
proof (rule ccontr)
  assume "\<not> p < 0x80"
  have "p < 0x110000" using assms(1) by (simp add: is_scalar_def)
  have "\<exists>n\<ge>0x80. n < 256 \<and> word_of_nat n \<in> set (utf8_of p)"
  proof -
    consider "p < 0x800" | "\<not> p < 0x800" "p < 0x10000" | "\<not> p < 0x10000" by linarith
    then show ?thesis
    proof cases
      case 1
      then show ?thesis using \<open>\<not> p < 0x80\<close>
        by (intro exI [of _ "0xC0 + p div 0x40"]) (auto simp: utf8_of_def)
    next
      case 2
      then show ?thesis by (intro exI [of _ "0xE0 + p div 0x1000"]) (auto simp: utf8_of_def)
    next
      case 3
      then show ?thesis using \<open>p < 0x110000\<close>
        by (intro exI [of _ "0xF0 + p div 0x40000"]) (auto simp: utf8_of_def)
    qed
  qed
  then obtain n where "0x80 \<le> n" "n < 256" "(word_of_nat n :: byte) < 0x80"
    using assms(2) by (auto simp: list_all_iff)
  then show False using unat_byte_of_nat [of n] by (simp add: word_less_nat_alt)
qed

lemma code_points_ascii_only: "\<forall>p\<in>set (code_points s). p < 0x80 \<Longrightarrow> is_ascii s"
  by (induction s rule: code_points.induct)
    (auto simp: is_ascii_def word_less_nat_alt split: if_splits)

lemma utf8_encode_ascii_only: "list_all (\<lambda>b. b < 0x80) (utf8_encode s) \<Longrightarrow> is_ascii s"
proof (rule code_points_ascii_only, rule ballI)
  fix p
  assume "list_all (\<lambda>b. b < 0x80) (utf8_encode s)" and p: "p \<in> set (code_points s)"
  then have "list_all (\<lambda>b. b < 0x80) (utf8_of p)" by (auto simp: utf8_encode_def list_all_iff)
  with p show "p < 0x80" by (intro utf8_of_ascii code_points_scalar)
qed

lemma utf8_encode_eq_ascii:
  assumes "is_ascii t"
  shows "utf8_encode s = utf8_encode t \<longleftrightarrow> s = t"
proof
  assume eq: "utf8_encode s = utf8_encode t"
  have "(word_of_nat (unat c) :: byte) < 0x80" if "c < 0x80" for c :: code_unit
    using that unat_byte_of_nat [of "unat c"] unfolding word_less_nat_alt by simp
  with assms have "list_all (\<lambda>b. b < 0x80) (utf8_encode t)"
    by (auto simp: utf8_encode_ascii is_ascii_def list_all_iff)
  with eq have "is_ascii s" by (simp add: utf8_encode_ascii_only)
  with assms eq show "s = t" by (simp add: utf8_encode_ascii_inj)
qed simp

section \<open>Text or bytes\<close>

text \<open>A \<open>string | Uint8Array\<close> argument, as bytes and as text.\<close>

datatype payload = Text js_string | Bytes "byte list"

fun payload_bytes :: "payload \<Rightarrow> byte list" where
  "payload_bytes (Text s) = utf8_encode s"
| "payload_bytes (Bytes bs) = bs"

fun payload_text :: "payload \<Rightarrow> js_string" where
  "payload_text (Text s) = s"
| "payload_text (Bytes bs) = utf8_decode bs"

text \<open>UTF-8 carries every well-formed string that does not begin with a byte-order mark.\<close>

interpretation utf8: codec utf8_encode "\<lambda>bs. Some (utf8_decode bs)"
    "\<lambda>s. well_formed s \<and> \<not> starts_with [0xFEFF] s"
  by unfold_locales (simp add: utf8_decode_encode)

end
