(* ===== verification/Js_Base64.thy ===== *)
theory Js_Base64
  imports Js_Text
begin

text \<open>
  Base64 as Node's \<open>Buffer\<close> has it: \<open>buf.toString("base64")\<close> and \<open>Buffer.from(s, "base64")\<close> on a
  string that passed the SDK's own pattern of whole, padded groups of the standard alphabet.
  The lemmas show that the pattern is exactly what the decoder needs and that decoding undoes
  encoding.
\<close>

section \<open>The alphabet\<close>

definition b64_char :: "nat \<Rightarrow> code_unit" where
  "b64_char i =
     (if i < 26 then word_of_nat (0x41 + i)
      else if i < 52 then word_of_nat (0x61 + (i - 26))
      else if i < 62 then word_of_nat (0x30 + (i - 52))
      else if i = 62 then 0x2B else 0x2F)"

definition b64_value :: "code_unit \<Rightarrow> nat option" where
  "b64_value c =
     (if is_upper c then Some (unat c - 0x41)
      else if is_lower c then Some (unat c - 0x61 + 26)
      else if is_digit c then Some (unat c - 0x30 + 52)
      else if c = 0x2B then Some 62 else if c = 0x2F then Some 63 else None)"

text \<open>\<open>[A-Za-z0-9+/]\<close>, and the padding character \<open>=\<close>.\<close>

definition is_b64 :: "code_unit \<Rightarrow> bool" where
  "is_b64 c \<longleftrightarrow> is_alnum c \<or> c = 0x2B \<or> c = 0x2F"

abbreviation b64_pad :: code_unit where
  "b64_pad \<equiv> 0x3D"

lemma is_b64_value: "is_b64 c \<longleftrightarrow> b64_value c \<noteq> None"
  by (simp add: is_b64_def b64_value_def is_alnum_def)

lemma b64_alphabet:
  "list_all (\<lambda>i. b64_value (b64_char i) = Some i \<and> b64_char i < 0x80) [0..<64]"
  by (simp add: b64_char_def b64_value_def unit_classes upt_rec)

lemma b64_value_char [simp]: "i < 64 \<Longrightarrow> b64_value (b64_char i) = Some i"
  using b64_alphabet by (simp add: list_all_iff)

lemma b64_char_ascii: "i < 64 \<Longrightarrow> b64_char i < 0x80"
  using b64_alphabet by (simp add: list_all_iff)

lemma is_b64_char [simp]: "i < 64 \<Longrightarrow> is_b64 (b64_char i)"
  by (simp add: is_b64_value)

lemma b64_no_space: "list_all (\<lambda>i. b64_char i \<noteq> 0x20) [0..<64]"
  by (simp add: b64_char_def upt_rec)

lemma b64_char_not_space: "i < 64 \<Longrightarrow> b64_char i \<noteq> 0x20"
  using b64_no_space by (simp add: list_all_iff)

lemma b64_value_bound:
  assumes "b64_value c = Some i"
  shows "i < 64"
proof -
  have "unat c \<le> 0x5A" if "is_upper c" using that by (simp add: is_upper_def word_le_nat_alt)
  moreover have "unat c \<le> 0x7A" if "is_lower c"
    using that by (simp add: is_lower_def word_le_nat_alt)
  moreover have "unat c \<le> 0x39" if "is_digit c"
    using that by (simp add: is_digit_def word_le_nat_alt)
  ultimately show ?thesis using assms by (auto simp: b64_value_def split: if_splits)
qed

lemma not_is_b64_pad [simp]: "\<not> is_b64 b64_pad"
  by (simp add: is_b64_def unit_classes)

section \<open>Encoding\<close>

fun base64_encode :: "byte list \<Rightarrow> js_string" where
  "base64_encode [] = []"
| "base64_encode [a] = [b64_char (unat a div 4), b64_char (unat a mod 4 * 16), b64_pad, b64_pad]"
| "base64_encode [a, b] =
     [b64_char (unat a div 4), b64_char (unat a mod 4 * 16 + unat b div 16),
      b64_char (unat b mod 16 * 4), b64_pad]"
| "base64_encode (a # b # c # bs) =
     b64_char (unat a div 4) # b64_char (unat a mod 4 * 16 + unat b div 16)
       # b64_char (unat b mod 16 * 4 + unat c div 64) # b64_char (unat c mod 64)
       # base64_encode bs"

section \<open>The pattern and the decoder\<close>

text \<open>\<open>/^(?:[A-Za-z0-9+/]{4})*(?:[A-Za-z0-9+/]{2}==|[A-Za-z0-9+/]{3}=)?$/\<close>\<close>

fun base64_pattern :: "js_string \<Rightarrow> bool" where
  "base64_pattern [] = True"
| "base64_pattern (w # x # y # z # s) =
     (is_b64 w \<and> is_b64 x \<and>
      (is_b64 y \<and> is_b64 z \<and> base64_pattern s
       \<or> is_b64 y \<and> z = b64_pad \<and> s = []
       \<or> y = b64_pad \<and> z = b64_pad \<and> s = []))"
| "base64_pattern _ = False"

text \<open>
  The three bytes of a group of four 6-bit values, and the bytes of the whole string; \<open>None\<close>
  outside the pattern.
\<close>

definition b64_byte1 :: "nat \<Rightarrow> nat \<Rightarrow> byte" where
  "b64_byte1 p q = word_of_nat (p * 4 + q div 16)"

definition b64_byte2 :: "nat \<Rightarrow> nat \<Rightarrow> byte" where
  "b64_byte2 q r = word_of_nat (q mod 16 * 16 + r div 4)"

definition b64_byte3 :: "nat \<Rightarrow> nat \<Rightarrow> byte" where
  "b64_byte3 r t = word_of_nat (r mod 4 * 64 + t)"

fun base64_decode :: "js_string \<Rightarrow> byte list option" where
  "base64_decode [] = Some []"
| "base64_decode (w # x # y # z # s) =
     (case (b64_value w, b64_value x) of
        (Some p, Some q) \<Rightarrow>
          (if y = b64_pad \<and> z = b64_pad \<and> s = [] then Some [b64_byte1 p q]
           else case b64_value y of
             None \<Rightarrow> None
           | Some r \<Rightarrow>
               (if z = b64_pad \<and> s = []
                then Some [b64_byte1 p q, b64_byte2 q r]
                else case (b64_value z, base64_decode s) of
                  (Some t, Some bs) \<Rightarrow>
                    Some (b64_byte1 p q # b64_byte2 q r # b64_byte3 r t # bs)
                | _ \<Rightarrow> None))
      | _ \<Rightarrow> None)"
| "base64_decode _ = None"

lemma b64_value_pad [simp]: "b64_value b64_pad = None"
  using not_is_b64_pad by (simp add: is_b64_value del: not_is_b64_pad)

lemma base64_decode_pattern: "base64_decode s \<noteq> None \<longleftrightarrow> base64_pattern s"
proof (induction s rule: base64_pattern.induct)
  case (2 w x y z s)
  then show ?case
    by (cases "b64_value w"; cases "b64_value x"; cases "b64_value y"; cases "b64_value z")
      (auto simp: is_b64_value split: option.splits)
qed auto

lemma word_of_nat_unat_byte: "word_of_nat (unat (a :: byte)) = a"
  by simp

lemma b64_index_bounds:
  fixes a b :: byte
  shows "unat a div 4 < 64" "unat a mod 4 * 16 + unat b div 16 < 64" "unat a mod 4 * 16 < 64"
    "unat a mod 16 * 4 + unat b div 64 < 64" "unat a mod 16 * 4 < 64" "unat a mod 64 < 64"
proof -
  have "unat a mod 4 \<le> 3" "unat a mod 16 \<le> 15" by (simp_all add: less_Suc_eq_le [symmetric])
  moreover have "unat b div 16 < 16" "unat b div 64 < 4" using unat_byte_bound [of b] by simp_all
  ultimately show "unat a mod 4 * 16 + unat b div 16 < 64" "unat a mod 4 * 16 < 64"
    "unat a mod 16 * 4 + unat b div 64 < 64" "unat a mod 16 * 4 < 64"
    by linarith+
  show "unat a div 4 < 64" using unat_byte_bound [of a] by simp
  show "unat a mod 64 < 64" by simp
qed

lemma b64_regroup:
  fixes a b c :: byte
  shows "b64_byte1 (unat a div 4) (unat a mod 4 * 16 + unat b div 16) = a"
    "b64_byte1 (unat a div 4) (unat a mod 4 * 16) = a"
    "b64_byte2 (unat a mod 4 * 16 + unat b div 16) (unat b mod 16 * 4 + unat c div 64) = b"
    "b64_byte2 (unat a mod 4 * 16 + unat b div 16) (unat b mod 16 * 4) = b"
    "b64_byte3 (unat b mod 16 * 4 + unat c div 64) (unat c mod 64) = c"
proof -
  have b: "unat b div 16 < 16" and c: "unat c div 64 < 4"
    using unat_byte_bound [of b] unat_byte_bound [of c] by simp_all
  have 1: "unat a div 4 * 4 + (unat a mod 4 * 16 + unat b div 16) div 16 = unat a"
    and 2: "unat a div 4 * 4 + unat a mod 4 * 16 div 16 = unat a"
    and 3: "(unat a mod 4 * 16 + unat b div 16) mod 16 * 16 + (unat b mod 16 * 4 + unat c div 64) div 4 = unat b"
    and 4: "(unat a mod 4 * 16 + unat b div 16) mod 16 * 16 + unat b mod 16 * 4 div 4 = unat b"
    and 5: "(unat b mod 16 * 4 + unat c div 64) mod 4 * 64 + unat c mod 64 = unat c"
    using b c by simp_all
  show "b64_byte1 (unat a div 4) (unat a mod 4 * 16 + unat b div 16) = a"
    "b64_byte1 (unat a div 4) (unat a mod 4 * 16) = a"
    "b64_byte2 (unat a mod 4 * 16 + unat b div 16) (unat b mod 16 * 4 + unat c div 64) = b"
    "b64_byte2 (unat a mod 4 * 16 + unat b div 16) (unat b mod 16 * 4) = b"
    "b64_byte3 (unat b mod 16 * 4 + unat c div 64) (unat c mod 64) = c"
    unfolding b64_byte1_def b64_byte2_def b64_byte3_def 1 2 3 4 5 by (rule word_of_nat_unat_byte)+
qed

lemma b64_char_not_pad [simp]: "i < 64 \<Longrightarrow> b64_char i \<noteq> b64_pad"
  using is_b64_char not_is_b64_pad by metis

lemma base64_decode_encode [simp]: "base64_decode (base64_encode bs) = Some bs"
  by (induction bs rule: base64_encode.induct) (simp_all add: b64_index_bounds b64_regroup)

lemma base64_pattern_encode [simp]: "base64_pattern (base64_encode bs)"
  by (simp flip: base64_decode_pattern)

lemma base64_encode_inj: "base64_encode as = base64_encode bs \<Longrightarrow> as = bs"
  by (metis base64_decode_encode option.inject)

lemma three_more: "(5 + n) div 3 = Suc (Suc (Suc n) div 3)"
  using div_add_self2 [of 3 "Suc (Suc n)"] by (simp add: add.commute)

lemma length_base64_encode: "length (base64_encode bs) = 4 * ((length bs + 2) div 3)"
  by (induction bs rule: base64_encode.induct) (auto simp: three_more)

lemma is_ascii_base64_encode: "is_ascii (base64_encode bs)"
  by (induction bs rule: base64_encode.induct)
    (simp_all add: is_ascii_def b64_char_ascii b64_index_bounds)

text \<open>The decoded length is fixed by the pattern: three bytes a group, less the padding.\<close>

lemma length_base64_decode:
  "base64_decode s = Some bs \<Longrightarrow> 4 * ((length bs + 2) div 3) = length s"
proof (induction s arbitrary: bs rule: base64_pattern.induct)
  case (2 w x y z s)
  then show ?case
    by (auto simp: three_more split: option.splits if_splits prod.splits)
qed auto

interpretation b64: codec base64_encode base64_decode "\<lambda>_. True"
  by unfold_locales simp

end
