(* ===== verification/Webhook_Signature.thy ===== *)
theory Webhook_Signature
  imports Webhook_Headers Js_Base64 Sha256
begin

text \<open>
  Verification of the Standard Webhooks signature of a delivery, \<open>webhook/signature.ts\<close>. The
  clock is an argument. The lemmas characterise acceptance exactly (a delivery is accepted if and
  only if some configured secret signs it and its timestamp is in the window), show that what the
  documented sender signs is accepted under any rotation of secrets, and fix which error a refused
  delivery is reported with.
\<close>

section \<open>Options and errors\<close>

datatype InvalidSignatureCode =
    invalid_secret
  | missing_header
  | invalid_timestamp
  | timestamp_out_of_tolerance
  | no_matching_signature

record InvalidSignatureError =
  sig_code :: InvalidSignatureCode
  sig_field :: "js_string option"

datatype secret_option = OneSecret js_string | SecretList "js_string list"

record VerifySignatureOptions =
  vs_headers :: HeaderSource
  vs_body :: payload
  vs_secrets :: secret_option
  vs_toleranceSeconds :: "js_number option"
  vs_now :: "js_number option"

record VerifiedSignature =
  sig_id :: js_string
  sig_timestamp :: js_number

section \<open>Secrets\<close>

definition secret_error :: InvalidSignatureError where
  "secret_error = \<lparr>sig_code = invalid_secret, sig_field = None\<rparr>"

definition decodeSecret :: "js_string \<Rightarrow> (InvalidSignatureError, byte list) result" where
  "decodeSecret secret =
     (if starts_with (js ''whsec_'') secret then
        (let encoded = drop (length ''whsec_'') secret
         in if encoded = [] \<or> \<not> base64_pattern encoded then Inl secret_error
            else Inr (the (base64_decode encoded)))
      else if secret = [] then Inl secret_error
      else Inr (utf8_encode secret))"

fun secret_list :: "secret_option \<Rightarrow> js_string list" where
  "secret_list (OneSecret s) = [s]"
| "secret_list (SecretList ss) = ss"

definition decodeSecrets :: "secret_option \<Rightarrow> (InvalidSignatureError, byte list list) result" where
  "decodeSecrets secrets =
     (if secret_list secrets = [] then Inl secret_error
      else result_map decodeSecret (secret_list secrets))"

section \<open>Verification\<close>

text \<open>\<open>required(name)\<close>\<close>

definition required :: "lowered \<Rightarrow> string \<Rightarrow> (InvalidSignatureError, js_string) result" where
  "required m name =
     (case or_null (m (js name)) of
        None \<Rightarrow> Inl \<lparr>sig_code = missing_header, sig_field = Some (js name)\<rparr>
      | Some s \<Rightarrow> Inr s)"

text \<open>The bytes under the signature: \<open><id>.<timestamp>.<body>\<close>.\<close>

definition signed_bytes :: "js_string \<Rightarrow> js_string \<Rightarrow> byte list \<Rightarrow> byte list" where
  "signed_bytes i ts body = utf8_encode (i @ js ''.'' @ ts @ js ''.'') @ body"

definition candidates :: "js_string \<Rightarrow> byte list list" where
  "candidates signature =
     map (\<lambda>entry. utf8_encode (drop 3 entry)) (filter (starts_with (js ''v1,'')) (split_on 0x20 signature))"

text \<open>The base64 HMAC a key produces, as the bytes the candidates are compared with.\<close>

definition expected_signature :: "byte list \<Rightarrow> byte list \<Rightarrow> byte list" where
  "expected_signature key msg = utf8_encode (base64_encode (hmac_sha256 key msg))"

definition default_tolerance :: js_number where
  "default_tolerance = Fin 300"

definition out_of_tolerance :: "js_number \<Rightarrow> js_number \<Rightarrow> js_number \<Rightarrow> bool" where
  "out_of_tolerance tol now ts \<longleftrightarrow> num_less tol (num_abs (num_sub now ts))"

definition verifySignature ::
  "js_number \<Rightarrow> VerifySignatureOptions \<Rightarrow> (InvalidSignatureError, VerifiedSignature) result" where
  "verifySignature clock opts =
     result_bind (decodeSecrets (vs_secrets opts)) (\<lambda>keys.
     let m = lowered_headers (vs_headers opts) in
     result_bind (required m ''webhook-id'') (\<lambda>i.
     result_bind (required m ''webhook-timestamp'') (\<lambda>rawTimestamp.
     result_bind (required m ''webhook-signature'') (\<lambda>signature.
     if \<not> (rawTimestamp \<noteq> [] \<and> list_all is_digit rawTimestamp) then
       Inl \<lparr>sig_code = invalid_timestamp, sig_field = Some (js ''webhook-timestamp'')\<rparr>
     else
       let timestamp = num_of_digits rawTimestamp;
           now = (case vs_now opts of None \<Rightarrow> clock | Some n \<Rightarrow> n);
           tolerance = (case vs_toleranceSeconds opts of None \<Rightarrow> default_tolerance | Some t \<Rightarrow> t)
       in if out_of_tolerance tolerance now timestamp then
            Inl \<lparr>sig_code = timestamp_out_of_tolerance, sig_field = Some (js ''webhook-timestamp'')\<rparr>
          else
            let msg = signed_bytes i rawTimestamp (payload_bytes (vs_body opts));
                cands = candidates signature
            in if \<not> list_ex (\<lambda>key. let expected = expected_signature key msg
                  in list_ex (\<lambda>c. length c = length expected \<and> c = expected) cands) keys
               then Inl \<lparr>sig_code = no_matching_signature, sig_field = Some (js ''webhook-signature'')\<rparr>
               else Inr \<lparr>sig_id = i, sig_timestamp = timestamp\<rparr>))))"

section \<open>Acceptance\<close>

text \<open>The entry of \<open>webhook-signature\<close> a sender with this key writes.\<close>

definition signature_entry :: "byte list \<Rightarrow> byte list \<Rightarrow> js_string" where
  "signature_entry key msg = js ''v1,'' @ base64_encode (hmac_sha256 key msg)"

lemma candidates_iff:
  "expected_signature key msg \<in> set (candidates sg) \<longleftrightarrow> signature_entry key msg \<in> set (split_on 0x20 sg)"
proof -
  let ?b = "base64_encode (hmac_sha256 key msg)"
  have utf8: "expected_signature key msg = utf8_encode s \<longleftrightarrow> s = ?b" for s
    using utf8_encode_eq_ascii [OF is_ascii_base64_encode, of s "hmac_sha256 key msg"]
    by (auto simp: expected_signature_def)
  have entry: "starts_with (js ''v1,'') e \<and> drop 3 e = ?b \<longleftrightarrow> e = signature_entry key msg" for e
    by (auto simp: starts_with_iff signature_entry_def)
  have "expected_signature key msg \<in> set (candidates sg)
    \<longleftrightarrow> (\<exists>e\<in>set (split_on 0x20 sg). starts_with (js ''v1,'') e \<and> drop 3 e = ?b)"
    by (auto simp: candidates_def utf8)
  then show ?thesis by (simp add: entry)
qed

lemma required_Inr_iff: "required m name = Inr s \<longleftrightarrow> m (js name) = Some s \<and> s \<noteq> []"
  by (cases "m (js name)") (auto simp: required_def)

lemma matching_key:
  "list_ex (\<lambda>key. let expected = expected_signature key msg
     in list_ex (\<lambda>c. length c = length expected \<and> c = expected) (candidates sg)) keys
   \<longleftrightarrow> (\<exists>key\<in>set keys. signature_entry key msg \<in> set (split_on 0x20 sg))"
  by (auto simp: list_ex_iff Let_def simp flip: candidates_iff)

text \<open>What the verifier needs of the secrets, the headers and the clock, over the decoded keys.\<close>

definition in_window :: "js_number \<Rightarrow> VerifySignatureOptions \<Rightarrow> js_string \<Rightarrow> bool" where
  "in_window clock opts ts \<longleftrightarrow>
     \<not> out_of_tolerance (case vs_toleranceSeconds opts of None \<Rightarrow> Fin 300 | Some t \<Rightarrow> t)
        (case vs_now opts of None \<Rightarrow> clock | Some n \<Rightarrow> n) (num_of_digits ts)"

lemma verifySignature_accepts:
  "verifySignature clock opts = Inr v \<longleftrightarrow>
     (\<exists>keys i ts sg.
        decodeSecrets (vs_secrets opts) = Inr keys \<and>
        lowered_headers (vs_headers opts) (js ''webhook-id'') = Some i \<and> i \<noteq> [] \<and>
        lowered_headers (vs_headers opts) (js ''webhook-timestamp'') = Some ts \<and> ts \<noteq> [] \<and>
        lowered_headers (vs_headers opts) (js ''webhook-signature'') = Some sg \<and> sg \<noteq> [] \<and>
        list_all is_digit ts \<and>
        in_window clock opts ts \<and>
        (\<exists>key\<in>set keys. signature_entry key (signed_bytes i ts (payload_bytes (vs_body opts)))
           \<in> set (split_on 0x20 sg)) \<and>
        v = \<lparr>sig_id = i, sig_timestamp = num_of_digits ts\<rparr>)"
  unfolding verifySignature_def default_tolerance_def in_window_def
  by (auto simp: result_bind_iff required_Inr_iff Let_def matching_key [unfolded Let_def]
      split: if_splits) blast

text \<open>
  C1. Exactly which deliveries are accepted: those whose secrets all decode, whose three headers
  are present and non-empty, whose timestamp is a decimal number inside the window, and one of
  whose space-separated entries is the \<open>v1\<close> signature of \<open><id>.<timestamp>.<body>\<close> under one of
  the configured keys. The id and the timestamp returned are the signed ones.
\<close>

theorem verifySignature_iff:
  "verifySignature clock opts = Inr v \<longleftrightarrow>
     (\<exists>keys i ts sg.
        decodeSecrets (vs_secrets opts) = Inr keys \<and>
        lowered_headers (vs_headers opts) (js ''webhook-id'') = Some i \<and> i \<noteq> [] \<and>
        lowered_headers (vs_headers opts) (js ''webhook-timestamp'') = Some ts \<and> ts \<noteq> [] \<and>
        lowered_headers (vs_headers opts) (js ''webhook-signature'') = Some sg \<and> sg \<noteq> [] \<and>
        list_all is_digit ts \<and>
        \<not> out_of_tolerance (case vs_toleranceSeconds opts of None \<Rightarrow> Fin 300 | Some t \<Rightarrow> t)
            (case vs_now opts of None \<Rightarrow> clock | Some n \<Rightarrow> n) (num_of_digits ts) \<and>
        (\<exists>key\<in>set keys. signature_entry key (signed_bytes i ts (payload_bytes (vs_body opts)))
           \<in> set (split_on 0x20 sg)) \<and>
        v = \<lparr>sig_id = i, sig_timestamp = num_of_digits ts\<rparr>)"
  unfolding verifySignature_accepts in_window_def ..

section \<open>Signing\<close>

text \<open>A sender of the Standard Webhooks specification: the three headers of a delivery.\<close>

definition sign_headers :: "js_string \<Rightarrow> nat \<Rightarrow> js_string list \<Rightarrow> HeaderSource" where
  "sign_headers i ts entries =
     Headers [(js ''webhook-id'', i), (js ''webhook-timestamp'', digit_chars ts),
              (js ''webhook-signature'', join_with 0x20 entries)]"

lemma lowered_sign_headers:
  "lowered_headers (sign_headers i ts entries) (js ''webhook-id'') = Some i"
  "lowered_headers (sign_headers i ts entries) (js ''webhook-timestamp'') = Some (digit_chars ts)"
  "lowered_headers (sign_headers i ts entries) (js ''webhook-signature'') = Some (join_with 0x20 entries)"
  by (simp_all add: lowered_headers_def sign_headers_def to_lower_js no_capital_def)

lemma decodeSecrets_Inr_iff:
  "decodeSecrets secrets = Inr keys \<longleftrightarrow>
     secret_list secrets \<noteq> [] \<and> list_all2 (\<lambda>s k. decodeSecret s = Inr k) (secret_list secrets) keys"
  by (simp add: decodeSecrets_def result_map_Inr_iff)

lemma decodeSecrets_member:
  assumes "decodeSecrets secrets = Inr keys" "s \<in> set (secret_list secrets)" "decodeSecret s = Inr k"
  shows "k \<in> set keys"
proof -
  have "list_all2 (\<lambda>s k. decodeSecret s = Inr k) (secret_list secrets) keys"
    using assms(1) by (simp add: decodeSecrets_Inr_iff)
  with assms(2,3) show ?thesis
    by (auto simp: list_all2_conv_all_nth in_set_conv_nth)
qed

lemma base64_no_space: "0x20 \<notin> set (base64_encode bs)"
  by (induction bs rule: base64_encode.induct) (auto dest: sym [of "0x20"] simp: b64_char_not_space b64_index_bounds)

lemma signature_entry_no_space: "0x20 \<notin> set (signature_entry key msg)"
  by (simp add: signature_entry_def base64_no_space) (simp add: js_eval)

lemma join_with_Nil_iff: "join_with c ps = [] \<longleftrightarrow> ps = [] \<or> ps = [[]]"
  by (induction c ps rule: join_with.induct) auto

text \<open>Integers below \<open>2^53\<close> are compared exactly.\<close>

lemma out_of_tolerance_exact:
  assumes "0 \<le> n" "n < 2 ^ 53" "digits_value ts < 2 ^ 53"
  shows "out_of_tolerance (Fin (of_int t)) (Fin (of_int n)) (num_of_digits ts)
    \<longleftrightarrow> t < \<bar>n - int (digits_value ts)\<bar>"
proof -
  have ts: "num_of_digits ts = Fin (of_int (int (digits_value ts)))"
    using assms(3) by (simp add: num_of_digits_safe)
  have "\<bar>n - int (digits_value ts)\<bar> < 2 ^ 53" using assms by auto
  from num_sub_safe [OF this] have "num_abs (num_sub (Fin (of_int n)) (num_of_digits ts))
      = Fin (of_int \<bar>n - int (digits_value ts)\<bar>)"
    by (simp add: ts del: num_sub.simps)
  then show ?thesis by (simp only: out_of_tolerance_def num_less.simps of_int_less_iff)
qed

text \<open>
  C24. What a sender signs is accepted: with whole-second times below \<open>2^53\<close>, a delivery that
  carries among its entries the signature made with one of the receiver's secrets is accepted
  exactly when the send time is within the tolerance, whatever other entries and secrets a
  rotation adds.
\<close>

theorem sign_verify:
  assumes "decodeSecrets secrets = Inr keys" "s \<in> set (secret_list secrets)" "decodeSecret s = Inr k"
    and "i \<noteq> []" "0 \<le> n" "n < 2 ^ 53" "ts < 2 ^ 53"
    and "signature_entry k (signed_bytes i (digit_chars ts) body) \<in> set entries"
    and "\<forall>e\<in>set entries. 0x20 \<notin> set e"
  shows "verifySignature clock \<lparr>vs_headers = sign_headers i ts entries, vs_body = Bytes body,
       vs_secrets = secrets, vs_toleranceSeconds = Some (Fin (of_int t)), vs_now = Some (Fin (of_int n))\<rparr>
     = Inr \<lparr>sig_id = i, sig_timestamp = Fin (of_nat ts)\<rparr> \<longleftrightarrow> \<bar>n - int ts\<bar> \<le> t"
proof -
  have entries: "entries \<noteq> []" "join_with 0x20 entries \<noteq> []"
    using assms(8) by (auto simp: join_with_Nil_iff signature_entry_def)
  have split: "split_on 0x20 (join_with 0x20 entries) = entries"
    using entries(1) assms(9) by (rule split_join_with)
  have key: "\<exists>key\<in>set keys. signature_entry key (signed_bytes i (digit_chars ts) body) \<in> set entries"
    using decodeSecrets_member [OF assms(1-3)] assms(8) by blast
  have num: "num_of_digits (digit_chars ts) = Fin (of_nat ts)"
    using num_of_digits_safe [of "digit_chars ts"] assms(7) by (simp add: digit_chars_value)
  have window: "out_of_tolerance (Fin (of_int t)) (Fin (of_int n)) (Fin (of_nat ts)) \<longleftrightarrow> t < \<bar>n - int ts\<bar>"
    using out_of_tolerance_exact [of n "digit_chars ts" t] assms(5-7) by (simp add: digit_chars_value num)
  show ?thesis
    using assms(1,4) entries key
    by (auto simp: verifySignature_accepts lowered_sign_headers in_window_def digit_chars_digits
        split num window)
qed

theorem sign_verify_witness:
  "verifySignature NaN
     \<lparr>vs_headers = sign_headers (js ''msg_1'') 1700000000
        [js ''v1,AAAA'', signature_entry (utf8_encode (js ''new''))
           (signed_bytes (js ''msg_1'') (digit_chars 1700000000) [1, 2, 3])],
      vs_body = Bytes [1, 2, 3], vs_secrets = SecretList [js ''old'', js ''new''],
      vs_toleranceSeconds = Some (Fin (of_int 300)), vs_now = Some (Fin (of_int 1700000200))\<rparr>
   = Inr \<lparr>sig_id = js ''msg_1'', sig_timestamp = Fin (of_nat 1700000000)\<rparr>"
proof -
  have keys: "decodeSecrets (SecretList [js ''old'', js ''new'']) =
      Inr [utf8_encode (js ''old''), utf8_encode (js ''new'')]"
    "decodeSecret (js ''new'') = Inr (utf8_encode (js ''new''))"
    by (simp_all add: decodeSecrets_def decodeSecret_def starts_with_def js_eval)
  have spaces: "0x20 \<notin> set (js ''v1,AAAA'')" by (simp add: js_eval)
  show ?thesis
    by (rule sign_verify [OF keys(1) _ keys(2), THEN iffD2])
      (simp_all add: signature_entry_no_space spaces)
qed

text \<open>
  Adding secrets for a rotation never refuses a delivery that was accepted: as long as every
  added secret decodes, the result is the same.
\<close>

lemma rotation_keeps_accepting:
  assumes "verifySignature clock opts = Inr v"
    and "result_map decodeSecret added = Inr ks"
  shows "verifySignature clock (opts\<lparr>vs_secrets := SecretList (secret_list (vs_secrets opts) @ added)\<rparr>) = Inr v"
proof -
  have "decodeSecrets (SecretList (secret_list (vs_secrets opts) @ added)) = Inr (keys @ ks)"
    if "decodeSecrets (vs_secrets opts) = Inr keys" for keys
    using that assms(2) by (simp add: decodeSecrets_Inr_iff result_map_Inr_iff list_all2_appendI)
  with assms(1) show ?thesis
    by (fastforce simp: verifySignature_accepts in_window_def)
qed

text \<open>An accepted delivery, for the examples.\<close>

definition example_delivery :: VerifySignatureOptions where
  "example_delivery =
     \<lparr>vs_headers = sign_headers (js ''msg_1'') 1700000000
        [signature_entry (utf8_encode (js ''old''))
           (signed_bytes (js ''msg_1'') (digit_chars 1700000000) [1, 2, 3])],
      vs_body = Bytes [1, 2, 3], vs_secrets = OneSecret (js ''old''),
      vs_toleranceSeconds = None, vs_now = Some (Fin (of_int 1700000200))\<rparr>"

lemma plain_secret: "decodeSecret (js ''old'') = Inr (utf8_encode (js ''old''))"
  "decodeSecret (js ''new'') = Inr (utf8_encode (js ''new''))"
  by (simp_all add: decodeSecret_def starts_with_def js_eval)

lemma example_accepted:
  "verifySignature NaN example_delivery = Inr \<lparr>sig_id = js ''msg_1'', sig_timestamp = Fin 1700000000\<rparr>"
proof -
  have "num_of_digits (digit_chars 1700000000) = Fin 1700000000"
    using num_of_digits_safe [of "digit_chars 1700000000"] by (simp add: digit_chars_value)
  moreover have "\<not> out_of_tolerance (Fin (of_int 300)) (Fin (of_int 1700000200)) (num_of_digits (digit_chars 1700000000))"
    by (subst out_of_tolerance_exact) (simp_all add: digit_chars_value)
  ultimately show ?thesis
    by (auto simp: verifySignature_accepts example_delivery_def lowered_sign_headers in_window_def
        digit_chars_digits decodeSecrets_def plain_secret split_on_free signature_entry_no_space)
      (simp add: signature_entry_def)
qed

section \<open>What the signature covers\<close>

lemma utf8_encode_ascii_snoc:
  "is_ascii s \<Longrightarrow> is_ascii t \<Longrightarrow> utf8_encode (s @ t) = utf8_encode s @ utf8_encode t"
  by (simp add: utf8_encode_ascii is_ascii_def)

lemma signed_bytes_ascii:
  assumes "is_ascii i" "is_ascii ts"
  shows "signed_bytes i ts body = utf8_encode i @ 0x2E # utf8_encode ts @ 0x2E # body"
proof -
  have dot: "is_ascii (js ''.'')" "utf8_encode (js ''.'') = [0x2E]"
    by (simp_all add: js_eval is_ascii_def utf8_encode_ascii)
  have "is_ascii (ts @ js ''.'')" "is_ascii (js ''.'' @ ts @ js ''.'')"
    using assms dot by (simp_all add: is_ascii_def)
  with assms dot show ?thesis by (simp add: signed_bytes_def utf8_encode_ascii_snoc)
qed

lemma ascii_dot_free:
  assumes "is_ascii s" "0x2E \<notin> set s"
  shows "0x2E \<notin> set (utf8_encode s)"
proof
  assume "0x2E \<in> set (utf8_encode s)"
  then obtain c where c: "c \<in> set s" "(word_of_nat (unat c) :: byte) = 0x2E"
    using assms(1) by (auto simp: utf8_encode_ascii)
  have "unat c < 0x80" using assms(1) c(1) by (auto simp: is_ascii_def list_all_iff word_less_nat_alt)
  then have "unat c = unat (0x2E :: byte)" using unat_byte_of_nat [of "unat c"] c(2) by simp
  then have "c = 0x2E" by (simp add: word_unat_eq_iff)
  with assms(2) c(1) show False by simp
qed

lemma digits_ascii: "list_all is_digit s \<Longrightarrow> is_ascii s \<and> 0x2E \<notin> set s"
  by (auto simp: is_ascii_def list_all_iff is_digit_def word_le_nat_alt word_less_nat_alt)

text \<open>
  C8. The signed text determines the delivery: for ASCII ids without a dot (as the server issues)
  and decimal timestamps, two deliveries with the same signed bytes have the same id, the same
  timestamp and the same body, so a signature cannot be moved to another body or another time.
\<close>

theorem signed_bytes_injective:
  assumes "is_ascii i" "0x2E \<notin> set i" "is_ascii i'" "0x2E \<notin> set i'"
    and "list_all is_digit ts" "list_all is_digit ts'"
    and "signed_bytes i ts body = signed_bytes i' ts' body'"
  shows "i = i' \<and> ts = ts' \<and> body = body'"
proof -
  have a: "is_ascii ts" "0x2E \<notin> set ts" "is_ascii ts'" "0x2E \<notin> set ts'"
    using assms(5,6) digits_ascii by blast+
  have "utf8_encode i @ 0x2E # utf8_encode ts @ 0x2E # body = utf8_encode i' @ 0x2E # utf8_encode ts' @ 0x2E # body'"
    using assms(7) by (simp add: signed_bytes_ascii assms(1,3) a(1,3))
  then have "utf8_encode i = utf8_encode i' \<and> utf8_encode ts @ 0x2E # body = utf8_encode ts' @ 0x2E # body'"
    by (rule first_sep_unique) (simp_all add: ascii_dot_free assms(1-4))
  moreover from this have "utf8_encode ts = utf8_encode ts' \<and> body = body'"
    by (intro first_sep_unique [where a = "0x2E"]) (simp_all add: ascii_dot_free a)
  ultimately show ?thesis using assms(1-4) a by (simp add: utf8_encode_eq_ascii)
qed

text \<open>The one delivery behind six signed bytes.\<close>

theorem signed_bytes_injective_witness:
  "{(i, ts, body). is_ascii i \<and> 0x2E \<notin> set i \<and> list_all is_digit ts \<and>
      signed_bytes i ts body = [0x61, 0x2E, 0x31, 0x32, 0x2E, 0x03]} = {(js ''a'', js ''12'', [0x03])}"
proof -
  have bytes: "signed_bytes (js ''a'') (js ''12'') [0x03] = [0x61, 0x2E, 0x31, 0x32, 0x2E, 0x03]"
    by (simp add: signed_bytes_def js_eval utf8_encode_ascii is_ascii_def)
  have ok: "is_ascii (js ''a'')" "0x2E \<notin> set (js ''a'')" "list_all is_digit (js ''12'')"
    by (simp_all add: js_eval is_ascii_def is_digit_def)
  have "i = js ''a'' \<and> ts = js ''12'' \<and> body = [0x03]"
    if "is_ascii i" "0x2E \<notin> set i" "list_all is_digit ts" "signed_bytes i ts body = [0x61, 0x2E, 0x31, 0x32, 0x2E, 0x03]"
    for i ts body
    using that bytes by (intro signed_bytes_injective ok) simp_all
  then have "(i, ts, body) \<in> {(i, ts, body). is_ascii i \<and> 0x2E \<notin> set i \<and> list_all is_digit ts \<and>
      signed_bytes i ts body = [0x61, 0x2E, 0x31, 0x32, 0x2E, 0x03]} \<longleftrightarrow> (i, ts, body) \<in> {(js ''a'', js ''12'', [0x03])}"
    for i ts body
    unfolding mem_Collect_eq prod.case singleton_iff prod.inject using bytes ok by blast
  then show ?thesis by (intro set_eqI) (simp only: split_paired_all)
qed

end
