(* ===== verification/Webhook_Receive.thy ===== *)
theory Webhook_Receive
  imports Webhook_Signature
begin

text \<open>
  The receiver's decision on one delivery, \<open>webhook/receive.ts\<close>: is it signed, and what is its
  identity. The lemmas show that a receiver is closed by default, that \<open>allowUnsigned\<close> never
  weakens a configured secret, that \<open>verified\<close> means verified, and that the signature is judged
  before the identity.
\<close>

record ReceiveDeliveryOptions =
  rd_headers :: HeaderSource
  rd_body :: payload
  rd_secrets :: "secret_option option"
  rd_allowUnsigned :: "bool option"
  rd_toleranceSeconds :: "js_number option"
  rd_now :: "js_number option"

record ReceivedDelivery = HookHeaders +
  verified :: bool

text \<open>The two errors of the function; the first is answered with 401, the second with 400.\<close>

datatype receive_error = InvalidSignature InvalidSignatureError | MissingHookId MissingHookIdError

definition receive_secrets :: "ReceiveDeliveryOptions \<Rightarrow> js_string list" where
  "receive_secrets opts = (case rd_secrets opts of None \<Rightarrow> [] | Some s \<Rightarrow> secret_list s)"

definition receive_verify_options :: "ReceiveDeliveryOptions \<Rightarrow> VerifySignatureOptions" where
  "receive_verify_options opts =
     \<lparr>vs_headers = rd_headers opts, vs_body = rd_body opts,
      vs_secrets = SecretList (receive_secrets opts),
      vs_toleranceSeconds = rd_toleranceSeconds opts, vs_now = rd_now opts\<rparr>"

definition receiveDelivery ::
  "js_number \<Rightarrow> ReceiveDeliveryOptions \<Rightarrow> (receive_error, ReceivedDelivery) result" where
  "receiveDelivery clock opts =
     result_bind
       (if receive_secrets opts \<noteq> [] then
          (case verifySignature clock (receive_verify_options opts) of
             Inl e \<Rightarrow> Inl (InvalidSignature e)
           | Inr _ \<Rightarrow> Inr True)
        else if rd_allowUnsigned opts = Some True then Inr False
        else Inl (InvalidSignature secret_error))
       (\<lambda>verified.
          case parseHeaders (rd_headers opts) of
            Inl e \<Rightarrow> Inl (MissingHookId e)
          | Inr h \<Rightarrow> Inr (HookHeaders.extend h (ReceivedDelivery.fields verified)))"

section \<open>Authenticity\<close>

text \<open>The first half of the decision: \<open>Some b\<close> when the delivery may proceed with \<open>verified = b\<close>.\<close>

definition judged :: "js_number \<Rightarrow> ReceiveDeliveryOptions \<Rightarrow> bool option" where
  "judged clock opts =
     (if receive_secrets opts \<noteq> [] then
        (case verifySignature clock (receive_verify_options opts) of Inl _ \<Rightarrow> None | Inr _ \<Rightarrow> Some True)
      else if rd_allowUnsigned opts = Some True then Some False else None)"

lemma receive_cases:
  "receiveDelivery clock opts =
     (case judged clock opts of
        None \<Rightarrow> Inl (InvalidSignature
          (case verifySignature clock (receive_verify_options opts) of Inl e \<Rightarrow> e | Inr _ \<Rightarrow> secret_error))
      | Some b \<Rightarrow>
          (case parseHeaders (rd_headers opts) of
             Inl e \<Rightarrow> Inl (MissingHookId e)
           | Inr h \<Rightarrow> Inr (HookHeaders.extend h (ReceivedDelivery.fields b))))"
proof (cases "receive_secrets opts = []")
  case True
  then have "verifySignature clock (receive_verify_options opts) = Inl secret_error"
    by (simp add: verifySignature_def receive_verify_options_def decodeSecrets_def)
  with True show ?thesis by (simp add: receiveDelivery_def judged_def)
next
  case False
  then show ?thesis by (simp add: receiveDelivery_def judged_def split: sum.split)
qed

lemma verified_extend [simp]:
  "verified (HookHeaders.extend h (ReceivedDelivery.fields b)) = b"
  "HookHeaders.truncate (HookHeaders.extend h (ReceivedDelivery.fields b)) = h"
  by (simp_all add: HookHeaders.defs ReceivedDelivery.defs)

text \<open>
  C6. What an accepted delivery guarantees: its identity is the parsed one with an id that is not
  empty, and either a secret is configured and the delivery is verified under it, or no secret is
  configured, \<open>allowUnsigned\<close> is set and the result says \<open>verified: false\<close>.
\<close>

theorem receive_accepts_iff:
  "receiveDelivery clock opts = Inr d \<longleftrightarrow>
     parseHeaders (rd_headers opts) = Inr (HookHeaders.truncate d) \<and>
     (if receive_secrets opts = [] then rd_allowUnsigned opts = Some True \<and> \<not> verified d
      else (\<exists>v. verifySignature clock (receive_verify_options opts) = Inr v) \<and> verified d)"
  by (cases d) (auto simp: receive_cases judged_def HookHeaders.defs ReceivedDelivery.defs
      split: sum.splits option.splits if_splits)

text \<open>
  Closed by default: with no secret and without \<open>allowUnsigned: true\<close> every delivery is
  refused with \<open>invalid_secret\<close>, whatever its headers, body and time.
\<close>

lemma receive_closed_by_default:
  assumes "receive_secrets opts = []" "rd_allowUnsigned opts \<noteq> Some True"
  shows "receiveDelivery clock opts = Inl (InvalidSignature \<lparr>sig_code = invalid_secret, sig_field = None\<rparr>)"
  using assms by (simp add: receiveDelivery_def secret_error_def)

text \<open>
  \<open>allowUnsigned\<close> does not weaken a configured secret: with any secret the decision does not
  depend on it.
\<close>

lemma allow_unsigned_never_weakens:
  assumes "receive_secrets opts \<noteq> []"
  shows "receiveDelivery clock (opts\<lparr>rd_allowUnsigned := a\<rparr>) = receiveDelivery clock opts"
  using assms by (simp add: receiveDelivery_def receive_secrets_def receive_verify_options_def)

text \<open>An unsigned delivery at a receiver that has a secret, for the examples.\<close>

definition example_unsigned :: ReceiveDeliveryOptions where
  "example_unsigned =
     \<lparr>rd_headers = Headers [], rd_body = Text (js ''{}''), rd_secrets = Some (OneSecret (js ''old'')),
      rd_allowUnsigned = None, rd_toleranceSeconds = None, rd_now = None\<rparr>"

text \<open>
  The signature is judged first: a delivery is refused for its missing id (400) only after it
  passed as authentic, and a delivery that fails the signature is refused for that (401) even when
  it also has no id.
\<close>

lemma signature_judged_first:
  "(receiveDelivery clock opts = Inl (MissingHookId e) \<longrightarrow>
      (if receive_secrets opts = [] then rd_allowUnsigned opts = Some True
       else \<exists>v. verifySignature clock (receive_verify_options opts) = Inr v)) \<and>
   (receive_secrets opts \<noteq> [] \<longrightarrow> verifySignature clock (receive_verify_options opts) = Inl s \<longrightarrow>
      receiveDelivery clock opts = Inl (InvalidSignature s))"
  by (auto simp: receive_cases judged_def split: sum.splits option.splits if_splits)

end
