(* ===== verification/Js_Regex.thy ===== *)
theory Js_Regex
  imports Js_Base
begin

text \<open>
  Anchored regular expressions with capture groups: literals and groups of bounded character
  classes (\<open>[a-z]{m,n}\<close>), matched greedily with backtracking like \<open>RegExp.prototype.exec\<close>. The
  lemmas relate a match to the text it was found in: the literals and the captures, concatenated,
  are the whole input, every capture is in the language of its group, and the search is complete.
\<close>

type_synonym char_class = "code_unit \<Rightarrow> bool"

text \<open>One class with its repetition bounds, and an item of a pattern.\<close>

type_synonym repeated = "char_class \<times> nat \<times> nat"

datatype rx_item = Lit js_string | Group "repeated list"

text \<open>Every way to match a group at the start of the text, in the order the matcher tries them.\<close>

fun group_splits :: "repeated list \<Rightarrow> js_string \<Rightarrow> (js_string \<times> js_string) list" where
  "group_splits [] s = [([], s)]"
| "group_splits ((P, m, n) # g) s =
     concat (map (\<lambda>k. map (\<lambda>(a, r). (take k s @ a, r)) (group_splits g (drop k s)))
       (rev [m..<Suc (min n (length (takeWhile P s)))]))"

fun first_some :: "('a \<Rightarrow> 'b option) \<Rightarrow> 'a list \<Rightarrow> 'b option" where
  "first_some f [] = None"
| "first_some f (x # xs) = (case f x of None \<Rightarrow> first_some f xs | Some y \<Rightarrow> Some y)"

text \<open>\<open>/^...$/.exec(s)\<close>: the captures, in order.\<close>

fun rx_exec :: "rx_item list \<Rightarrow> js_string \<Rightarrow> js_string list option" where
  "rx_exec [] s = (if s = [] then Some [] else None)"
| "rx_exec (Lit l # rs) s = (if starts_with l s then rx_exec rs (drop (length l) s) else None)"
| "rx_exec (Group g # rs) s =
     first_some (\<lambda>(a, r). map_option (Cons a) (rx_exec rs r)) (group_splits g s)"

section \<open>The language of a pattern\<close>

fun group_match :: "repeated list \<Rightarrow> js_string \<Rightarrow> bool" where
  "group_match [] a \<longleftrightarrow> a = []"
| "group_match ((P, m, n) # g) a \<longleftrightarrow>
     list_ex (\<lambda>k. list_all P (take k a) \<and> group_match g (drop k a)) [m..<Suc (min n (length a))]"

fun captures_ok :: "rx_item list \<Rightarrow> js_string list \<Rightarrow> bool" where
  "captures_ok [] cs \<longleftrightarrow> cs = []"
| "captures_ok (Lit l # rs) cs \<longleftrightarrow> captures_ok rs cs"
| "captures_ok (Group g # rs) (c # cs) \<longleftrightarrow> group_match g c \<and> captures_ok rs cs"
| "captures_ok (Group g # rs) [] \<longleftrightarrow> False"

fun render :: "rx_item list \<Rightarrow> js_string list \<Rightarrow> js_string" where
  "render [] cs = []"
| "render (Lit l # rs) cs = l @ render rs cs"
| "render (Group g # rs) cs = hd cs @ render rs (tl cs)"

lemma first_some_iff:
  "first_some f xs = Some y \<Longrightarrow> \<exists>x\<in>set xs. f x = Some y"
  by (induction xs) (auto split: option.splits)

lemma first_some_None_iff: "first_some f xs = None \<longleftrightarrow> (\<forall>x\<in>set xs. f x = None)"
  by (induction xs) (auto split: option.splits)

lemma takeWhile_prefix_length:
  "k \<le> length (takeWhile P s) \<longleftrightarrow> k \<le> length s \<and> list_all P (take k s)"
proof (induction s arbitrary: k)
  case (Cons x s)
  then show ?case by (cases k) auto
qed simp

lemma set_upt_min: "k \<in> set [m..<Suc (min n j)] \<longleftrightarrow> m \<le> k \<and> k \<le> n \<and> k \<le> j"
  by (auto simp: less_Suc_eq_le simp del: upt_Suc)

lemma group_match_Cons:
  "group_match ((P, m, n) # g) a \<longleftrightarrow>
     (\<exists>k. m \<le> k \<and> k \<le> n \<and> k \<le> length a \<and> list_all P (take k a) \<and> group_match g (drop k a))"
  unfolding group_match.simps list_ex_iff Bex_def set_upt_min by blast

lemma group_splits_Cons:
  "(a, r) \<in> set (group_splits ((P, m, n) # g) s) \<longleftrightarrow>
     (\<exists>k b. m \<le> k \<and> k \<le> n \<and> k \<le> length (takeWhile P s) \<and> a = take k s @ b \<and>
        (b, r) \<in> set (group_splits g (drop k s)))"
proof -
  let ?ks = "[m..<Suc (min n (length (takeWhile P s)))]"
  have "(a, r) \<in> set (group_splits ((P, m, n) # g) s) \<longleftrightarrow>
      (\<exists>k\<in>set ?ks. \<exists>b. (b, r) \<in> set (group_splits g (drop k s)) \<and> a = take k s @ b)"
    by (force simp del: upt_Suc set_upt)
  then show ?thesis by (simp only: Bex_def set_upt_min) blast
qed

declare group_match.simps(2) [simp del] group_splits.simps(2) [simp del]

lemma group_splits_iff:
  "(a, r) \<in> set (group_splits g s) \<longleftrightarrow> s = a @ r \<and> group_match g a"
proof (induction g arbitrary: a r s)
  case Nil
  then show ?case by auto
next
  case (Cons q g)
  obtain P m n where q: "q = (P, m, n)" by (cases q)
  have "(a, r) \<in> set (group_splits (q # g) s) \<longleftrightarrow>
      (\<exists>k b. m \<le> k \<and> k \<le> n \<and> k \<le> length s \<and> list_all P (take k s) \<and>
         a = take k s @ b \<and> drop k s = b @ r \<and> group_match g b)"
    by (simp add: q group_splits_Cons Cons.IH takeWhile_prefix_length)
  also have "\<dots> \<longleftrightarrow> s = a @ r \<and> (\<exists>k. m \<le> k \<and> k \<le> n \<and> k \<le> length a \<and>
      list_all P (take k a) \<and> group_match g (drop k a))"
  proof safe
    fix k b
    assume *: "m \<le> k" "k \<le> n" "k \<le> length s" "list_all P (take k s)"
      "drop k s = b @ r" "group_match g b" "a = take k s @ b"
    then show "s = (take k s @ b) @ r" by (metis append.assoc append_take_drop_id)
    from * show "\<exists>k'\<ge>m. k' \<le> n \<and> k' \<le> length (take k s @ b) \<and> list_all P (take k' (take k s @ b)) \<and>
      group_match g (drop k' (take k s @ b))"
      by (intro exI [of _ k]) simp
  next
    fix k
    assume "m \<le> k" "k \<le> n" "k \<le> length a" "list_all P (take k a)" "group_match g (drop k a)" "s = a @ r"
    then show "\<exists>k' b. m \<le> k' \<and> k' \<le> n \<and> k' \<le> length (a @ r) \<and> list_all P (take k' (a @ r)) \<and>
      a = take k' (a @ r) @ b \<and> drop k' (a @ r) = b @ r \<and> group_match g b"
      by (intro exI [of _ k] exI [of _ "drop k a"]) simp
  qed
  finally show ?case by (simp add: q group_match_Cons)
qed

lemma rx_exec_sound: "rx_exec rs s = Some cs \<Longrightarrow> s = render rs cs \<and> captures_ok rs cs"
proof (induction rs arbitrary: s cs)
  case Nil
  then show ?case by (auto split: if_splits)
next
  case (Cons it rs)
  show ?case
  proof (cases it)
    case (Lit l)
    with Cons show ?thesis by (fastforce simp: starts_with_iff split: if_splits)
  next
    case (Group g)
    with Cons.prems obtain a r cs' where
      "(a, r) \<in> set (group_splits g s)" "rx_exec rs r = Some cs'" "cs = a # cs'"
      by (auto dest!: first_some_iff)
    with Cons.IH Group show ?thesis by (auto simp: group_splits_iff)
  qed
qed

lemma rx_exec_complete: "captures_ok rs cs \<Longrightarrow> rx_exec rs (render rs cs) \<noteq> None"
proof (induction rs cs rule: captures_ok.induct)
  case (3 g rs c cs)
  then have "(c, render rs cs) \<in> set (group_splits g (c @ render rs cs))"
    by (simp add: group_splits_iff)
  with 3 show ?case
    by (auto simp: first_some_None_iff simp del: not_None_eq intro!: bexI [of _ "(c, render rs cs)"])
qed auto

text \<open>A class that excludes a character keeps it out of every capture.\<close>

lemma group_match_classes:
  "group_match g a \<Longrightarrow> list_all (\<lambda>(P, m, n). \<forall>c. P c \<longrightarrow> Q c) g \<Longrightarrow> list_all Q a"
proof (induction g a rule: group_match.induct)
  case (2 P m n g a)
  then obtain k where k: "k \<in> set [m..<Suc (min n (length a))]" "list_all P (take k a)" "group_match g (drop k a)"
    using 2(2) unfolding group_match_Cons set_upt_min by blast
  with 2 have "list_all Q (drop k a)" "list_all Q (take k a)" by (auto simp: list_all_iff simp del: upt_Suc)
  then have "list_all Q (take k a @ drop k a)" by (simp only: list_all_append)
  then show ?case by simp
qed simp

lemma group_match_single:
  "group_match [(P, m, n)] a \<longleftrightarrow> m \<le> length a \<and> length a \<le> n \<and> list_all P a"
  by (auto simp: group_match_Cons)

lemma group_match_one:
  "group_match ((P, 1, 1) # g) a \<longleftrightarrow> (\<exists>c b. a = c # b \<and> P c \<and> group_match g b)"
  by (cases a) (auto simp: group_match_Cons)

end
