(* ===== verification/Claim_Ref.thy ===== *)
theory Claim_Ref
  imports Js_Regex
begin

text \<open>
  Claim-check references, \<open>claim-check/ref.ts\<close>: the one-line text that stands for a body kept
  behind the claim-check gateway, in its plain (v1) and its signed (v2) form. The lemmas show that
  the parser accepts exactly the texts the two forms print, each with one reading, and that the
  parts it returns are safe to place in a URL path.
\<close>

section \<open>Patterns\<close>

text \<open>\<open>[A-Za-z0-9_-]\<close>\<close>

definition is_word_dash :: char_class where
  "is_word_dash c \<longleftrightarrow> is_alnum c \<or> c = 0x5F \<or> c = 0x2D"

text \<open>\<open>[0-7]\<close>, \<open>[0-9A-HJKMNP-TV-Z]\<close> (Crockford base32) and \<open>[1-9]\<close>\<close>

definition is_octal :: char_class where
  "is_octal c \<longleftrightarrow> 0x30 \<le> c \<and> c \<le> 0x37"

definition is_crockford :: char_class where
  "is_crockford c \<longleftrightarrow> is_digit c \<or> 0x41 \<le> c \<and> c \<le> 0x48 \<or> c = 0x4A \<or> c = 0x4B \<or> c = 0x4D \<or> c = 0x4E
     \<or> 0x50 \<le> c \<and> c \<le> 0x54 \<or> 0x56 \<le> c \<and> c \<le> 0x5A"

definition is_nonzero_digit :: char_class where
  "is_nonzero_digit c \<longleftrightarrow> 0x31 \<le> c \<and> c \<le> 0x39"

definition tenant_group :: "repeated list" where
  "tenant_group = [(is_word_dash, 1, 64)]"

definition claim_group :: "repeated list" where
  "claim_group = [(is_octal, 1, 1), (is_crockford, 25, 25)]"

definition exp_group :: "repeated list" where
  "exp_group = [(is_nonzero_digit, 1, 1), (is_digit, 0, 11)]"

definition sig_group :: "repeated list" where
  "sig_group = [(is_word_dash, 43, 43)]"

definition REF_PATTERN :: "rx_item list" where
  "REF_PATTERN =
     [Lit (js ''urn:ankusa:claim:v1:''), Group tenant_group, Lit (js '':''), Group claim_group]"

definition REF_V2_PATTERN :: "rx_item list" where
  "REF_V2_PATTERN =
     [Lit (js ''urn:ankusa:claim:v2:''), Group tenant_group, Lit (js '':''), Group claim_group,
      Lit (js '':''), Group exp_group, Lit (js '':''), Group sig_group]"

section \<open>Parsing\<close>

record claim_proof =
  proof_exp :: js_string
  proof_sig :: js_string

record ParsedClaimRef =
  tenantId :: js_string
  claimId :: js_string
  path :: js_string
  proof_of :: "claim_proof option"

text \<open>\<open>InvalidClaimRefError\<close>, with the text it was raised for.\<close>

datatype InvalidClaimRefError = InvalidClaimRefError js_string

definition claim_path :: "js_string \<Rightarrow> js_string \<Rightarrow> js_string" where
  "claim_path t c = js ''/v1/claims/'' @ t @ js ''/'' @ c"

definition parseClaimRef :: "js_string \<Rightarrow> (InvalidClaimRefError, ParsedClaimRef) result" where
  "parseClaimRef ref =
     (case rx_exec REF_V2_PATTERN ref of
        Some [t, c, e, s] \<Rightarrow>
          Inr \<lparr>tenantId = t, claimId = c,
               path = claim_path t c @ js ''?exp='' @ e @ js ''&sig='' @ s,
               proof_of = Some \<lparr>proof_exp = e, proof_sig = s\<rparr>\<rparr>
      | _ \<Rightarrow>
          (case rx_exec REF_PATTERN ref of
             Some [t, c] \<Rightarrow> Inr \<lparr>tenantId = t, claimId = c, path = claim_path t c, proof_of = None\<rparr>
           | _ \<Rightarrow> Inl (InvalidClaimRefError ref)))"

section \<open>The text of a reference\<close>

text \<open>What a reference's parts may be, and the text that carries them.\<close>

definition claim_ref_ok :: "ParsedClaimRef \<Rightarrow> bool" where
  "claim_ref_ok p \<longleftrightarrow>
     group_match tenant_group (tenantId p) \<and> group_match claim_group (claimId p) \<and>
     (case proof_of p of
        None \<Rightarrow> path p = claim_path (tenantId p) (claimId p)
      | Some pr \<Rightarrow> group_match exp_group (proof_exp pr) \<and> group_match sig_group (proof_sig pr) \<and>
          path p = claim_path (tenantId p) (claimId p) @ js ''?exp='' @ proof_exp pr @ js ''&sig='' @ proof_sig pr)"

definition claim_urn :: "ParsedClaimRef \<Rightarrow> js_string" where
  "claim_urn p =
     (case proof_of p of
        None \<Rightarrow> js ''urn:ankusa:claim:v1:'' @ tenantId p @ js '':'' @ claimId p
      | Some pr \<Rightarrow> js ''urn:ankusa:claim:v2:'' @ tenantId p @ js '':'' @ claimId p @ js '':'' @ proof_exp pr
          @ js '':'' @ proof_sig pr)"

text \<open>None of the groups matches a colon.\<close>

lemma no_colon:
  "group_match tenant_group t \<Longrightarrow> 0x3A \<notin> set t"
  "group_match claim_group t \<Longrightarrow> 0x3A \<notin> set t"
  "group_match exp_group t \<Longrightarrow> 0x3A \<notin> set t"
  "group_match sig_group t \<Longrightarrow> 0x3A \<notin> set t"
  by (auto dest!: group_match_classes [where Q = "\<lambda>c. c \<noteq> 0x3A"]
      simp: tenant_group_def claim_group_def exp_group_def sig_group_def list_all_iff
        is_word_dash_def is_octal_def is_crockford_def is_nonzero_digit_def unit_classes)

lemma colon [simp]: "js '':'' = [0x3A]"
  by (simp add: js_eval)

lemma captures_Group: "captures_ok (Group g # rs) cs \<longleftrightarrow> (\<exists>a cs'. cs = a # cs' \<and> group_match g a \<and> captures_ok rs cs')"
  by (cases cs) auto

lemma REF_PATTERN_exec:
  "rx_exec REF_PATTERN ref = Some cs \<longleftrightarrow>
     (\<exists>t c. cs = [t, c] \<and> ref = js ''urn:ankusa:claim:v1:'' @ t @ 0x3A # c \<and>
        group_match tenant_group t \<and> group_match claim_group c)"
proof
  assume "rx_exec REF_PATTERN ref = Some cs"
  from rx_exec_sound [OF this] show "\<exists>t c. cs = [t, c] \<and> ref = js ''urn:ankusa:claim:v1:'' @ t @ 0x3A # c \<and>
      group_match tenant_group t \<and> group_match claim_group c"
    by (auto simp: REF_PATTERN_def captures_Group)
next
  assume "\<exists>t c. cs = [t, c] \<and> ref = js ''urn:ankusa:claim:v1:'' @ t @ 0x3A # c \<and>
    group_match tenant_group t \<and> group_match claim_group c"
  then obtain t c where *: "cs = [t, c]" "ref = js ''urn:ankusa:claim:v1:'' @ t @ 0x3A # c"
    "group_match tenant_group t" "group_match claim_group c" by blast
  then have "rx_exec REF_PATTERN ref \<noteq> None"
    using rx_exec_complete [of REF_PATTERN "[t, c]"] by (simp add: REF_PATTERN_def)
  then obtain cs' where cs': "rx_exec REF_PATTERN ref = Some cs'" by blast
  from rx_exec_sound [OF this] obtain t' c' where t': "cs' = [t', c']" "group_match tenant_group t'"
    "ref = js ''urn:ankusa:claim:v1:'' @ t' @ 0x3A # c'"
    by (auto simp: REF_PATTERN_def captures_Group)
  with * have "t @ 0x3A # c = t' @ 0x3A # c'" by simp
  then have "t = t' \<and> c = c'" using * t' no_colon by (intro first_sep_unique) auto
  with cs' t' * show "rx_exec REF_PATTERN ref = Some cs" by simp
qed

lemma REF_V2_PATTERN_exec:
  "rx_exec REF_V2_PATTERN ref = Some cs \<longleftrightarrow>
     (\<exists>t c e s. cs = [t, c, e, s] \<and> ref = js ''urn:ankusa:claim:v2:'' @ t @ 0x3A # c @ 0x3A # e @ 0x3A # s \<and>
        group_match tenant_group t \<and> group_match claim_group c \<and>
        group_match exp_group e \<and> group_match sig_group s)" (is "_ \<longleftrightarrow> ?R")
proof
  assume "rx_exec REF_V2_PATTERN ref = Some cs"
  from rx_exec_sound [OF this] show ?R by (auto simp: REF_V2_PATTERN_def captures_Group)
next
  assume ?R
  then obtain t c e s where *: "cs = [t, c, e, s]"
    "ref = js ''urn:ankusa:claim:v2:'' @ t @ 0x3A # c @ 0x3A # e @ 0x3A # s"
    "group_match tenant_group t" "group_match claim_group c" "group_match exp_group e" "group_match sig_group s"
    by blast
  then have "rx_exec REF_V2_PATTERN ref \<noteq> None"
    using rx_exec_complete [of REF_V2_PATTERN "[t, c, e, s]"] by (simp add: REF_V2_PATTERN_def)
  then obtain cs' where cs': "rx_exec REF_V2_PATTERN ref = Some cs'" by blast
  from rx_exec_sound [OF this] obtain t' c' e' s' where t': "cs' = [t', c', e', s']"
    "group_match tenant_group t'" "group_match claim_group c'" "group_match exp_group e'"
    "ref = js ''urn:ankusa:claim:v2:'' @ t' @ 0x3A # c' @ 0x3A # e' @ 0x3A # s'"
    by (auto simp: REF_V2_PATTERN_def captures_Group)
  have "t = t' \<and> c @ 0x3A # e @ 0x3A # s = c' @ 0x3A # e' @ 0x3A # s'"
    using * t' no_colon by (intro first_sep_unique) auto
  moreover from this have "c = c' \<and> e @ 0x3A # s = e' @ 0x3A # s'"
    using * t' no_colon by (intro first_sep_unique [where a = "0x3A"]) auto
  moreover from this have "e = e' \<and> s = s'"
    using * t' no_colon by (intro first_sep_unique [where a = "0x3A"]) auto
  ultimately show "rx_exec REF_V2_PATTERN ref = Some cs" using cs' t' * by simp
qed

lemma v2_not_v1: "rx_exec REF_V2_PATTERN (js ''urn:ankusa:claim:v1:'' @ s) = None"
  by (auto simp: js_eval simp flip: not_Some_eq simp: REF_V2_PATTERN_exec)

text \<open>The parser is the inverse of the printer, on exactly the well-formed references.\<close>

lemma parseClaimRef_iff: "parseClaimRef ref = Inr p \<longleftrightarrow> claim_ref_ok p \<and> claim_urn p = ref"
proof
  assume "parseClaimRef ref = Inr p"
  then show "claim_ref_ok p \<and> claim_urn p = ref"
    by (auto simp: parseClaimRef_def claim_ref_ok_def claim_urn_def REF_PATTERN_exec REF_V2_PATTERN_exec
        split: option.splits list.splits)
next
  assume *: "claim_ref_ok p \<and> claim_urn p = ref"
  show "parseClaimRef ref = Inr p"
  proof (cases "proof_of p")
    case None
    with * have "rx_exec REF_PATTERN ref = Some [tenantId p, claimId p]" "rx_exec REF_V2_PATTERN ref = None"
      by (auto simp: REF_PATTERN_exec claim_ref_ok_def claim_urn_def v2_not_v1)
    with * None show ?thesis by (cases p) (simp add: parseClaimRef_def claim_ref_ok_def)
  next
    case (Some pr)
    with * have "rx_exec REF_V2_PATTERN ref = Some [tenantId p, claimId p, proof_exp pr, proof_sig pr]"
      by (auto simp: REF_V2_PATTERN_exec claim_ref_ok_def claim_urn_def)
    with * Some show ?thesis by (cases p; cases pr) (simp add: parseClaimRef_def claim_ref_ok_def)
  qed
qed

interpretation claim: canonical_codec claim_urn "\<lambda>s. result_value (parseClaimRef s)" claim_ref_ok
  by unfold_locales (simp_all add: parseClaimRef_iff)

section \<open>Properties\<close>

text \<open>
  C26. Parsing and printing of references are inverse: the parser returns \<open>p\<close> for a text if and
  only if \<open>p\<close> is well-formed and the text is the v1 or v2 reference printed from it. So no text
  has two readings, no two texts have the same parts, and every other text is refused.
\<close>

theorem parseClaimRef_roundtrip:
  "parseClaimRef ref = Inr p \<longleftrightarrow> claim_ref_ok p \<and> claim_urn p = ref"
  using claim.decode_iff [of ref p] by simp

lemma crockford_word: "is_crockford c \<Longrightarrow> is_word_dash c" "is_octal c \<Longrightarrow> is_word_dash c"
  "is_nonzero_digit c \<Longrightarrow> is_digit c"
  by (auto simp: is_crockford_def is_word_dash_def is_octal_def is_nonzero_digit_def unit_classes)
    (unat_arith+)?

lemma tenant_group_iff: "group_match tenant_group t \<longleftrightarrow> 1 \<le> length t \<and> length t \<le> 64 \<and> list_all is_word_dash t"
  by (simp add: tenant_group_def group_match_single)

lemma claim_group_iff:
  "group_match claim_group c \<longleftrightarrow> (\<exists>d r. c = d # r \<and> is_octal d \<and> length r = 25 \<and> list_all is_crockford r)"
  unfolding claim_group_def group_match_one group_match_single by auto

lemma exp_group_iff:
  "group_match exp_group e \<longleftrightarrow> (\<exists>d r. e = d # r \<and> is_nonzero_digit d \<and> length r \<le> 11 \<and> list_all is_digit r)"
  unfolding exp_group_def group_match_one group_match_single by auto

lemma sig_group_iff: "group_match sig_group s \<longleftrightarrow> length s = 43 \<and> list_all is_word_dash s"
  by (auto simp: sig_group_def group_match_single)

lemma word_dash_no_slash: "list_all is_word_dash s \<Longrightarrow> 0x2F \<notin> set s"
  by (auto simp: list_all_iff is_word_dash_def unit_classes)

lemma claim_path_segments:
  assumes "list_all is_word_dash t" "list_all is_word_dash c"
  shows "split_on 0x2F (claim_path t c) = [[], js ''v1'', js ''claims'', t, c]"
proof -
  have "claim_path t c = [] @ 0x2F # js ''v1'' @ 0x2F # js ''claims'' @ 0x2F # t @ 0x2F # c"
    by (simp add: claim_path_def js_eval)
  moreover have "0x2F \<notin> set (js ''v1'')" "0x2F \<notin> set (js ''claims'')" "(0x2F :: code_unit) \<notin> set []"
    by (simp_all add: js_eval)
  ultimately show ?thesis
    using word_dash_no_slash [OF assms(1)] word_dash_no_slash [OF assms(2)]
    by (simp add: split_on_append_sep split_on_free)
qed

text \<open>
  C39. The gateway path of a parsed reference is \<open>/v1/claims/{tenant}/{claim}\<close>, exactly five
  segments, with a tenant of 1 to 64 and a claim id of 26 characters, all letters, digits,
  underscores or dashes: nothing in a reference can climb to another path or smuggle a query. A
  v2 reference adds only the two query values, an expiry below \<open>10^12\<close> and 43 base64url
  characters.
\<close>

theorem claim_path_safe:
  assumes "parseClaimRef ref = Inr p"
  shows "\<exists>q. path p = claim_path (tenantId p) (claimId p) @ q \<and>
     split_on 0x2F (claim_path (tenantId p) (claimId p)) = [[], js ''v1'', js ''claims'', tenantId p, claimId p] \<and>
     list_all is_word_dash (tenantId p) \<and> 1 \<le> length (tenantId p) \<and> length (tenantId p) \<le> 64 \<and>
     list_all is_word_dash (claimId p) \<and> length (claimId p) = 26 \<and>
     (case proof_of p of None \<Rightarrow> q = []
      | Some pr \<Rightarrow> q = js ''?exp='' @ proof_exp pr @ js ''&sig='' @ proof_sig pr \<and>
          list_all is_digit (proof_exp pr) \<and> digits_value (proof_exp pr) < 10 ^ 12 \<and>
          list_all is_word_dash (proof_sig pr) \<and> length (proof_sig pr) = 43)"
proof -
  have ok: "claim_ref_ok p" using assms by (simp add: parseClaimRef_iff)
  then have t: "list_all is_word_dash (tenantId p)" "1 \<le> length (tenantId p)" "length (tenantId p) \<le> 64"
    by (simp_all add: claim_ref_ok_def tenant_group_iff)
  have c: "list_all is_word_dash (claimId p)" "length (claimId p) = 26"
    using ok by (auto simp: claim_ref_ok_def claim_group_iff list_all_iff crockford_word)
  have e: "list_all is_digit x \<and> digits_value x < 10 ^ 12" if x: "group_match exp_group x" for x
  proof -
    have d: "list_all is_digit x" "length x \<le> 12" using x by (auto simp: exp_group_iff crockford_word)
    have "(10 :: nat) ^ length x \<le> 10 ^ 12" using d(2) by (intro power_increasing) simp_all
    with digits_value_bound [OF d(1)] d show ?thesis by simp
  qed
  show ?thesis
    using t c e ok claim_path_segments [OF t(1) c(1)]
    by (auto simp: claim_ref_ok_def sig_group_iff split: option.splits)
qed

theorem claim_path_safe_witness:
  "length (js ''acme'') \<le> 64 \<and> split_on 0x2F (claim_path (js ''acme'') (js ''01ARZ3NDEKTSV4RRFFQ69G5FAV'')) =
     [[], js ''v1'', js ''claims'', js ''acme'', js ''01ARZ3NDEKTSV4RRFFQ69G5FAV'']"
proof -
  let ?p = "\<lparr>tenantId = js ''acme'', claimId = js ''01ARZ3NDEKTSV4RRFFQ69G5FAV'',
    path = claim_path (js ''acme'') (js ''01ARZ3NDEKTSV4RRFFQ69G5FAV''), proof_of = None\<rparr>"
  have "claim_ref_ok ?p"
    by (simp add: claim_ref_ok_def tenant_group_iff claim_group_iff js_eval is_word_dash_def
        is_octal_def is_crockford_def)
  then have "parseClaimRef (claim_urn ?p) = Inr ?p" by (simp add: parseClaimRef_iff)
  from claim_path_safe [OF this] show ?thesis by simp
qed

end
