(* ===== verification/Js_Json.thy ===== *)
theory Js_Json
  imports Js_Number
begin

text \<open>
  JSON values and \<open>JSON.parse\<close> (the ECMA-404 grammar on code units, numbers rounded to binary64,
  the last of two equal keys wins). An object is the list of its own properties, in insertion
  order and with distinct keys; \<open>raw[key]\<close> is \<open>map_of raw key\<close>, with \<open>None\<close> for \<open>undefined\<close>.
  The lemmas show that the parser always consumes input (so its length guards never cut a parse
  short) and that a parsed object never has two properties of the same name.
\<close>

datatype json =
    JNull
  | JBool bool
  | JNum js_number
  | JStr js_string
  | JArr "json list"
  | JObj "(js_string \<times> json) list"

type_synonym json_object = "(js_string \<times> json) list"

section \<open>Tokens\<close>

definition is_ws :: "code_unit \<Rightarrow> bool" where
  "is_ws c \<longleftrightarrow> c = 0x20 \<or> c = 0x0A \<or> c = 0x0D \<or> c = 0x09"

definition skip_ws :: "js_string \<Rightarrow> js_string" where
  "skip_ws s = dropWhile is_ws s"

definition span_digits :: "js_string \<Rightarrow> js_string \<times> js_string" where
  "span_digits s = (takeWhile is_digit s, dropWhile is_digit s)"

fun hex_value :: "code_unit \<Rightarrow> nat option" where
  "hex_value c =
     (if is_digit c then Some (unat c - 0x30)
      else if 0x61 \<le> c \<and> c \<le> 0x66 then Some (unat c - 0x57)
      else if 0x41 \<le> c \<and> c \<le> 0x46 then Some (unat c - 0x37) else None)"

text \<open>The character a one-letter escape stands for.\<close>

definition escape_unit :: "code_unit \<Rightarrow> code_unit option" where
  "escape_unit c =
     (if c = 0x22 \<or> c = 0x5C \<or> c = 0x2F then Some c
      else if c = 0x62 then Some 0x08 else if c = 0x66 then Some 0x0C
      else if c = 0x6E then Some 0x0A else if c = 0x72 then Some 0x0D
      else if c = 0x74 then Some 0x09 else None)"

definition hex4 :: "code_unit \<Rightarrow> code_unit \<Rightarrow> code_unit \<Rightarrow> code_unit \<Rightarrow> code_unit option" where
  "hex4 a b c d =
     (case (hex_value a, hex_value b, hex_value c, hex_value d) of
        (Some w, Some x, Some y, Some z) \<Rightarrow> Some (word_of_nat (((w * 16 + x) * 16 + y) * 16 + z))
      | _ \<Rightarrow> None)"

text \<open>The characters of a string after its opening quote, and the text after its closing quote.\<close>

fun parse_chars :: "js_string \<Rightarrow> (js_string \<times> js_string) option" where
  "parse_chars [] = None"
| "parse_chars (c # s) =
     (if c = 0x22 then Some ([], s)
      else if c = 0x5C then
        (case s of
           [] \<Rightarrow> None
         | e # s1 \<Rightarrow>
             (case escape_unit e of
                Some u \<Rightarrow> map_option (apfst (Cons u)) (parse_chars s1)
              | None \<Rightarrow>
                  (if e = 0x75 then
                     (case s1 of
                        w # x # y # z # s2 \<Rightarrow>
                          (case hex4 w x y z of
                             Some u \<Rightarrow> map_option (apfst (Cons u)) (parse_chars s2)
                           | None \<Rightarrow> None)
                      | _ \<Rightarrow> None)
                   else None)))
      else if c < 0x20 then None
      else map_option (apfst (Cons c)) (parse_chars s))"

section \<open>Numbers\<close>

text \<open>\<open>0 | [1-9][0-9]*\<close>\<close>

definition parse_int_part :: "js_string \<Rightarrow> (js_string \<times> js_string) option" where
  "parse_int_part s =
     (case s of
        [] \<Rightarrow> None
      | c # r \<Rightarrow>
          (if c = 0x30 then Some ([c], r)
           else if is_digit c then Some (span_digits s) else None))"

text \<open>\<open>(\.[0-9]+)?\<close>\<close>

definition parse_frac :: "js_string \<Rightarrow> (js_string \<times> js_string) option" where
  "parse_frac s =
     (if starts_with [0x2E] s then
        (case span_digits (tl s) of (ds, r) \<Rightarrow> if ds = [] then None else Some (ds, r))
      else Some ([], s))"

text \<open>\<open>([eE][+-]?[0-9]+)?\<close>, as the exponent's value.\<close>

definition parse_exp :: "js_string \<Rightarrow> (int \<times> js_string) option" where
  "parse_exp s =
     (if starts_with [0x65] s \<or> starts_with [0x45] s then
        (let t = tl s;
             neg = starts_with [0x2D] t;
             u = (if neg \<or> starts_with [0x2B] t then tl t else t)
         in case span_digits u of (ds, r) \<Rightarrow>
              if ds = [] then None
              else Some ((if neg then - int (digits_value ds) else int (digits_value ds)), r))
      else Some (0, s))"

text \<open>The mathematical value of a literal: sign, digits, fraction digits, exponent.\<close>

definition literal_value :: "bool \<Rightarrow> js_string \<Rightarrow> js_string \<Rightarrow> int \<Rightarrow> rat" where
  "literal_value neg ds fs e =
     (if neg then -1 else 1) * of_nat (digits_value (ds @ fs)) * power_int 10 (e - int (length fs))"

definition parse_number :: "js_string \<Rightarrow> (js_number \<times> js_string) option" where
  "parse_number s =
     (let neg = starts_with [0x2D] s
      in case parse_int_part (if neg then tl s else s) of
           None \<Rightarrow> None
         | Some (ds, r1) \<Rightarrow>
             (case parse_frac r1 of
                None \<Rightarrow> None
              | Some (fs, r2) \<Rightarrow>
                  (case parse_exp r2 of
                     None \<Rightarrow> None
                   | Some (e, r3) \<Rightarrow> Some (round64 (literal_value neg ds fs e), r3))))"

lemma length_skip_ws: "length (skip_ws s) \<le> length s"
  by (simp add: skip_ws_def length_dropWhile_le)

lemma skip_ws_shorter: "skip_ws s = c # r \<Longrightarrow> Suc (length r) \<le> length s"
  using length_skip_ws [of s] by simp

lemma parse_chars_shorter: "parse_chars s = Some (u, r) \<Longrightarrow> length r < length s"
  by (induction s arbitrary: u r rule: parse_chars.induct)
    (fastforce split: if_splits option.splits list.splits)+

lemma parse_int_part_shorter: "parse_int_part s = Some (ds, r) \<Longrightarrow> length r < length s"
  by (auto simp: parse_int_part_def span_digits_def less_Suc_eq_le length_dropWhile_le
      split: list.splits if_splits)

lemma parse_frac_le: "parse_frac s = Some (fs, r) \<Longrightarrow> length r \<le> length s"
proof -
  assume *: "parse_frac s = Some (fs, r)"
  have "length (dropWhile is_digit (tl s)) \<le> length s"
    using length_dropWhile_le [of is_digit "tl s"] by simp
  with * show ?thesis by (auto simp: parse_frac_def span_digits_def split: if_splits)
qed

lemma parse_exp_le: "parse_exp s = Some (e, r) \<Longrightarrow> length r \<le> length s"
proof -
  assume *: "parse_exp s = Some (e, r)"
  have "length (dropWhile is_digit (tl s)) \<le> length s" "length (dropWhile is_digit (tl (tl s))) \<le> length s"
    using length_dropWhile_le [of is_digit "tl s"] length_dropWhile_le [of is_digit "tl (tl s)"]
    by simp_all
  with * show ?thesis by (auto simp: parse_exp_def span_digits_def Let_def split: if_splits)
qed

lemma parse_number_shorter:
  assumes "parse_number s = Some (x, r)"
  shows "length r < length s"
proof -
  obtain ds r1 fs r2 e where
    "parse_int_part (if starts_with [0x2D] s then tl s else s) = Some (ds, r1)"
    "parse_frac r1 = Some (fs, r2)" "parse_exp r2 = Some (e, r)"
    using assms by (auto simp: parse_number_def Let_def split: option.splits)
  then have "length r1 < length (if starts_with [0x2D] s then tl s else s)"
    "length r2 \<le> length r1" "length r \<le> length r2"
    by (auto dest: parse_int_part_shorter parse_frac_le parse_exp_le)
  then show ?thesis by (auto split: if_splits)
qed

section \<open>Values\<close>

text \<open>Assigning a property: an existing one keeps its place.\<close>

fun put :: "js_string \<Rightarrow> json \<Rightarrow> json_object \<Rightarrow> json_object" where
  "put k v [] = [(k, v)]"
| "put k v ((k', v') # o1) = (if k = k' then (k, v) # o1 else (k', v') # put k v o1)"

lemma map_of_put: "map_of (put k v ob) = (map_of ob)(k \<mapsto> v)"
  by (induction ob) auto

lemma keys_put: "fst ` set (put k v ob) = insert k (fst ` set ob)"
  by (induction k v ob rule: put.induct) (simp_all add: insert_commute)

lemma distinct_put: "distinct (map fst ob) \<Longrightarrow> distinct (map fst (put k v ob))"
proof (induction ob)
  case (Cons p ob)
  then show ?case
    by (cases p) (auto simp: keys_put)
qed simp

function parse_value :: "js_string \<Rightarrow> (json \<times> js_string) option"
  and parse_elems :: "json list \<Rightarrow> js_string \<Rightarrow> (json list \<times> js_string) option"
  and parse_members :: "json_object \<Rightarrow> js_string \<Rightarrow> (json_object \<times> js_string) option" where
  "parse_value s =
     (case skip_ws s of
        [] \<Rightarrow> None
      | c # r \<Rightarrow>
          (if c = 0x7B then
             (case skip_ws r of
                [] \<Rightarrow> None
              | d # r1 \<Rightarrow>
                  (if d = 0x7D then Some (JObj [], r1)
                   else map_option (apfst JObj) (parse_members [] (d # r1))))
           else if c = 0x5B then
             (case skip_ws r of
                [] \<Rightarrow> None
              | d # r1 \<Rightarrow>
                  (if d = 0x5D then Some (JArr [], r1)
                   else map_option (apfst JArr) (parse_elems [] (d # r1))))
           else if c = 0x22 then map_option (apfst JStr) (parse_chars r)
           else if starts_with (js ''true'') (c # r) then Some (JBool True, drop 4 (c # r))
           else if starts_with (js ''false'') (c # r) then Some (JBool False, drop 5 (c # r))
           else if starts_with (js ''null'') (c # r) then Some (JNull, drop 4 (c # r))
           else map_option (apfst JNum) (parse_number (c # r))))"
| "parse_elems vs s =
     (case parse_value s of
        None \<Rightarrow> None
      | Some (v, r) \<Rightarrow>
          (case skip_ws r of
             [] \<Rightarrow> None
           | d # r1 \<Rightarrow>
               (if d = 0x5D then Some (vs @ [v], r1)
                else if d = 0x2C \<and> length r1 < length s then parse_elems (vs @ [v]) r1
                else None)))"
| "parse_members ob s =
     (case skip_ws s of
        [] \<Rightarrow> None
      | c # r \<Rightarrow>
          (if c \<noteq> 0x22 then None
           else case parse_chars r of
             None \<Rightarrow> None
           | Some (k, r1) \<Rightarrow>
               (case skip_ws r1 of
                  [] \<Rightarrow> None
                | d # r2 \<Rightarrow>
                    (if d \<noteq> 0x3A \<or> \<not> length r2 < length s then None
                     else case parse_value r2 of
                       None \<Rightarrow> None
                     | Some (v, r3) \<Rightarrow>
                         (case skip_ws r3 of
                            [] \<Rightarrow> None
                          | e # r4 \<Rightarrow>
                              (if e = 0x7D then Some (put k v ob, r4)
                               else if e = 0x2C \<and> length r4 < length s
                               then parse_members (put k v ob) r4
                               else None))))))"
  by pat_completeness auto
termination
  by (relation "measure (\<lambda>x. case x of Inl s \<Rightarrow> 2 * length s
      | Inr (Inl (vs, s)) \<Rightarrow> 2 * length s + 1 | Inr (Inr (ob, s)) \<Rightarrow> 2 * length s + 1)")
    (auto dest!: skip_ws_shorter)

declare parse_value.simps [simp del] parse_elems.simps [simp del] parse_members.simps [simp del]

text \<open>\<open>JSON.parse(text)\<close>: \<open>None\<close> when it throws a \<open>SyntaxError\<close>.\<close>

definition JSON_parse :: "js_string \<Rightarrow> json option" where
  "JSON_parse s =
     (case parse_value s of
        None \<Rightarrow> None
      | Some (v, r) \<Rightarrow> if skip_ws r = [] then Some v else None)"

section \<open>Parsed objects have distinct keys\<close>

fun json_wf :: "json \<Rightarrow> bool" where
  "json_wf (JArr vs) = list_all json_wf vs"
| "json_wf (JObj ob) = (distinct (map fst ob) \<and> list_all (\<lambda>p. json_wf (snd p)) ob)"
| "json_wf _ = True"

lemma json_wf_put: "json_wf (JObj ob) \<Longrightarrow> json_wf v \<Longrightarrow> json_wf (JObj (put k v ob))"
proof -
  assume "json_wf (JObj ob)" and v: "json_wf v"
  then have "distinct (map fst ob)" and "list_all (\<lambda>p. json_wf (snd p)) ob" by simp_all
  moreover have "list_all (\<lambda>p. json_wf (snd p)) (put k v ob)"
    using \<open>list_all (\<lambda>p. json_wf (snd p)) ob\<close> v by (induction k v ob rule: put.induct) auto
  ultimately show ?thesis by (simp add: distinct_put)
qed

section \<open>The parser consumes input\<close>

text \<open>The three functions in relational form: what a successful parse has read.\<close>

lemma parse_value_cases:
  assumes "parse_value s = Some (v, r)"
  obtains
    (members) c t d t1 ob where "skip_ws s = c # t" "skip_ws t = d # t1"
      "c = 0x7B" "d \<noteq> 0x7D" "parse_members [] (d # t1) = Some (ob, r)" "v = JObj ob"
  | (elems) c t d t1 vs where "skip_ws s = c # t" "skip_ws t = d # t1"
      "c = 0x5B" "d \<noteq> 0x5D" "c \<noteq> 0x7B" "parse_elems [] (d # t1) = Some (vs, r)" "v = JArr vs"
  | (leaf) c t where "skip_ws s = c # t" "length r \<le> length t" "json_wf v"
proof -
  from assms obtain c t where ct: "skip_ws s = c # t"
    by (auto simp: parse_value.simps [of s] split: list.splits)
  note eq = assms [unfolded parse_value.simps [of s] ct list.case]
  consider "c = 0x7B" | "c = 0x5B" "c \<noteq> 0x7B" | "c = 0x22" | "c \<noteq> 0x7B" "c \<noteq> 0x5B" "c \<noteq> 0x22" by auto
  then show thesis
  proof cases
    case 1
    with eq obtain d t1 where d: "skip_ws t = d # t1" by (auto split: list.splits)
    show thesis
    proof (cases "d = 0x7D")
      case True
      with eq 1 d have "v = JObj []" "r = t1" by auto
      with ct d show thesis by (intro leaf [of c t]) (auto dest: skip_ws_shorter)
    next
      case False
      with eq 1 d ct show thesis by (auto intro: members [of c t d t1])
    qed
  next
    case 2
    with eq obtain d t1 where d: "skip_ws t = d # t1" by (auto split: list.splits)
    show thesis
    proof (cases "d = 0x5D")
      case True
      with eq 2 d have "v = JArr []" "r = t1" by auto
      with ct d show thesis by (intro leaf [of c t]) (auto dest: skip_ws_shorter)
    next
      case False
      with eq 2 d ct show thesis by (auto intro: elems [of c t d t1])
    qed
  next
    case 3
    with eq ct show thesis by (intro leaf [of c t]) (auto dest: parse_chars_shorter)
  next
    case 4
    with eq ct show thesis
      by (intro leaf [of c t]) (auto split: if_splits dest: parse_number_shorter)
  qed
qed

lemma parse_elems_cases:
  assumes "parse_elems vs s = Some (ws, r)"
  obtains v t where "parse_value s = Some (v, t)" "skip_ws t = 0x5D # r" "ws = vs @ [v]"
  | v t t1 where "parse_value s = Some (v, t)" "skip_ws t = 0x2C # t1" "length t1 < length s"
      "parse_elems (vs @ [v]) t1 = Some (ws, r)"
proof -
  obtain v t where vt: "parse_value s = Some (v, t)"
    using assms by (auto simp: parse_elems.simps [of vs s] split: option.splits)
  then obtain d t1 where "skip_ws t = d # t1"
    using assms by (auto simp: parse_elems.simps [of vs s] split: list.splits)
  with vt assms that show thesis
    by (auto simp: parse_elems.simps [of vs s] split: if_splits)
qed

lemma parse_members_cases:
  assumes "parse_members ob s = Some (ob', r)"
  obtains t k t1 t2 v t3 where "skip_ws s = 0x22 # t" "parse_chars t = Some (k, t1)"
      "skip_ws t1 = 0x3A # t2" "length t2 < length s" "parse_value t2 = Some (v, t3)"
      "skip_ws t3 = 0x7D # r" "ob' = put k v ob"
  | t k t1 t2 v t3 t4 where "skip_ws s = 0x22 # t" "parse_chars t = Some (k, t1)"
      "skip_ws t1 = 0x3A # t2" "length t2 < length s" "parse_value t2 = Some (v, t3)"
      "skip_ws t3 = 0x2C # t4" "length t4 < length s" "parse_members (put k v ob) t4 = Some (ob', r)"
proof -
  note eq = assms [unfolded parse_members.simps [of ob s]]
  obtain c t where 1: "skip_ws s = c # t" using eq by (auto split: list.splits)
  note eq1 = eq [unfolded 1 list.case]
  obtain k t1 where 2: "c = 0x22" "parse_chars t = Some (k, t1)"
    using eq1 by (auto split: if_splits option.splits)
  obtain d t2 where 3: "skip_ws t1 = d # t2" using eq1 2 by (auto split: list.splits)
  obtain v t3 where 4: "d = 0x3A" "length t2 < length s" "parse_value t2 = Some (v, t3)"
    using eq1 2 3 by (auto split: if_splits option.splits)
  obtain e t4 where "skip_ws t3 = e # t4" using eq1 2 3 4 by (auto split: list.splits)
  with 1 2 3 4 eq1 that show thesis by (auto split: if_splits)
qed

lemma parse_shorter:
  "parse_value s = Some (v, r) \<Longrightarrow> length r < length s"
  "parse_elems vs s = Some (ws, r) \<Longrightarrow> length r < length s"
  "parse_members ob s = Some (ob', r) \<Longrightarrow> length r < length s"
proof (induction "length s" arbitrary: s v r vs ws ob ob' rule: less_induct)
  case less
  have val: "length r < length s" if "parse_value s = Some (v, r)" for v r
    using that
  proof (cases rule: parse_value_cases)
    case (members c t d t1 ob)
    then have "length (d # t1) < length s" by (auto dest!: skip_ws_shorter)
    from less(3) [OF this members(5)] this show ?thesis by simp
  next
    case (elems c t d t1 vs)
    then have "length (d # t1) < length s" by (auto dest!: skip_ws_shorter)
    from less(2) [OF this elems(6)] this show ?thesis by simp
  next
    case (leaf c t)
    then show ?thesis by (auto dest!: skip_ws_shorter)
  qed
  {
    case 1
    then show ?case by (rule val)
  next
    case 2
    then show ?case
    proof (cases rule: parse_elems_cases)
      case (1 v t)
      then show ?thesis by (auto dest!: val skip_ws_shorter)
    next
      case (2 v t t1)
      with less(2) [OF 2(3,4)] show ?thesis by simp
    qed
  next
    case 3
    then show ?case
    proof (cases rule: parse_members_cases)
      case (1 t k t1 t2 v t3)
      with less(1) [OF 1(4,5)] show ?thesis by (auto dest!: skip_ws_shorter)
    next
      case (2 t k t1 t2 v t3 t4)
      with less(3) [OF 2(7,8)] show ?thesis by simp
    qed
  }
qed

text \<open>So the length guards of \<^const>\<open>parse_elems\<close> and \<^const>\<open>parse_members\<close> hold whenever they are read.\<close>

lemma parse_elems_guard:
  assumes "parse_value s = Some (v, r)" and "skip_ws r = d # r1"
  shows "length r1 < length s"
  using parse_shorter(1) [OF assms(1)] skip_ws_shorter [OF assms(2)] by simp

lemma parse_members_guard:
  assumes "skip_ws s = c # r" and "parse_chars r = Some (k, r1)" and "skip_ws r1 = d # r2"
  shows "length r2 < length s"
  using skip_ws_shorter [OF assms(1)] parse_chars_shorter [OF assms(2)] skip_ws_shorter [OF assms(3)]
  by simp

lemma parse_wf:
  "parse_value s = Some (v, r) \<Longrightarrow> json_wf v"
  "parse_elems vs s = Some (ws, r) \<Longrightarrow> json_wf (JArr vs) \<Longrightarrow> json_wf (JArr ws)"
  "parse_members ob s = Some (ob', r) \<Longrightarrow> json_wf (JObj ob) \<Longrightarrow> json_wf (JObj ob')"
proof (induction "length s" arbitrary: s v r vs ws ob ob' rule: less_induct)
  case less
  have val: "json_wf v" if "parse_value s = Some (v, r)" for v r
    using that
  proof (cases rule: parse_value_cases)
    case (members c t d t1 ob)
    then have "length (d # t1) < length s" by (auto dest!: skip_ws_shorter)
    from less(3) [OF this members(5)] members(6) show ?thesis by simp
  next
    case (elems c t d t1 vs)
    then have "length (d # t1) < length s" by (auto dest!: skip_ws_shorter)
    from less(2) [OF this elems(6)] elems(7) show ?thesis by simp
  qed
  {
    case 1
    then show ?case by (rule val)
  next
    case 2
    from 2(1) show ?case
    proof (cases rule: parse_elems_cases)
      case (1 v t)
      with 2 val show ?thesis by auto
    next
      case (2 v t t1)
      with \<open>json_wf (JArr vs)\<close> val [OF 2(1)] less(2) [OF 2(3,4)] show ?thesis by simp
    qed
  next
    case 3
    from 3(1) show ?case
    proof (cases rule: parse_members_cases)
      case (1 t k t1 t2 v t3)
      with 3(2) less(1) [OF 1(4,5)] show ?thesis by (simp only: json_wf_put)
    next
      case (2 t k t1 t2 v t3 t4)
      with 3(2) less(1) [OF 2(4,5)] less(3) [OF 2(7,8)] show ?thesis by (simp only: json_wf_put)
    qed
  }
qed

lemma JSON_parse_wf: "JSON_parse s = Some v \<Longrightarrow> json_wf v"
  by (auto simp: JSON_parse_def split: option.splits if_splits dest: parse_wf(1))

section \<open>Missing values\<close>

text \<open>The values \<open>??\<close> replaces: \<open>undefined\<close> (\<open>None\<close>) and \<open>null\<close>.\<close>

definition nullish :: "json option \<Rightarrow> bool" where
  "nullish v \<longleftrightarrow> v = None \<or> v = Some JNull"

end
