(* ===== verification/Js_Stringify.thy ===== *)
theory Js_Stringify
  imports Js_Json Js_Text
begin

text \<open>
  \<open>JSON.stringify\<close> on parsed values, and that \<open>JSON.parse\<close> reads its text back. The text of a number is
  an argument of the model: \<open>number_law\<close> states what is used of it, that a whole number of magnitude
  below \<open>2^53\<close> prints as its decimal digits.
\<close>

section \<open>Strings\<close>

definition hex_unit :: "nat \<Rightarrow> code_unit" where
  "hex_unit d = word_of_nat (if d < 10 then 0x30 + d else 0x57 + d)"

text \<open>\<open>\uXXXX\<close>, in lowercase hex.\<close>

definition unicode_escape :: "code_unit \<Rightarrow> js_string" where
  "unicode_escape c =
     [0x5C, 0x75, hex_unit (unat c div 4096), hex_unit (unat c div 256 mod 16),
      hex_unit (unat c div 16 mod 16), hex_unit (unat c mod 16)]"

definition quote_unit :: "code_unit \<Rightarrow> js_string" where
  "quote_unit c =
     (if c = 0x22 \<or> c = 0x5C then [0x5C, c]
      else if c = 0x08 then [0x5C, 0x62] else if c = 0x0C then [0x5C, 0x66]
      else if c = 0x0A then [0x5C, 0x6E] else if c = 0x0D then [0x5C, 0x72]
      else if c = 0x09 then [0x5C, 0x74]
      else if c < 0x20 \<or> is_high_surrogate c \<or> is_low_surrogate c then unicode_escape c
      else [c])"

text \<open>A surrogate pair is written as it is, a lone surrogate escaped.\<close>

fun quote_chars :: "js_string \<Rightarrow> js_string" where
  "quote_chars (c # d # s) =
     (if is_high_surrogate c \<and> is_low_surrogate d then c # d # quote_chars s
      else quote_unit c @ quote_chars (d # s))"
| "quote_chars [c] = quote_unit c"
| "quote_chars [] = []"

definition quote :: "js_string \<Rightarrow> js_string" where
  "quote s = 0x22 # quote_chars s @ [0x22]"

section \<open>Values\<close>

text \<open>The elements or members after the opening bracket, separated by commas, with the closing one.\<close>

fun joined :: "code_unit \<Rightarrow> js_string list \<Rightarrow> js_string" where
  "joined e [] = [e]"
| "joined e [t] = t @ [e]"
| "joined e (t # ts) = t @ 0x2C # joined e ts"

text \<open>A number that is not finite is written as \<open>null\<close>.\<close>

fun JSON_stringify :: "(js_number \<Rightarrow> js_string) \<Rightarrow> json \<Rightarrow> js_string" where
  "JSON_stringify num JNull = js ''null''"
| "JSON_stringify num (JBool b) = (if b then js ''true'' else js ''false'')"
| "JSON_stringify num (JNum n) = (case n of Fin q \<Rightarrow> num (Fin q) | _ \<Rightarrow> js ''null'')"
| "JSON_stringify num (JStr s) = quote s"
| "JSON_stringify num (JArr vs) = 0x5B # joined 0x5D (map (JSON_stringify num) vs)"
| "JSON_stringify num (JObj ob) =
     0x7B # joined 0x7D (map (\<lambda>p. quote (fst p) @ 0x3A # JSON_stringify num (snd p)) ob)"

text \<open>The text of a whole number.\<close>

definition int_text :: "int \<Rightarrow> js_string" where
  "int_text i = (if i < 0 then 0x2D # digit_chars (nat (- i)) else digit_chars (nat i))"

definition number_law :: "(js_number \<Rightarrow> js_string) \<Rightarrow> bool" where
  "number_law num \<longleftrightarrow> (\<forall>i. \<bar>i\<bar> < 2 ^ 53 \<longrightarrow> num (Fin (of_int i)) = int_text i)"

text \<open>A concrete printer that satisfies the law.\<close>

fun whole_text :: "js_number \<Rightarrow> js_string" where
  "whole_text (Fin q) = int_text \<lfloor>q\<rfloor>"
| "whole_text _ = []"

lemma whole_text_law: "number_law whole_text"
  by (simp add: number_law_def)

text \<open>Values whose numbers are whole and below \<open>2^53\<close> in magnitude.\<close>

fun safe_number :: "js_number \<Rightarrow> bool" where
  "safe_number (Fin q) = (q = of_int \<lfloor>q\<rfloor> \<and> \<bar>\<lfloor>q\<rfloor>\<bar> < 2 ^ 53)"
| "safe_number _ = False"

fun safe_json :: "json \<Rightarrow> bool" where
  "safe_json (JNum n) = safe_number n"
| "safe_json (JArr vs) = list_all safe_json vs"
| "safe_json (JObj ob) = list_all (\<lambda>p. safe_json (snd p)) ob"
| "safe_json _ = True"

section \<open>Reading strings back\<close>

lemma hex_value_unit: "d < 16 \<Longrightarrow> hex_value (hex_unit d) = Some d"
  by (simp add: hex_unit_def is_digit_def word_le_nat_alt unat_of_nat del: of_nat_add)

lemma hex_digits_value:
  "((n div 4096 * 16 + n div 256 mod 16) * 16 + n div 16 mod 16) * 16 + n mod 16 = (n :: nat)"
proof -
  have "n div 4096 * 16 + n div 256 mod 16 = n div 256"
    using div_mult_mod_eq [of "n div 256" 16] by (simp add: div_mult2_eq [symmetric])
  moreover have "n div 256 * 16 + n div 16 mod 16 = n div 16"
    using div_mult_mod_eq [of "n div 16" 16] by (simp add: div_mult2_eq [symmetric])
  ultimately show ?thesis by simp
qed

lemma hex4_escape:
  "hex4 (hex_unit (unat c div 4096)) (hex_unit (unat c div 256 mod 16)) (hex_unit (unat c div 16 mod 16))
     (hex_unit (unat (c :: code_unit) mod 16)) = Some c"
proof -
  have "unat c div 4096 < 16" using unat_unit_bound [of c] by simp
  then have "hex4 (hex_unit (unat c div 4096)) (hex_unit (unat c div 256 mod 16)) (hex_unit (unat c div 16 mod 16))
      (hex_unit (unat c mod 16)) =
      Some (word_of_nat (((unat c div 4096 * 16 + unat c div 256 mod 16) * 16 + unat c div 16 mod 16) * 16 + unat c mod 16))"
    by (simp add: hex4_def hex_value_unit del: hex_value.simps of_nat_add of_nat_mult)
  then show ?thesis unfolding hex_digits_value by simp
qed

lemma parse_chars_escape:
  "parse_chars (unicode_escape c @ r) = map_option (apfst (Cons c)) (parse_chars r)"
  by (simp add: unicode_escape_def escape_unit_def hex4_escape)

lemma parse_chars_unit:
  "parse_chars (quote_unit c @ r) = map_option (apfst (Cons c)) (parse_chars r)"
  by (auto simp: quote_unit_def escape_unit_def parse_chars_escape)

lemma surrogate_plain:
  assumes "is_high_surrogate c \<or> is_low_surrogate c"
  shows "parse_chars (c # r) = map_option (apfst (Cons c)) (parse_chars r)"
  using assms by (auto simp: is_high_surrogate_def is_low_surrogate_def word_less_nat_alt)

lemma parse_quote_chars: "parse_chars (quote_chars s @ 0x22 # r) = Some (s, r)"
proof (induction s rule: quote_chars.induct)
  case (1 c d s)
  then show ?case
    by (auto simp: parse_chars_unit surrogate_plain simp del: parse_chars.simps)
qed (simp_all add: parse_chars_unit del: parse_chars.simps, simp_all)

section \<open>Reading numbers back\<close>

text \<open>The text after a value: nothing, or a separator or closing bracket.\<close>

definition delimited :: "js_string \<Rightarrow> bool" where
  "delimited r \<longleftrightarrow> (case r of [] \<Rightarrow> True | c # _ \<Rightarrow> c = 0x2C \<or> c = 0x5D \<or> c = 0x7D)"

lemma digit_chars_head:
  "\<exists>c t. digit_chars n = c # t \<and> is_digit c \<and> (c = 0x30 \<longrightarrow> t = [])"
proof (induction n rule: digit_chars.induct)
  case (1 n)
  show ?case
  proof (cases "n < 10")
    case True
    then show ?thesis
      using digit_chars_digits [of n] by (subst (asm) digit_chars.simps) (subst digit_chars.simps, simp)
  next
    case False
    with 1 obtain c t where ct: "digit_chars (n div 10) = c # t" "is_digit c" "c = 0x30 \<longrightarrow> t = []" by blast
    have "c \<noteq> 0x30"
    proof
      assume "c = 0x30"
      with ct have "digit_chars (n div 10) = [0x30]" by simp
      then have "n div 10 = 0" using digit_chars_value [of "n div 10"] by (simp add: digits_value_def)
      with False show False by simp
    qed
    with ct False show ?thesis by (subst digit_chars.simps) simp
  qed
qed

lemma span_digit_chars:
  assumes "delimited r"
  shows "span_digits (digit_chars n @ r) = (digit_chars n, r)"
proof -
  have "\<forall>c\<in>set (digit_chars n). is_digit c" using digit_chars_digits [of n] by (simp add: list_all_iff)
  moreover have "takeWhile is_digit r = [] \<and> dropWhile is_digit r = r"
    using assms by (cases r) (auto simp: delimited_def is_digit_def word_le_nat_alt)
  ultimately show ?thesis by (simp add: span_digits_def takeWhile_append2 dropWhile_append2)
qed

lemma parse_int_digit_chars:
  assumes "delimited r"
  shows "parse_int_part (digit_chars n @ r) = Some (digit_chars n, r)"
proof -
  obtain c t where ct: "digit_chars n = c # t" "is_digit c" "c = 0x30 \<longrightarrow> t = []"
    using digit_chars_head by blast
  then show ?thesis
    using span_digit_chars [OF assms, of n] by (simp add: parse_int_part_def)
qed

lemma delimited_starts: "delimited r \<Longrightarrow> \<not> starts_with [0x2E] r \<and> \<not> starts_with [0x65] r \<and> \<not> starts_with [0x45] r"
  by (cases r) (auto simp: delimited_def starts_with_def)

lemma parse_number_int:
  assumes "delimited r" "\<bar>i\<bar> < 2 ^ 53"
  shows "parse_number (int_text i @ r) = Some (Fin (of_int i), r)"
proof -
  obtain c t where ct: "digit_chars (nat i) = c # t" "is_digit c" using digit_chars_head by blast
  then have "\<not> starts_with [0x2D] (digit_chars (nat i) @ r)"
    by (auto simp: starts_with_def is_digit_def word_le_nat_alt)
  then show ?thesis
    using delimited_starts [OF assms(1)] round64_safe_int [OF assms(2)]
    by (simp add: parse_number_def int_text_def Let_def parse_int_digit_chars [OF assms(1)] parse_frac_def
        parse_exp_def literal_value_def digit_chars_value starts_with_def)
qed

section \<open>Reading values back\<close>

lemma stringify_int:
  assumes "number_law num" "safe_number n"
  obtains i where "n = Fin (of_int i)" "\<bar>i\<bar> < 2 ^ 53" "JSON_stringify num (JNum n) = int_text i"
proof (cases n)
  case (Fin q)
  with assms have q: "q = of_int \<lfloor>q\<rfloor>" "\<bar>\<lfloor>q\<rfloor>\<bar> < 2 ^ 53" by simp_all
  from assms(1) q(2) have "num (Fin (of_int \<lfloor>q\<rfloor>)) = int_text \<lfloor>q\<rfloor>" unfolding number_law_def by blast
  with q(1) have "num (Fin q) = int_text \<lfloor>q\<rfloor>" by simp
  with Fin q(1) have "JSON_stringify num (JNum n) = int_text \<lfloor>q\<rfloor>" "n = Fin (of_int \<lfloor>q\<rfloor>)" by simp_all
  with q(2) show ?thesis by (intro that)
qed (use assms in simp_all)

text \<open>The first character of a value's text is neither white space nor a closing bracket.\<close>

lemma int_text_head: "\<exists>c t. int_text i = c # t \<and> (is_digit c \<or> c = 0x2D)"
  using digit_chars_head [of "nat i"] by (auto simp: int_text_def)

lemma stringify_head:
  assumes "number_law num" "safe_json v"
  shows "\<exists>c t. JSON_stringify num v = c # t \<and> \<not> is_ws c \<and> c \<noteq> 0x5D"
proof (cases v)
  case (JNum n)
  with assms have "safe_number n" by simp
  then obtain i where "JSON_stringify num v = int_text i" using stringify_int [OF assms(1)] JNum by metis
  moreover obtain c t where "int_text i = c # t" "is_digit c \<or> c = 0x2D" using int_text_head by blast
  ultimately show ?thesis by (auto simp: is_ws_def is_digit_def)
qed (auto simp: is_ws_def quote_def js_eval)

lemma parse_value_int:
  assumes "delimited r" "\<bar>i\<bar> < 2 ^ 53"
  shows "parse_value (int_text i @ r) = Some (JNum (Fin (of_int i)), r)"
proof -
  obtain c t where ct: "int_text i = c # t" "is_digit c \<or> c = 0x2D" using int_text_head by blast
  then have ne: "c \<notin> {0x7B, 0x5B, 0x22, 0x74, 0x66, 0x6E, 0x20, 0x0A, 0x0D, 0x09}"
    by (auto simp: is_digit_def word_le_nat_alt)
  then have "skip_ws (c # t @ r) = c # t @ r" by (simp add: skip_ws_def is_ws_def)
  with ne ct parse_number_int [OF assms] show ?thesis
    by (subst parse_value.simps) (simp add: starts_with_Cons js_eval)
qed

lemma parse_value_string: "parse_value (quote s @ r) = Some (JStr s, r)"
  by (subst parse_value.simps) (simp add: quote_def skip_ws_def is_ws_def parse_quote_chars)

lemma delimited_joined: "delimited (e # r) \<longleftrightarrow> e = 0x2C \<or> e = 0x5D \<or> e = 0x7D"
  by (simp add: delimited_def)

lemma parse_elems_joined:
  assumes "vs \<noteq> []" "\<forall>v\<in>set vs. \<forall>r. delimited r \<longrightarrow> parse_value (f v @ r) = Some (v, r)"
  shows "parse_elems acc (joined 0x5D (map f vs) @ r) = Some (acc @ vs, r)"
  using assms
proof (induction vs arbitrary: acc)
  case (Cons v vs)
  show ?case
  proof (cases vs)
    case Nil
    with Cons.prems show ?thesis
      by (subst parse_elems.simps) (simp add: delimited_joined skip_ws_def is_ws_def)
  next
    case (Cons w ws)
    with Cons.prems Cons.IH [of "acc @ [v]"] show ?thesis
      by (subst parse_elems.simps) (simp add: delimited_joined skip_ws_def is_ws_def)
  qed
qed simp

lemma parse_members_joined:
  assumes "ms \<noteq> []" "\<forall>p\<in>set ms. \<forall>r. delimited r \<longrightarrow> parse_value (f (snd p) @ r) = Some (snd p, r)"
  shows "parse_members ob (joined 0x7D (map (\<lambda>p. quote (fst p) @ 0x3A # f (snd p)) ms) @ r) =
    Some (fold (\<lambda>p. put (fst p) (snd p)) ms ob, r)"
  using assms
proof (induction ms arbitrary: ob)
  case (Cons p ms)
  show ?case
  proof (cases ms)
    case Nil
    with Cons.prems show ?thesis
      by (subst parse_members.simps) (simp add: delimited_joined skip_ws_def is_ws_def quote_def parse_quote_chars)
  next
    case (Cons q qs)
    with Cons.prems Cons.IH [of "put (fst p) (snd p) ob"] show ?thesis
      by (subst parse_members.simps) (simp add: delimited_joined skip_ws_def is_ws_def quote_def parse_quote_chars)
  qed
qed simp

lemma put_new: "k \<notin> fst ` set ob \<Longrightarrow> put k v ob = ob @ [(k, v)]"
  by (induction ob) auto

lemma fold_put_distinct:
  "distinct (map fst (ob @ ms)) \<Longrightarrow> fold (\<lambda>p. put (fst p) (snd p)) ms ob = ob @ ms"
proof (induction ms arbitrary: ob)
  case (Cons p ms)
  then have "put (fst p) (snd p) ob = ob @ [p]" by (subst put_new) auto
  with Cons.IH [of "ob @ [p]"] Cons.prems show ?case by simp
qed simp

lemma joined_not_Nil: "joined e ts \<noteq> []"
  by (induction e ts rule: joined.induct) auto

lemma parse_stringify:
  assumes "number_law num" "json_wf v" "safe_json v" "delimited r"
  shows "parse_value (JSON_stringify num v @ r) = Some (v, r)"
  using assms(2-)
proof (induction v arbitrary: r)
  case JNull
  then show ?case by (subst parse_value.simps) (simp add: skip_ws_def is_ws_def js_eval)
next
  case (JBool b)
  then show ?case by (subst parse_value.simps) (simp add: skip_ws_def is_ws_def js_eval)
next
  case (JNum n)
  then obtain i where "n = Fin (of_int i)" "\<bar>i\<bar> < 2 ^ 53" "JSON_stringify num (JNum n) = int_text i"
    using stringify_int [OF assms(1)] by auto
  with parse_value_int [OF JNum.prems(3)] show ?case by simp
next
  case (JStr s)
  then show ?case by (simp add: parse_value_string)
next
  case (JArr vs)
  show ?case
  proof (cases vs)
    case Nil
    then show ?thesis by (subst parse_value.simps) (simp add: skip_ws_def is_ws_def)
  next
    case (Cons w ws)
    then have "safe_json w" using JArr.prems by simp
    then obtain c t where ct: "JSON_stringify num w = c # t" "\<not> is_ws c" "c \<noteq> 0x5D"
      using stringify_head [OF assms(1)] by blast
    let ?t = "joined 0x5D (map (JSON_stringify num) vs)"
    have "hd ?t = c" using ct(1) by (cases ws) (simp_all add: Cons)
    then obtain t' where t': "?t = c # t'" using joined_not_Nil [of "0x5D" "map (JSON_stringify num) vs"]
      by (metis list.collapse)
    have "parse_elems [] (?t @ r) = Some (vs, r)"
      using parse_elems_joined [of vs "JSON_stringify num" "[]" r] JArr Cons by (simp add: list_all_iff)
    with ct(2,3) t' show ?thesis
      by (subst parse_value.simps) (simp add: skip_ws_def is_ws_def)
  qed
next
  case (JObj ob)
  show ?case
  proof (cases ob)
    case Nil
    then show ?thesis by (subst parse_value.simps) (simp add: skip_ws_def is_ws_def)
  next
    case (Cons p ps)
    let ?t = "joined 0x7D (map (\<lambda>p. quote (fst p) @ 0x3A # JSON_stringify num (snd p)) ob)"
    obtain t' where t': "?t = 0x22 # t'" by (cases ps) (simp_all add: Cons quote_def)
    have "parse_value (JSON_stringify num (snd q) @ s) = Some (snd q, s)" if "q \<in> set ob" "delimited s" for q s
    proof -
      from JObj.prems that have "json_wf (snd q)" "safe_json (snd q)" by (simp_all add: list_all_iff)
      with JObj.IH [of q "snd q" s] that show ?thesis by (cases q) simp
    qed
    then have "parse_members [] (?t @ r) = Some (ob, r)"
      using parse_members_joined [of ob "JSON_stringify num" "[]" r] fold_put_distinct [of "[]" ob] JObj.prems Cons
      by simp
    with t' show ?thesis
      by (subst parse_value.simps) (simp add: skip_ws_def is_ws_def)
  qed
qed

text \<open>What \<open>JSON.stringify\<close> writes, \<open>JSON.parse\<close> reads back.\<close>

lemma JSON_parse_stringify:
  assumes "number_law num" "json_wf v" "safe_json v"
  shows "JSON_parse (JSON_stringify num v) = Some v"
  using parse_stringify [OF assms, of "[]"] by (simp add: JSON_parse_def delimited_def skip_ws_def)

section \<open>The text has no lone surrogates\<close>

lemma well_formed_append: "well_formed s \<Longrightarrow> well_formed (s @ t) \<longleftrightarrow> well_formed t"
proof (induction s rule: well_formed.induct)
  case (2 c)
  then show ?case by (cases t) auto
qed (auto split: if_splits)

lemma well_formed_Cons: "\<not> is_high_surrogate c \<Longrightarrow> \<not> is_low_surrogate c \<Longrightarrow> well_formed (c # t) \<longleftrightarrow> well_formed t"
  using well_formed_append [of "[c]" t] by simp

definition plain_text :: "js_string \<Rightarrow> bool" where
  "plain_text s \<longleftrightarrow> (\<forall>c\<in>set s. \<not> is_high_surrogate c \<and> \<not> is_low_surrogate c)"

lemma plain_well_formed: "plain_text s \<Longrightarrow> well_formed s"
  by (induction s rule: well_formed.induct) (auto simp: plain_text_def)

lemma hex_unit_plain: "d < 16 \<Longrightarrow> \<not> is_high_surrogate (hex_unit d) \<and> \<not> is_low_surrogate (hex_unit d)"
  by (simp add: hex_unit_def is_high_surrogate_def is_low_surrogate_def unat_of_nat del: of_nat_add)

lemma quote_unit_well_formed: "well_formed (quote_unit c)"
proof -
  have "plain_text (unicode_escape c)"
    using unat_unit_bound [of c] hex_unit_plain
    by (simp add: plain_text_def unicode_escape_def is_high_surrogate_def is_low_surrogate_def)
  then show ?thesis
    by (auto simp: quote_unit_def plain_well_formed well_formed_Cons is_high_surrogate_def is_low_surrogate_def)
qed

lemma quote_chars_well_formed: "well_formed (quote_chars s)"
  by (induction s rule: quote_chars.induct) (auto simp: quote_unit_well_formed well_formed_append)

lemma quote_well_formed: "well_formed (quote s)"
  by (simp add: quote_def well_formed_Cons well_formed_append quote_chars_well_formed
      is_high_surrogate_def is_low_surrogate_def)

lemma joined_well_formed:
  assumes "\<forall>t\<in>set ts. well_formed t" "unat e < 128"
  shows "well_formed (joined e ts)"
  using assms by (induction e ts rule: joined.induct)
    (auto simp: well_formed_append well_formed_Cons is_high_surrogate_def is_low_surrogate_def)

lemma int_text_well_formed: "well_formed (int_text i)"
proof (rule plain_well_formed)
  have "\<not> is_high_surrogate c \<and> \<not> is_low_surrogate c" if "is_digit c" for c :: code_unit
    using that by (auto simp: is_digit_def is_high_surrogate_def is_low_surrogate_def word_le_nat_alt)
  then have "plain_text (digit_chars n)" for n
    using digit_chars_digits [of n] by (simp add: plain_text_def list_all_iff)
  then show "plain_text (int_text i)"
    by (auto simp: int_text_def plain_text_def is_high_surrogate_def is_low_surrogate_def)
qed

lemma stringify_well_formed:
  assumes "number_law num" "safe_json v"
  shows "well_formed (JSON_stringify num v)"
  using assms(2)
proof (induction v)
  case (JNum n)
  then show ?case using stringify_int [OF assms(1)] int_text_well_formed by (metis safe_json.simps(1))
next
  case (JArr vs)
  then have "\<forall>t\<in>set (map (JSON_stringify num) vs). well_formed t" by (simp add: list_all_iff)
  then show ?case
    using joined_well_formed by (simp add: well_formed_Cons is_high_surrogate_def is_low_surrogate_def)
next
  case (JObj ob)
  then have "well_formed (JSON_stringify num (snd p))" if "p \<in> set ob" for p
    using that by (cases p) (auto simp: list_all_iff)
  then have "\<forall>t\<in>set (map (\<lambda>p. quote (fst p) @ 0x3A # JSON_stringify num (snd p)) ob). well_formed t"
    by (simp add: well_formed_append well_formed_Cons quote_well_formed is_high_surrogate_def is_low_surrogate_def)
  then show ?case
    using joined_well_formed by (simp add: well_formed_Cons is_high_surrogate_def is_low_surrogate_def)
qed (simp_all add: quote_well_formed js_eval well_formed_Cons is_high_surrogate_def is_low_surrogate_def)

text \<open>So the text survives its transport as UTF-8 bytes.\<close>

lemma stringify_bytes:
  assumes "number_law num" "safe_json v"
  shows "utf8_to_string (utf8_encode (JSON_stringify num v)) = JSON_stringify num v"
  using stringify_well_formed [OF assms] by (rule utf8_to_string_encode)

end
