(* ===== verification/Message.thy ===== *)
theory Message
  imports Claim_Ref Webhook_Headers Js_Base64 Js_Stringify Sha256
begin

text \<open>
  Queue messages, \<open>message/index.ts\<close>: the strict decoder of the JSON envelope a broker carries, the
  idempotency key and the trust decision. The lemmas show that the decoder implements the ordered
  rules of the conformance contract exactly (the first rule a message breaks is the one reported),
  that a decoded message is well-formed and its body verified, and what the idempotency key
  identifies.
\<close>

section \<open>Messages and errors\<close>

record Message =
  msg_v :: js_number
  msg_id :: js_string
  source_id :: js_string
  tenant_id :: "js_string option"
  received_at :: js_number
  content_type :: "js_string option"
  msg_size :: js_number
  body_base64 :: "js_string option"
  msg_claim :: "js_string option"
  msg_sha256 :: "js_string option"
  dedupe_key :: "js_string option"
  replay_id :: "js_string option"
  idempotency_key :: "js_string option"
  msg_headers :: "(js_string \<times> js_string) list"
  msg_verification :: "Verification option"
  traceparent :: "js_string option"
  tracestate :: "js_string option"
  msg_instance :: "js_string option"
  msg_region :: "js_string option"
  event_type :: "js_string option"
  msg_body :: "byte list option"

datatype InvalidMessageCode =
    invalid_json
  | not_an_object
  | unsupported_version
  | invalid_field
  | ambiguous_body
  | missing_body
  | invalid_body_base64
  | size_mismatch
  | integrity
  | tenant_mismatch

record InvalidMessageError =
  msg_code :: InvalidMessageCode
  msg_field :: "string option"

definition message_error :: "InvalidMessageCode \<Rightarrow> InvalidMessageError" where
  "message_error c = \<lparr>msg_code = c, msg_field = None\<rparr>"

definition field_error :: "string \<Rightarrow> InvalidMessageError" where
  "field_error f = \<lparr>msg_code = invalid_field, msg_field = Some f\<rparr>"

definition MIN_SUPPORTED_VERSION :: js_number where
  "MIN_SUPPORTED_VERSION = Fin 1"

definition MAX_SUPPORTED_VERSION :: js_number where
  "MAX_SUPPORTED_VERSION = Fin 2"

section \<open>Decoding\<close>

text \<open>\<open>raw[key]\<close>, with \<open>None\<close> for \<open>undefined\<close>; \<open>undefined\<close> or \<open>null\<close>; the string a value is.\<close>

definition raw_field :: "json_object \<Rightarrow> string \<Rightarrow> json option" where
  "raw_field raw k = map_of raw (js k)"

fun string_of :: "json option \<Rightarrow> js_string option" where
  "string_of (Some (JStr s)) = Some s"
| "string_of _ = None"

fun number_of :: "json option \<Rightarrow> js_number option" where
  "number_of (Some (JNum n)) = Some n"
| "number_of _ = None"

definition decodeBase64 :: "js_string \<Rightarrow> byte list option" where
  "decodeBase64 s = (if \<not> base64_pattern s then None else base64_decode s)"

definition decodeVerification :: "json option \<Rightarrow> (InvalidMessageError, Verification option) result" where
  "decodeVerification v =
     (if nullish v then Inr None
      else case v of
        Some (JObj ob) \<Rightarrow>
          (case (map_of ob (js ''status''), map_of ob (js ''flagged'')) of
             (Some (JStr st), Some (JBool fl)) \<Rightarrow>
               (if length st = 0 then Inl (field_error ''verification'')
                else Inr (Some \<lparr>status = st, flagged = fl\<rparr>))
           | _ \<Rightarrow> Inl (field_error ''verification''))
      | _ \<Rightarrow> Inl (field_error ''verification''))"

definition optional_keys :: "string list" where
  "optional_keys =
     [''tenant_id'', ''content_type'', ''dedupe_key'', ''replay_id'', ''idempotency_key'',
      ''traceparent'', ''tracestate'', ''instance'', ''region'', ''event_type'']"

text \<open>The loop over the optional strings: the first key with another value.\<close>

fun check_optional :: "json_object \<Rightarrow> string list \<Rightarrow> (InvalidMessageError, unit) result" where
  "check_optional raw [] = Inr ()"
| "check_optional raw (k # ks) =
     (let v = raw_field raw k
      in if \<not> (nullish v \<or> string_of v \<noteq> None) then Inl (field_error k) else check_optional raw ks)"

text \<open>The loop over the header values.\<close>

fun string_entries :: "json_object \<Rightarrow> (js_string \<times> js_string) list option" where
  "string_entries [] = Some []"
| "string_entries ((k, v) # ob) =
     (case v of JStr s \<Rightarrow> map_option (Cons (k, s)) (string_entries ob) | _ \<Rightarrow> None)"

definition decode_headers :: "json option \<Rightarrow> (InvalidMessageError, (js_string \<times> js_string) list) result" where
  "decode_headers v =
     (case v of
        None \<Rightarrow> Inr []
      | Some (JObj ob) \<Rightarrow>
          (case string_entries ob of None \<Rightarrow> Inl (field_error ''headers'') | Some hs \<Rightarrow> Inr hs)
      | Some _ \<Rightarrow> Inl (field_error ''headers''))"

definition decode_version :: "json option \<Rightarrow> (InvalidMessageError, js_number) result" where
  "decode_version v =
     (case number_of v of
        None \<Rightarrow> Inl (message_error unsupported_version)
      | Some n \<Rightarrow>
          (if \<not> num_is_integer n \<or> num_less n MIN_SUPPORTED_VERSION \<or> num_less MAX_SUPPORTED_VERSION n
           then Inl (message_error unsupported_version) else Inr n))"

text \<open>The body form: the decoded body, its base64 and the parsed claim.\<close>

definition decode_body ::
  "json_object \<Rightarrow> js_number \<Rightarrow> (InvalidMessageError, byte list option \<times> js_string option \<times> ParsedClaimRef option) result"
  where
  "decode_body raw sz =
     (let bodyBase64 = raw_field raw ''body_base64'';
          claim = raw_field raw ''claim'';
          sha = raw_field raw ''sha256'';
          hasBody = (\<not> nullish bodyBase64);
          hasClaim = (\<not> nullish claim)
      in if hasBody \<and> hasClaim then Inl (message_error ambiguous_body)
         else if \<not> hasBody \<and> \<not> hasClaim then Inl (message_error missing_body)
         else if hasBody then
           (case string_of bodyBase64 of
              None \<Rightarrow> Inl (message_error invalid_body_base64)
            | Some s \<Rightarrow>
                (case decodeBase64 s of
                   None \<Rightarrow> Inl (message_error invalid_body_base64)
                 | Some body \<Rightarrow>
                     (if \<not> num_eq (num_of_int (int (length body))) sz then Inl (message_error size_mismatch)
                      else if string_of sha \<noteq> None \<and> sha256_hex body \<noteq> the (string_of sha)
                      then Inl (message_error integrity)
                      else Inr (Some body, Some (base64_encode body), None))))
         else
           (case string_of claim of
              None \<Rightarrow> Inl (field_error ''claim'')
            | Some c \<Rightarrow>
                (case parseClaimRef c of
                   Inl _ \<Rightarrow> Inl (field_error ''claim'')
                 | Inr ref \<Rightarrow>
                     (if sha = None then Inl (field_error ''sha256'')
                      else Inr (None, None, Some ref)))))"

definition decode_object :: "json_object \<Rightarrow> (InvalidMessageError, Message) result" where
  "decode_object raw =
     result_bind (decode_version (raw_field raw ''v'')) (\<lambda>version.
     case string_of (raw_field raw ''id'') of
       None \<Rightarrow> Inl (field_error ''id'')
     | Some i \<Rightarrow> if length i = 0 then Inl (field_error ''id'') else
     (case string_of (raw_field raw ''source_id'') of
       None \<Rightarrow> Inl (field_error ''source_id'')
     | Some sourceId \<Rightarrow>
     (case number_of (raw_field raw ''received_at'') of
       None \<Rightarrow> Inl (field_error ''received_at'')
     | Some rat \<Rightarrow> if \<not> num_is_integer rat then Inl (field_error ''received_at'') else
     (case number_of (raw_field raw ''size'') of
       None \<Rightarrow> Inl (field_error ''size'')
     | Some sz \<Rightarrow> if \<not> num_is_integer sz \<or> num_less sz (Fin 0) then Inl (field_error ''size'') else
     result_bind (check_optional raw optional_keys) (\<lambda>_.
     result_bind (decode_headers (raw_field raw ''headers'')) (\<lambda>headers.
     let sha = raw_field raw ''sha256'' in
     if sha \<noteq> None \<and> (case string_of sha of None \<Rightarrow> True | Some s \<Rightarrow> \<not> sha256_pattern s)
     then Inl (field_error ''sha256'') else
     result_bind (decodeVerification (raw_field raw ''verification'')) (\<lambda>verif.
     result_bind (decode_body raw sz) (\<lambda>(body, encodedBody, claimRef).
     let tenant = string_of (raw_field raw ''tenant_id'') in
     if (case (tenant, claimRef) of (Some t, Some ref) \<Rightarrow> tenantId ref \<noteq> t | _ \<Rightarrow> False)
     then Inl (message_error tenant_mismatch)
     else Inr \<lparr>msg_v = version, msg_id = i, source_id = sourceId, tenant_id = tenant,
       received_at = rat, content_type = string_of (raw_field raw ''content_type''), msg_size = sz,
       body_base64 = encodedBody,
       msg_claim = (case claimRef of None \<Rightarrow> None | Some _ \<Rightarrow> string_of (raw_field raw ''claim'')),
       msg_sha256 = string_of sha, dedupe_key = string_of (raw_field raw ''dedupe_key''),
       replay_id = string_of (raw_field raw ''replay_id''),
       idempotency_key = string_of (raw_field raw ''idempotency_key''), msg_headers = headers,
       msg_verification = verif, traceparent = string_of (raw_field raw ''traceparent''),
       tracestate = string_of (raw_field raw ''tracestate''),
       msg_instance = string_of (raw_field raw ''instance''),
       msg_region = string_of (raw_field raw ''region''),
       event_type = string_of (raw_field raw ''event_type''), msg_body = body\<rparr>))))))))"

definition decodeMessage :: "payload \<Rightarrow> (InvalidMessageError, Message) result" where
  "decodeMessage data =
     (case JSON_parse (payload_text data) of
        None \<Rightarrow> Inl (message_error invalid_json)
      | Some (JObj raw) \<Rightarrow> decode_object raw
      | Some _ \<Rightarrow> Inl (message_error not_an_object))"

section \<open>The key to dedupe on, and trust\<close>

text \<open>The argument \<open>Message | HookHeaders\<close>, told apart by \<open>"source_id" in hook\<close>.\<close>

datatype hook = AMessage Message | AHook HookHeaders

definition computed_key :: "js_string option \<Rightarrow> js_string \<Rightarrow> js_string option \<Rightarrow> js_string \<Rightarrow> js_string" where
  "computed_key tenant sourceId dedupe i =
     (case dedupe of
        Some d \<Rightarrow>
          (if d \<noteq> [] then (case tenant of None \<Rightarrow> js ''default'' | Some t \<Rightarrow> t) @ js '':'' @ sourceId @ js '':'' @ d
           else i)
      | None \<Rightarrow> i)"

text \<open>The shipped key, tenant, source, dedupe key, id and replay id of either kind of hook.\<close>

fun hook_parts :: "hook \<Rightarrow> js_string option \<times> js_string option \<times> js_string \<times> js_string option \<times> js_string \<times> js_string option" where
  "hook_parts (AMessage m) = (idempotency_key m, tenant_id m, source_id m, dedupe_key m, msg_id m, replay_id m)"
| "hook_parts (AHook h) = (hook_idempotencyKey h, hook_tenant h, hook_source h, dedupeKey h, hook_id h, replayId h)"

text \<open>The options, an absent flag being \<open>None\<close>, and \<open>{}\<close>, the default.\<close>

record IdempotencyKeyOptions =
  includeReplay :: "bool option"

definition no_options :: IdempotencyKeyOptions where
  "no_options = \<lparr>includeReplay = None\<rparr>"

definition idempotencyKey :: "IdempotencyKeyOptions \<Rightarrow> hook \<Rightarrow> js_string" where
  "idempotencyKey options hook =
     (case hook_parts hook of (shipped, tenant, sourceId, dedupe, i, replay) \<Rightarrow>
        let key = (if shipped \<noteq> None \<and> shipped \<noteq> Some [] then the shipped
                   else computed_key tenant sourceId dedupe i)
        in case replay of
             Some r \<Rightarrow> if includeReplay options = Some True then key @ js ''#replay:'' @ r else key
           | None \<Rightarrow> key)"

fun isTrusted :: "hook \<Rightarrow> bool" where
  "isTrusted hook =
     (case (case hook of AMessage m \<Rightarrow> msg_verification m | AHook h \<Rightarrow> verification h) of
        None \<Rightarrow> False
      | Some v \<Rightarrow> status v = js ''ok'' \<and> flagged v = False)"

section \<open>The conformance contract\<close>

text \<open>The rules a message must satisfy, as the contract states them field by field.\<close>

fun version_ok :: "json option \<Rightarrow> bool" where
  "version_ok (Some (JNum n)) \<longleftrightarrow> n = Fin 1 \<or> n = Fin 2"
| "version_ok _ \<longleftrightarrow> False"

fun nonempty_string :: "json option \<Rightarrow> bool" where
  "nonempty_string (Some (JStr s)) \<longleftrightarrow> s \<noteq> []"
| "nonempty_string _ \<longleftrightarrow> False"

fun is_string :: "json option \<Rightarrow> bool" where
  "is_string (Some (JStr s)) \<longleftrightarrow> True"
| "is_string _ \<longleftrightarrow> False"

fun is_integer :: "json option \<Rightarrow> bool" where
  "is_integer (Some (JNum n)) \<longleftrightarrow> num_is_integer n"
| "is_integer _ \<longleftrightarrow> False"

fun is_natural :: "json option \<Rightarrow> bool" where
  "is_natural (Some (JNum n)) \<longleftrightarrow> num_is_integer n \<and> \<not> num_less n (Fin 0)"
| "is_natural _ \<longleftrightarrow> False"

definition optional_string :: "json option \<Rightarrow> bool" where
  "optional_string v \<longleftrightarrow> nullish v \<or> is_string v"

fun headers_ok :: "json option \<Rightarrow> bool" where
  "headers_ok None \<longleftrightarrow> True"
| "headers_ok (Some (JObj ob)) \<longleftrightarrow> list_all (\<lambda>(k, v). is_string (Some v)) ob"
| "headers_ok _ \<longleftrightarrow> False"

fun sha256_ok :: "json option \<Rightarrow> bool" where
  "sha256_ok None \<longleftrightarrow> True"
| "sha256_ok (Some (JStr s)) \<longleftrightarrow> sha256_pattern s"
| "sha256_ok _ \<longleftrightarrow> False"

fun is_bool :: "json option \<Rightarrow> bool" where
  "is_bool (Some (JBool b)) \<longleftrightarrow> True"
| "is_bool _ \<longleftrightarrow> False"

fun verification_ok :: "json option \<Rightarrow> bool" where
  "verification_ok None \<longleftrightarrow> True"
| "verification_ok (Some JNull) \<longleftrightarrow> True"
| "verification_ok (Some (JObj ob)) \<longleftrightarrow>
     nonempty_string (map_of ob (js ''status'')) \<and> is_bool (map_of ob (js ''flagged''))"
| "verification_ok _ \<longleftrightarrow> False"

fun base64_ok :: "json option \<Rightarrow> bool" where
  "base64_ok (Some (JStr s)) \<longleftrightarrow> base64_pattern s"
| "base64_ok _ \<longleftrightarrow> False"

definition claim_of :: "json option \<Rightarrow> ParsedClaimRef option" where
  "claim_of v = (case string_of v of None \<Rightarrow> None | Some c \<Rightarrow> result_value (parseClaimRef c))"

definition body_of :: "json option \<Rightarrow> byte list option" where
  "body_of v = (case string_of v of None \<Rightarrow> None | Some s \<Rightarrow> base64_decode s)"

text \<open>The rules on the body, and all rules in the contract's order.\<close>

definition body_rules :: "json_object \<Rightarrow> (bool \<times> InvalidMessageError) list" where
  "body_rules raw =
     (let body = raw_field raw ''body_base64''; claim = raw_field raw ''claim'';
          hasBody = \<not> nullish body; hasClaim = \<not> nullish claim; sha = raw_field raw ''sha256''
      in [(\<not> (hasBody \<and> hasClaim), message_error ambiguous_body),
          (hasBody \<or> hasClaim, message_error missing_body),
          (hasBody \<longrightarrow> base64_ok body, message_error invalid_body_base64),
          (hasClaim \<longrightarrow> claim_of claim \<noteq> None, field_error ''claim''),
          (hasClaim \<longrightarrow> sha \<noteq> None, field_error ''sha256''),
          (hasBody \<longrightarrow> raw_field raw ''size'' = Some (JNum (num_of_int (int (length (the (body_of body)))))),
             message_error size_mismatch),
          (hasBody \<longrightarrow> sha \<noteq> None \<longrightarrow> sha = Some (JStr (sha256_hex (the (body_of body)))),
             message_error integrity),
          (hasClaim \<longrightarrow> string_of (raw_field raw ''tenant_id'') \<noteq> None \<longrightarrow>
             string_of (raw_field raw ''tenant_id'') = Some (tenantId (the (claim_of claim))),
             message_error tenant_mismatch)])"

definition message_rules :: "json_object \<Rightarrow> (bool \<times> InvalidMessageError) list" where
  "message_rules raw =
     [(version_ok (raw_field raw ''v''), message_error unsupported_version),
      (nonempty_string (raw_field raw ''id''), field_error ''id''),
      (is_string (raw_field raw ''source_id''), field_error ''source_id''),
      (is_integer (raw_field raw ''received_at''), field_error ''received_at''),
      (is_natural (raw_field raw ''size''), field_error ''size'')] @
     map (\<lambda>k. (optional_string (raw_field raw k), field_error k)) optional_keys @
     [(headers_ok (raw_field raw ''headers''), field_error ''headers''),
      (sha256_ok (raw_field raw ''sha256''), field_error ''sha256''),
      (verification_ok (raw_field raw ''verification''), field_error ''verification'')] @
     body_rules raw"

text \<open>The message a rule-abiding object denotes.\<close>

fun headers_of :: "json option \<Rightarrow> (js_string \<times> js_string) list" where
  "headers_of (Some (JObj ob)) = map (\<lambda>(k, v). (k, the (string_of (Some v)))) ob"
| "headers_of _ = []"

fun verification_of :: "json option \<Rightarrow> Verification option" where
  "verification_of (Some (JObj ob)) =
     Some \<lparr>status = the (string_of (map_of ob (js ''status''))),
           flagged = (map_of ob (js ''flagged'') = Some (JBool True))\<rparr>"
| "verification_of _ = None"

definition message_of :: "json_object \<Rightarrow> Message" where
  "message_of raw =
     (let str = (\<lambda>k. string_of (raw_field raw k)); num = (\<lambda>k. the (number_of (raw_field raw k)));
          body = body_of (raw_field raw ''body_base64'')
      in \<lparr>msg_v = num ''v'', msg_id = the (str ''id''), source_id = the (str ''source_id''),
          tenant_id = str ''tenant_id'', received_at = num ''received_at'', content_type = str ''content_type'',
          msg_size = num ''size'', body_base64 = map_option base64_encode body, msg_claim = str ''claim'',
          msg_sha256 = str ''sha256'', dedupe_key = str ''dedupe_key'', replay_id = str ''replay_id'',
          idempotency_key = str ''idempotency_key'', msg_headers = headers_of (raw_field raw ''headers''),
          msg_verification = verification_of (raw_field raw ''verification''), traceparent = str ''traceparent'',
          tracestate = str ''tracestate'', msg_instance = str ''instance'', msg_region = str ''region'',
          event_type = str ''event_type'', msg_body = body\<rparr>)"

section \<open>The decoder implements the contract\<close>

text \<open>Each step of the decoder is a rule and the value it reads.\<close>

lemma decode_version_step:
  "decode_version v = (if version_ok v then Inr (the (number_of v)) else Inl (message_error unsupported_version))"
proof (cases "number_of v")
  case None
  then show ?thesis by (cases v rule: version_ok.cases) (auto simp: decode_version_def)
next
  case (Some n)
  then have v: "v = Some (JNum n)" by (cases v rule: number_of.cases) auto
  have "num_is_integer n \<and> \<not> num_less n (Fin 1) \<and> \<not> num_less (Fin 2) n \<longleftrightarrow> n = Fin 1 \<or> n = Fin 2"
  proof
    assume *: "num_is_integer n \<and> \<not> num_less n (Fin 1) \<and> \<not> num_less (Fin 2) n"
    then obtain k where k: "n = Fin (of_int k)" by (auto simp: num_is_integer_iff)
    with * have "1 \<le> k" "k \<le> 2" by simp_all
    then have "k = 1 \<or> k = 2" by linarith
    with k show "n = Fin 1 \<or> n = Fin 2" by auto
  qed auto
  then show ?thesis
    by (auto simp: decode_version_def v MIN_SUPPORTED_VERSION_def MAX_SUPPORTED_VERSION_def)
qed

lemma string_step:
  "(case string_of v of None \<Rightarrow> e | Some s \<Rightarrow> k s) = (if is_string v then k (the (string_of v)) else e)"
  by (cases v rule: is_string.cases) auto

lemma nonempty_step:
  "(case string_of v of None \<Rightarrow> e | Some s \<Rightarrow> if length s = 0 then e else k s)
    = (if nonempty_string v then k (the (string_of v)) else e)"
  by (cases v rule: nonempty_string.cases) auto

lemma integer_step:
  "(case number_of v of None \<Rightarrow> e | Some n \<Rightarrow> if \<not> num_is_integer n then e else k n)
    = (if is_integer v then k (the (number_of v)) else e)"
  by (cases v rule: is_integer.cases) auto

lemma natural_step:
  "(case number_of v of None \<Rightarrow> e | Some n \<Rightarrow> if \<not> num_is_integer n \<or> num_less n (Fin 0) then e else k n)
    = (if is_natural v then k (the (number_of v)) else e)"
  by (cases v rule: is_natural.cases) auto

lemma string_of_None: "string_of v \<noteq> None \<longleftrightarrow> is_string v"
  by (cases v rule: is_string.cases) auto

lemma check_optional_step:
  "check_optional raw ks =
     (case first_violation (map (\<lambda>k. (optional_string (raw_field raw k), field_error k)) ks) of
        None \<Rightarrow> Inr () | Some e \<Rightarrow> Inl e)"
  by (induction ks) (auto simp: optional_string_def string_of_None Let_def simp del: not_None_eq)

lemma string_entries_step:
  "string_entries ob =
     (if list_all (\<lambda>(k, v). is_string (Some v)) ob then Some (map (\<lambda>(k, v). (k, the (string_of (Some v)))) ob)
      else None)"
  by (induction ob rule: string_entries.induct) (auto split: json.splits)

lemma decode_headers_step:
  "decode_headers v = (if headers_ok v then Inr (headers_of v) else Inl (field_error ''headers''))"
  by (cases v rule: headers_ok.cases) (auto simp: decode_headers_def string_entries_step)

lemma sha256_step:
  "(v \<noteq> None \<and> (case string_of v of None \<Rightarrow> True | Some s \<Rightarrow> \<not> sha256_pattern s)) = (\<not> sha256_ok v)"
  by (cases v rule: sha256_ok.cases) auto

lemma decodeVerification_step:
  "decodeVerification v =
     (if verification_ok v then Inr (verification_of v) else Inl (field_error ''verification''))"
proof (cases v rule: verification_ok.cases)
  case (3 ob)
  show ?thesis
    unfolding 3 decodeVerification_def nullish_def verification_ok.simps
    by (cases "map_of ob (js ''status'')" rule: nonempty_string.cases;
        cases "map_of ob (js ''flagged'')" rule: is_bool.cases) simp_all
qed (auto simp: decodeVerification_def nullish_def)

text \<open>The tenant check and the body form together, for any message built from their results.\<close>

definition claim_step :: "json_object \<Rightarrow> js_number \<Rightarrow>
    (byte list option \<Rightarrow> js_string option \<Rightarrow> ParsedClaimRef option \<Rightarrow> 'm) \<Rightarrow> (InvalidMessageError, 'm) result" where
  "claim_step raw sz k =
     result_bind (decode_body raw sz) (\<lambda>(body, encodedBody, claimRef).
       let tenant = string_of (raw_field raw ''tenant_id'') in
       if (case (tenant, claimRef) of (Some t, Some ref) \<Rightarrow> tenantId ref \<noteq> t | _ \<Rightarrow> False)
       then Inl (message_error tenant_mismatch) else Inr (k body encodedBody claimRef))"

lemma nullish_values: "nullish v \<Longrightarrow> body_of v = None \<and> claim_of v = None \<and> string_of v = None"
  by (auto simp: nullish_def body_of_def claim_of_def)

lemma sha256_ok_string: "sha256_ok v \<Longrightarrow> v = (case string_of v of None \<Rightarrow> None | Some s \<Rightarrow> Some (JStr s))"
  by (cases v rule: sha256_ok.cases) auto

lemma body_step_inline:
  assumes size: "raw_field raw ''size'' = Some (JNum sz)" and sha: "sha256_ok (raw_field raw ''sha256'')"
    and body: "\<not> nullish (raw_field raw ''body_base64'')" and claim: "nullish (raw_field raw ''claim'')"
  shows "claim_step raw sz k =
    (case first_violation (body_rules raw) of
       Some e \<Rightarrow> Inl e
     | None \<Rightarrow> Inr (k (body_of (raw_field raw ''body_base64''))
         (map_option base64_encode (body_of (raw_field raw ''body_base64''))) None))"
proof (cases "base64_ok (raw_field raw ''body_base64'')")
  case False
  then have "string_of (raw_field raw ''body_base64'') = None \<or>
      (\<exists>s. string_of (raw_field raw ''body_base64'') = Some s \<and> \<not> base64_pattern s)"
    by (cases "raw_field raw ''body_base64''" rule: base64_ok.cases) auto
  with False body claim show ?thesis
    by (auto simp: claim_step_def decode_body_def body_rules_def Let_def decodeBase64_def)
next
  case True
  then obtain s where "raw_field raw ''body_base64'' = Some (JStr s)" "base64_pattern s"
    by (cases "raw_field raw ''body_base64''" rule: base64_ok.cases) auto
  then obtain b where s: "raw_field raw ''body_base64'' = Some (JStr s)" "base64_pattern s" "base64_decode s = Some b"
    using base64_decode_pattern [of s] by auto
  then have b: "body_of (Some (JStr s)) = Some b" by (simp add: body_of_def)
  have num: "num_eq (num_of_int (int (length b))) sz \<longleftrightarrow> sz = num_of_int (int (length b))"
    by (auto simp: num_eq_def num_of_int_def round64_def Let_def split: if_splits)
  consider "raw_field raw ''sha256'' = None" | h where "raw_field raw ''sha256'' = Some (JStr h)"
    using sha256_ok_string [OF sha] by (auto split: option.splits)
  then show ?thesis
    using body claim
    by cases (auto simp: claim_step_def decode_body_def body_rules_def Let_def decodeBase64_def s b size num
        split: option.splits)
qed

lemma body_step_claim:
  assumes sha: "sha256_ok (raw_field raw ''sha256'')"
    and body: "nullish (raw_field raw ''body_base64'')" and claim: "\<not> nullish (raw_field raw ''claim'')"
  shows "claim_step raw sz k =
    (case first_violation (body_rules raw) of
       Some e \<Rightarrow> Inl e
     | None \<Rightarrow> Inr (k None None (claim_of (raw_field raw ''claim''))))"
proof (cases "claim_of (raw_field raw ''claim'')")
  case None
  then have "string_of (raw_field raw ''claim'') = None \<or>
      (\<exists>s e. string_of (raw_field raw ''claim'') = Some s \<and> parseClaimRef s = Inl e)"
    by (auto simp: claim_of_def split: option.splits elim: result_value.elims)
  with None body claim show ?thesis
    by (auto simp: claim_step_def decode_body_def body_rules_def Let_def)
next
  case (Some p)
  then obtain c where "string_of (raw_field raw ''claim'') = Some c" "parseClaimRef c = Inr p"
    by (auto simp: claim_of_def split: option.splits)
  with Some body claim show ?thesis
    by (auto simp: claim_step_def decode_body_def body_rules_def Let_def split: option.splits)
qed

lemma body_step:
  assumes "raw_field raw ''size'' = Some (JNum sz)" "sha256_ok (raw_field raw ''sha256'')"
  shows "claim_step raw sz k =
    (case first_violation (body_rules raw) of
       Some e \<Rightarrow> Inl e
     | None \<Rightarrow> Inr (k (body_of (raw_field raw ''body_base64''))
         (map_option base64_encode (body_of (raw_field raw ''body_base64'')))
         (claim_of (raw_field raw ''claim''))))"
proof -
  let ?b = "nullish (raw_field raw ''body_base64'')" and ?c = "nullish (raw_field raw ''claim'')"
  consider "\<not> ?b" "?c" | "?b" "\<not> ?c" | "?b = ?c" by blast
  then show ?thesis
  proof cases
    case 1
    then have none: "claim_of (raw_field raw ''claim'') = None" using nullish_values by blast
    show ?thesis unfolding none by (rule body_step_inline [OF assms 1])
  next
    case 2
    then have none: "body_of (raw_field raw ''body_base64'') = None" using nullish_values by blast
    show ?thesis unfolding none option.map by (rule body_step_claim [OF assms(2) 2])
  next
    case 3
    then show ?thesis by (auto simp: claim_step_def decode_body_def body_rules_def Let_def)
  qed
qed

lemma decode_object_step:
  "decode_object raw =
     (if version_ok (raw_field raw ''v'') then
      if nonempty_string (raw_field raw ''id'') then
      if is_string (raw_field raw ''source_id'') then
      if is_integer (raw_field raw ''received_at'') then
      if is_natural (raw_field raw ''size'') then
      (case first_violation (map (\<lambda>k. (optional_string (raw_field raw k), field_error k)) optional_keys) of
         Some e \<Rightarrow> Inl e
       | None \<Rightarrow>
           if headers_ok (raw_field raw ''headers'') then
           if sha256_ok (raw_field raw ''sha256'') then
           if verification_ok (raw_field raw ''verification'') then
             claim_step raw (the (number_of (raw_field raw ''size''))) (\<lambda>body enc ref.
               (message_of raw)\<lparr>msg_body := body, body_base64 := enc,
                  msg_claim := (case ref of None \<Rightarrow> None | Some _ \<Rightarrow> string_of (raw_field raw ''claim''))\<rparr>)
           else Inl (field_error ''verification'')
           else Inl (field_error ''sha256'')
           else Inl (field_error ''headers''))
      else Inl (field_error ''size'')
      else Inl (field_error ''received_at'')
      else Inl (field_error ''source_id'')
      else Inl (field_error ''id'')
      else Inl (message_error unsupported_version))"
  unfolding decode_object_def Let_def sha256_step
  unfolding decode_version_step nonempty_step string_step integer_step natural_step
    decode_headers_step decodeVerification_step check_optional_step claim_step_def message_of_def Let_def
  by (simp split: option.split cong: if_cong)

lemma rule_case:
  "(case first_violation ((b, e) # rs) of Some x \<Rightarrow> Inl x | None \<Rightarrow> r) =
     (if b then (case first_violation rs of Some x \<Rightarrow> Inl x | None \<Rightarrow> r) else Inl e)"
  by simp

lemma rule_case_append:
  "(case first_violation (rs @ rs') of Some x \<Rightarrow> Inl x | None \<Rightarrow> r) =
     (case first_violation rs of Some x \<Rightarrow> Inl x
      | None \<Rightarrow> (case first_violation rs' of Some x \<Rightarrow> Inl x | None \<Rightarrow> r))"
  by (simp add: first_violation_append split: option.split)

lemma claim_reading:
  assumes "first_violation (body_rules raw) = None"
  shows "(case claim_of (raw_field raw ''claim'') of None \<Rightarrow> None | Some _ \<Rightarrow> string_of (raw_field raw ''claim''))
    = string_of (raw_field raw ''claim'')"
  using assms nullish_values by (auto simp: body_rules_def Let_def split: if_splits option.splits)

lemma body_rules_step:
  assumes "is_natural (raw_field raw ''size'')" "sha256_ok (raw_field raw ''sha256'')"
  shows "claim_step raw (the (number_of (raw_field raw ''size''))) (\<lambda>body enc ref.
      (message_of raw)\<lparr>msg_body := body, body_base64 := enc,
         msg_claim := (case ref of None \<Rightarrow> None | Some _ \<Rightarrow> string_of (raw_field raw ''claim''))\<rparr>)
    = (case first_violation (body_rules raw) of Some e \<Rightarrow> Inl e | None \<Rightarrow> Inr (message_of raw))"
proof -
  obtain sz where sz: "raw_field raw ''size'' = Some (JNum sz)"
    using assms(1) by (cases "raw_field raw ''size''" rule: is_natural.cases) auto
  show ?thesis
    unfolding body_step [OF sz assms(2)] sz number_of.simps option.sel
    by (auto simp: claim_reading message_of_def Let_def split: option.split)
qed

lemma decode_object_by_rules:
  "decode_object raw =
     (case first_violation (message_rules raw) of Some e \<Rightarrow> Inl e | None \<Rightarrow> Inr (message_of raw))"
  unfolding decode_object_step message_rules_def append_Cons append_Nil rule_case rule_case_append
  by (simp add: body_rules_step split: option.split)

interpretation msg: strict_decoder decode_object message_rules message_of
  by unfold_locales (rule decode_object_by_rules)

section \<open>Properties of decoding\<close>

text \<open>
  C2. \<open>decodeMessage\<close> implements the conformance contract exactly, as a function: text that is not
  JSON is \<open>invalid_json\<close>, JSON that is not an object is \<open>not_an_object\<close>, and for an object the
  first rule it breaks, in the contract's order, decides the error; an object that breaks none is
  decoded to the message it denotes.
\<close>

theorem decodeMessage_contract:
  "decodeMessage data =
     (case JSON_parse (payload_text data) of
        None \<Rightarrow> Inl \<lparr>msg_code = invalid_json, msg_field = None\<rparr>
      | Some (JObj raw) \<Rightarrow>
          (case first_violation (message_rules raw) of Some e \<Rightarrow> Inl e | None \<Rightarrow> Inr (message_of raw))
      | Some _ \<Rightarrow> Inl \<lparr>msg_code = not_an_object, msg_field = None\<rparr>)"
  by (simp add: decodeMessage_def msg.by_rules message_error_def split: option.split json.split)

text \<open>What a consumer may rely on: the invariant of decoded messages.\<close>

definition message_wf :: "Message \<Rightarrow> bool" where
  "message_wf m \<longleftrightarrow>
     (msg_v m = Fin 1 \<or> msg_v m = Fin 2) \<and> msg_id m \<noteq> [] \<and> num_is_integer (received_at m) \<and>
     num_is_integer (msg_size m) \<and> \<not> num_less (msg_size m) (Fin 0) \<and>
     (case msg_sha256 m of None \<Rightarrow> True | Some s \<Rightarrow> sha256_pattern s) \<and>
     (case msg_verification m of None \<Rightarrow> True | Some v \<Rightarrow> status v \<noteq> []) \<and>
     (case (msg_body m, msg_claim m) of
        (Some b, None) \<Rightarrow>
          body_base64 m = Some (base64_encode b) \<and> msg_size m = num_of_int (int (length b)) \<and>
          (msg_sha256 m = None \<or> msg_sha256 m = Some (sha256_hex b))
      | (None, Some c) \<Rightarrow>
          body_base64 m = None \<and> msg_sha256 m \<noteq> None \<and>
          (case parseClaimRef c of
             Inl _ \<Rightarrow> False
           | Inr p \<Rightarrow> tenant_id m = None \<or> tenant_id m = Some (tenantId p))
      | _ \<Rightarrow> False)"

lemma is_string_value: "is_string v \<Longrightarrow> \<exists>s. v = Some (JStr s)"
  by (cases v rule: is_string.cases) auto

lemma base64_ok_value: "base64_ok v \<Longrightarrow> \<exists>b. body_of v = Some b"
  by (cases v rule: base64_ok.cases) (auto simp: body_of_def simp flip: base64_decode_pattern)

lemma verification_ok_value: "verification_ok v \<Longrightarrow> verification_of v = Some w \<Longrightarrow> status w \<noteq> []"
  by (cases v rule: verification_ok.cases) (auto elim!: nonempty_string.elims)

lemma message_fields_wf:
  assumes "list_all fst (message_rules raw)"
  defines "m \<equiv> message_of raw"
  shows "msg_v m = Fin 1 \<or> msg_v m = Fin 2" "msg_id m \<noteq> []" "num_is_integer (received_at m)"
    "num_is_integer (msg_size m)" "\<not> num_less (msg_size m) (Fin 0)"
    "case msg_sha256 m of None \<Rightarrow> True | Some s \<Rightarrow> sha256_pattern s"
    "case msg_verification m of None \<Rightarrow> True | Some v \<Rightarrow> status v \<noteq> []"
  using assms
  by (auto simp: message_rules_def message_of_def Let_def split: option.split dest: verification_ok_value
      elim!: version_ok.elims nonempty_string.elims is_integer.elims is_natural.elims sha256_ok.elims)

lemma message_body_wf:
  assumes "list_all fst (message_rules raw)"
  defines "m \<equiv> message_of raw"
  shows "case (msg_body m, msg_claim m) of
        (Some b, None) \<Rightarrow>
          body_base64 m = Some (base64_encode b) \<and> msg_size m = num_of_int (int (length b)) \<and>
          (msg_sha256 m = None \<or> msg_sha256 m = Some (sha256_hex b))
      | (None, Some c) \<Rightarrow>
          body_base64 m = None \<and> msg_sha256 m \<noteq> None \<and>
          (case parseClaimRef c of
             Inl _ \<Rightarrow> False
           | Inr p \<Rightarrow> tenant_id m = None \<or> tenant_id m = Some (tenantId p))
      | _ \<Rightarrow> False"
proof -
  let ?b = "raw_field raw ''body_base64''" and ?c = "raw_field raw ''claim''"
  have rules: "list_all fst (body_rules raw)" and sha: "sha256_ok (raw_field raw ''sha256'')"
    using assms(1) by (simp_all add: message_rules_def)
  then consider "\<not> nullish ?b" "nullish ?c" | "nullish ?b" "\<not> nullish ?c"
    by (auto simp: body_rules_def Let_def)
  then show ?thesis
  proof cases
    case 1
    with rules obtain b where b: "body_of ?b = Some b"
      using base64_ok_value by (auto simp: body_rules_def Let_def)
    with 1 rules nullish_values [of ?c] show ?thesis
      by (auto simp: m_def message_of_def body_rules_def Let_def)
  next
    case 2
    with rules obtain p where "claim_of ?c = Some p" by (auto simp: body_rules_def Let_def)
    then obtain c where c: "string_of ?c = Some c" "parseClaimRef c = Inr p" "claim_of ?c = Some p"
      by (auto simp: claim_of_def split: option.splits)
    with 2 rules nullish_values [of ?b] sha256_ok_string [OF sha] show ?thesis
      by (auto simp: m_def message_of_def body_rules_def Let_def split: option.splits)
  qed
qed

lemma decode_object_wf: "decode_object raw = Inr m \<Longrightarrow> message_wf m"
  unfolding msg.accepts_iff message_wf_def using message_fields_wf message_body_wf by blast

text \<open>
  C7. Every decoded message is well-formed and its body verified: a version 1 or 2, a non-empty id,
  whole-number times and sizes, and exactly one body form. An inline body has the announced size
  and, when a digest was sent, that digest; a claim has a well-formed reference, a digest to redeem
  it with, and the message's own tenant when the message names one.
\<close>

theorem decodeMessage_sound: "case decodeMessage data of Inl _ \<Rightarrow> True | Inr m \<Rightarrow> message_wf m"
  by (auto simp: decodeMessage_def decode_object_wf split: sum.split option.splits json.splits)

section \<open>Serializing a decoded message\<close>

text \<open>
  The own enumerable properties of a decoded message, which is what \<open>JSON.stringify\<close> writes: the
  decoded body is not among them, and an absent value is \<open>null\<close>.
\<close>

definition string_json :: "js_string option \<Rightarrow> json" where
  "string_json v = (case v of None \<Rightarrow> JNull | Some s \<Rightarrow> JStr s)"

definition message_json :: "Message \<Rightarrow> json_object" where
  "message_json m =
     [(js ''v'', JNum (msg_v m)), (js ''id'', JStr (msg_id m)), (js ''source_id'', JStr (source_id m)),
      (js ''tenant_id'', string_json (tenant_id m)), (js ''received_at'', JNum (received_at m)),
      (js ''content_type'', string_json (content_type m)), (js ''size'', JNum (msg_size m)),
      (js ''body_base64'', string_json (body_base64 m)), (js ''claim'', string_json (msg_claim m)),
      (js ''sha256'', string_json (msg_sha256 m)), (js ''dedupe_key'', string_json (dedupe_key m)),
      (js ''replay_id'', string_json (replay_id m)), (js ''idempotency_key'', string_json (idempotency_key m)),
      (js ''headers'', JObj (map (\<lambda>(k, s). (k, JStr s)) (msg_headers m))),
      (js ''verification'', (case msg_verification m of None \<Rightarrow> JNull
         | Some v \<Rightarrow> JObj [(js ''status'', JStr (status v)), (js ''flagged'', JBool (flagged v))])),
      (js ''traceparent'', string_json (traceparent m)), (js ''tracestate'', string_json (tracestate m)),
      (js ''instance'', string_json (msg_instance m)), (js ''region'', string_json (msg_region m)),
      (js ''event_type'', string_json (event_type m))]"

lemma string_json_simps [simp]:
  "string_of (Some (string_json v)) = v" "nullish (Some (string_json v)) = (v = None)"
  "optional_string (Some (string_json v))" "string_json None = JNull" "string_json (Some s) = JStr s"
  by (cases v; simp add: string_json_def nullish_def optional_string_def)+

lemma raw_field_Cons: "raw_field ((js k, v) # raw) j = (if j = k then Some v else raw_field raw j)"
  by (simp add: raw_field_def)

lemma message_json_fields:
  fixes m
  defines "f \<equiv> raw_field (message_json m)"
  shows "f ''v'' = Some (JNum (msg_v m))" "f ''id'' = Some (JStr (msg_id m))"
    "f ''source_id'' = Some (JStr (source_id m))" "f ''tenant_id'' = Some (string_json (tenant_id m))"
    "f ''received_at'' = Some (JNum (received_at m))" "f ''content_type'' = Some (string_json (content_type m))"
    "f ''size'' = Some (JNum (msg_size m))" "f ''body_base64'' = Some (string_json (body_base64 m))"
    "f ''claim'' = Some (string_json (msg_claim m))" "f ''sha256'' = Some (string_json (msg_sha256 m))"
    "f ''dedupe_key'' = Some (string_json (dedupe_key m))" "f ''replay_id'' = Some (string_json (replay_id m))"
    "f ''idempotency_key'' = Some (string_json (idempotency_key m))"
    "f ''headers'' = Some (JObj (map (\<lambda>(k, s). (k, JStr s)) (msg_headers m)))"
    "f ''verification'' = Some (case msg_verification m of None \<Rightarrow> JNull
         | Some v \<Rightarrow> JObj [(js ''status'', JStr (status v)), (js ''flagged'', JBool (flagged v))])"
    "f ''traceparent'' = Some (string_json (traceparent m))" "f ''tracestate'' = Some (string_json (tracestate m))"
    "f ''instance'' = Some (string_json (msg_instance m))" "f ''region'' = Some (string_json (msg_region m))"
    "f ''event_type'' = Some (string_json (event_type m))"
  unfolding f_def message_json_def by (simp_all add: raw_field_Cons)

lemma headers_of_json: "headers_of (Some (JObj (map (\<lambda>(k, s). (k, JStr s)) hs))) = hs"
  by (induction hs) auto

lemma message_of_json:
  assumes "msg_body m = body_of (Some (string_json (body_base64 m)))"
    and "body_base64 m = map_option base64_encode (msg_body m)"
  shows "message_of (message_json m) = m"
proof -
  have "verification_of (Some (case msg_verification m of None \<Rightarrow> JNull
      | Some v \<Rightarrow> JObj [(js ''status'', JStr (status v)), (js ''flagged'', JBool (flagged v))])) = msg_verification m"
    by (cases "msg_verification m") auto
  then show ?thesis
    using assms by (simp add: message_of_def Let_def message_json_fields headers_of_json del: headers_of.simps)
qed

text \<open>The rules on an object that was written from a well-formed message.\<close>

lemma message_json_head_rules:
  assumes "message_wf m"
  defines "raw \<equiv> message_json m"
  shows "version_ok (raw_field raw ''v'')" "nonempty_string (raw_field raw ''id'')"
    "is_string (raw_field raw ''source_id'')" "is_integer (raw_field raw ''received_at'')"
    "is_natural (raw_field raw ''size'')"
    "list_all (\<lambda>k. optional_string (raw_field raw k)) optional_keys"
    "headers_ok (raw_field raw ''headers'')" "verification_ok (raw_field raw ''verification'')"
proof -
  have "list_all (\<lambda>(k, v). is_string (Some v)) (map (\<lambda>(k, s). (k, JStr s)) (msg_headers m))"
    by (auto simp: list_all_iff)
  with assms(1) show "version_ok (raw_field raw ''v'')" "nonempty_string (raw_field raw ''id'')"
    "is_string (raw_field raw ''source_id'')" "is_integer (raw_field raw ''received_at'')"
    "is_natural (raw_field raw ''size'')"
    "list_all (\<lambda>k. optional_string (raw_field raw k)) optional_keys"
    "headers_ok (raw_field raw ''headers'')" "verification_ok (raw_field raw ''verification'')"
    by (simp_all add: raw_def message_json_fields message_wf_def optional_keys_def split: option.splits)
qed

lemma message_json_body:
  assumes "message_wf m"
  shows "msg_body m = body_of (Some (string_json (body_base64 m)))"
    "body_base64 m = map_option base64_encode (msg_body m)"
  using assms by (auto simp: message_wf_def body_of_def split: option.splits)

lemma message_json_body_rules:
  assumes "message_wf m" "msg_sha256 m = Some s"
  shows "list_all fst (body_rules (message_json m))"
  using assms
  by (auto simp: message_wf_def body_rules_def Let_def message_json_fields body_of_def claim_of_def
      split: option.splits sum.splits)

text \<open>
  Decoding is stable under serialization when the producer sent a digest: the object that
  \<open>JSON.stringify\<close> writes for a well-formed message with a \<open>sha256\<close> decodes to the same message.
\<close>

lemma redecode:
  assumes "message_wf m" "msg_sha256 m \<noteq> None"
  shows "decode_object (message_json m) = Inr m"
proof -
  obtain s where s: "msg_sha256 m = Some s" using assms(2) by blast
  then have "sha256_ok (raw_field (message_json m) ''sha256'')"
    using assms(1) by (simp add: message_json_fields message_wf_def)
  then have "list_all fst (message_rules (message_json m))"
    using message_json_head_rules [OF assms(1)] message_json_body_rules [OF assms(1) s]
    by (auto simp: message_rules_def list_all_iff)
  then show ?thesis
    using message_of_json [OF message_json_body [OF assms(1)]] by (simp add: msg.accepts_iff)
qed

text \<open>
  Without a digest it is not: the \<open>null\<close> a decoded message holds for an absent \<open>sha256\<close> is not
  accepted back, so a serialized message without a digest is refused with \<open>invalid_field\<close> for
  \<open>sha256\<close>.
\<close>

lemma redecode_without_digest:
  assumes "message_wf m" "msg_sha256 m = None"
  shows "decode_object (message_json m) = Inl \<lparr>msg_code = invalid_field, msg_field = Some ''sha256''\<rparr>"
proof -
  have "\<not> sha256_ok (raw_field (message_json m) ''sha256'')"
    using assms by (simp add: message_json_fields)
  moreover have "first_violation (map (\<lambda>k. (optional_string (raw_field (message_json m) k), field_error k)) optional_keys) = None"
    using message_json_head_rules [OF assms(1)] by (simp add: first_violation_None_iff list_all_iff)
  ultimately show ?thesis
    using message_json_head_rules [OF assms(1)]
    by (simp add: decode_object_step field_error_def)
qed

text \<open>A message, for the examples: an inline body with or without its digest.\<close>

definition example_message :: "js_string option \<Rightarrow> Message" where
  "example_message sha =
     \<lparr>msg_v = Fin 1, msg_id = js ''01J9'', source_id = js ''stripe'', tenant_id = Some (js ''acme''),
      received_at = Fin 1700000000000, content_type = None, msg_size = num_of_int (int (length [1, 2 :: byte])),
      body_base64 = Some (base64_encode [1, 2]), msg_claim = None, msg_sha256 = sha,
      dedupe_key = Some (js ''evt_1''), replay_id = None, idempotency_key = None, msg_headers = [],
      msg_verification = Some \<lparr>status = js ''ok'', flagged = False\<rparr>, traceparent = None, tracestate = None,
      msg_instance = None, msg_region = None, event_type = None, msg_body = Some [1, 2]\<rparr>"

lemma example_message_wf:
  "message_wf (example_message (Some (sha256_hex [1, 2])))" "message_wf (example_message None)"
  by (simp_all add: message_wf_def example_message_def num_of_int_safe sha.hex_pattern del: base64_encode.simps)

text \<open>The numbers and header names of a message are such that its text is read back exactly.\<close>

definition message_printable :: "Message \<Rightarrow> bool" where
  "message_printable m \<longleftrightarrow>
     safe_number (received_at m) \<and> safe_number (msg_size m) \<and> distinct (map fst (msg_headers m))"

lemma string_json_printable [simp]: "json_wf (string_json v)" "safe_json (string_json v)"
  by (cases v; simp)+

lemma message_json_printable:
  assumes "message_wf m" "message_printable m"
  shows "json_wf (JObj (message_json m))" "safe_json (JObj (message_json m))"
  using assms
  by (auto simp: message_json_def message_wf_def message_printable_def list_all_iff split_beta o_def js_eval
      split: option.split)

lemma stringified_object_text:
  assumes "number_law num" "json_wf (JObj ob)" "safe_json (JObj ob)"
  defines "s \<equiv> JSON_stringify num (JObj ob)"
  shows "JSON_parse (payload_text (Text s)) = Some (JObj ob)"
    "JSON_parse (payload_text (Bytes (utf8_encode s))) = Some (JObj ob)"
proof -
  have "well_formed s" using assms by (simp only: s_def stringify_well_formed)
  moreover have "\<not> starts_with [0xFEFF] s" by (simp add: s_def starts_with_def)
  moreover have "JSON_parse s = Some (JObj ob)"
    unfolding s_def by (rule JSON_parse_stringify [OF assms(1-3)])
  ultimately show "JSON_parse (payload_text (Text s)) = Some (JObj ob)"
    "JSON_parse (payload_text (Bytes (utf8_encode s))) = Some (JObj ob)"
    by (simp_all add: utf8_decode_encode)
qed

text \<open>
  C17. A decoded message goes back on a queue and is decoded again as the same message, exactly when
  its producer sent a digest: the text \<open>JSON.stringify\<close> writes for a well-formed message, as a string or
  as its UTF-8 bytes, decodes to that message if it has a \<open>sha256\<close>, and is otherwise refused with
  \<open>invalid_field\<close> for \<open>sha256\<close>, because an absent digest is written as \<open>null\<close>. The printer of numbers is any
  that writes whole numbers below \<open>2^53\<close> in decimal.
\<close>

theorem reserialized:
  assumes "number_law num" "message_wf m" "message_printable m"
    and "data = Text (JSON_stringify num (JObj (message_json m))) \<or>
      data = Bytes (utf8_encode (JSON_stringify num (JObj (message_json m))))"
  shows "decodeMessage data =
    (if msg_sha256 m = None then Inl \<lparr>msg_code = invalid_field, msg_field = Some ''sha256''\<rparr> else Inr m)"
proof -
  have "JSON_parse (payload_text data) = Some (JObj (message_json m))"
    using stringified_object_text [OF assms(1) message_json_printable [OF assms(2,3)]] assms(4) by blast
  then show ?thesis
    using redecode [OF assms(2)] redecode_without_digest [OF assms(2)] by (simp add: decodeMessage_def)
qed

theorem reserialized_witness:
  "decodeMessage (Bytes (utf8_encode (JSON_stringify whole_text
     (JObj (message_json (example_message (Some (sha256_hex [1, 2])))))))) =
     Inr (example_message (Some (sha256_hex [1, 2])))"
  using reserialized [OF whole_text_law example_message_wf(1) _ disjI2 [OF refl]]
  by (simp add: message_printable_def example_message_def num_of_int_safe del: base64_encode.simps)

text \<open>The keys the decoder reads.\<close>

definition message_keys :: "string list" where
  "message_keys = [''v'', ''id'', ''source_id'', ''received_at'', ''size'', ''headers'', ''sha256'',
     ''verification'', ''body_base64'', ''claim''] @ optional_keys"

text \<open>
  Unknown keys are ignored: two objects that agree on the keys of the format decode alike, so a key
  a later producer adds does not change what is decoded.
\<close>

lemma unknown_keys_ignored:
  assumes "\<forall>k\<in>set message_keys. raw_field raw k = raw_field raw' k"
  shows "decode_object raw = decode_object raw'"
proof -
  have "message_rules raw = message_rules raw'"
    using assms by (simp add: message_rules_def body_rules_def message_keys_def optional_keys_def)
  moreover have "message_of raw = message_of raw'"
    using assms by (simp add: message_of_def message_keys_def optional_keys_def)
  ultimately show ?thesis unfolding msg.by_rules by (simp split: option.split)
qed

section \<open>Properties of the key and of trust\<close>

definition effective_tenant :: "js_string option \<Rightarrow> js_string" where
  "effective_tenant t = (case t of None \<Rightarrow> js ''default'' | Some s \<Rightarrow> s)"

lemma computed_key_cases:
  "computed_key t s d i =
     (case or_null d of None \<Rightarrow> i | Some e \<Rightarrow> effective_tenant t @ 0x3A # s @ 0x3A # e)"
  by (cases d) (auto simp: computed_key_def effective_tenant_def)

lemma computed_key_eq_iff:
  assumes "0x3A \<notin> set (effective_tenant t)" "0x3A \<notin> set s" "0x3A \<notin> set i"
    and "0x3A \<notin> set (effective_tenant t')" "0x3A \<notin> set s'" "0x3A \<notin> set i'"
  shows "computed_key t s d i = computed_key t' s' d' i' \<longleftrightarrow>
     (case (or_null d, or_null d') of
        (Some e, Some e') \<Rightarrow> effective_tenant t = effective_tenant t' \<and> s = s' \<and> e = e'
      | (None, None) \<Rightarrow> i = i'
      | _ \<Rightarrow> False)"
proof -
  have colon: "i \<noteq> x @ 0x3A # y" "x @ 0x3A # y \<noteq> i'" for x y
    using assms by auto
  have key: "effective_tenant t @ 0x3A # s @ 0x3A # e = effective_tenant t' @ 0x3A # s' @ 0x3A # e' \<longleftrightarrow>
      effective_tenant t = effective_tenant t' \<and> s = s' \<and> e = e'" for e e'
    using first_sep_unique [of "effective_tenant t" "0x3A" "s @ 0x3A # e" "effective_tenant t'" "s' @ 0x3A # e'"]
      first_sep_unique [of s "0x3A" e s' e'] assms by blast
  show ?thesis
    by (cases "or_null d"; cases "or_null d'") (simp_all add: computed_key_cases key colon)
qed

text \<open>
  C31. The computed key identifies the event: for hooks without a shipped key whose tenant, source
  and id have no colon, two hooks get the same key exactly when they are the same provider event
  (same effective tenant, source and dedupe key) or, without a dedupe key, the same hook id. A
  tenant-less hook shares the keys of the tenant named \<open>default\<close>.
\<close>

theorem idempotencyKey_identifies:
  assumes "hook_parts h = (k, t, s, d, i, r)" "or_null k = None"
    and "hook_parts h' = (k', t', s', d', i', r')" "or_null k' = None"
    and "0x3A \<notin> set (effective_tenant t)" "0x3A \<notin> set s" "0x3A \<notin> set i"
    and "0x3A \<notin> set (effective_tenant t')" "0x3A \<notin> set s'" "0x3A \<notin> set i'"
  shows "idempotencyKey no_options h = idempotencyKey no_options h' \<longleftrightarrow>
     (case (or_null d, or_null d') of
        (Some e, Some e') \<Rightarrow> effective_tenant t = effective_tenant t' \<and> s = s' \<and> e = e'
      | (None, None) \<Rightarrow> i = i'
      | _ \<Rightarrow> False)"
proof -
  have "k = None \<or> k = Some []" "k' = None \<or> k' = Some []"
    using assms(2,4) by (cases k; cases k'; auto split: if_splits)+
  then have "idempotencyKey no_options h = computed_key t s d i" "idempotencyKey no_options h' = computed_key t' s' d' i'"
    using assms(1,3) by (auto simp: idempotencyKey_def no_options_def Let_def split: option.split)
  then show ?thesis using computed_key_eq_iff [OF assms(5-10)] by simp
qed

theorem idempotencyKey_identifies_witness:
  "idempotencyKey no_options (AMessage (example_message None)) =
   idempotencyKey no_options (AMessage ((example_message None)\<lparr>msg_id := js ''01JA''\<rparr>))"
proof -
  have parts: "hook_parts (AMessage (example_message None)) =
      (None, Some (js ''acme''), js ''stripe'', Some (js ''evt_1''), js ''01J9'', None)"
    "hook_parts (AMessage ((example_message None)\<lparr>msg_id := js ''01JA''\<rparr>)) =
      (None, Some (js ''acme''), js ''stripe'', Some (js ''evt_1''), js ''01JA'', None)"
    by (simp_all add: example_message_def)
  have "0x3A \<notin> set (effective_tenant (Some (js ''acme'')))" "0x3A \<notin> set (js ''stripe'')"
    "0x3A \<notin> set (js ''01J9'')" "0x3A \<notin> set (js ''01JA'')"
    by (simp_all add: effective_tenant_def js_eval)
  then show ?thesis
    by (simp add: idempotencyKey_identifies [OF parts(1) _ parts(2)])
qed

text \<open>
  Trust fails closed, for both kinds of hook: a decoded message is trusted only when it carries
  an object with the status \<open>ok\<close> and \<open>flagged\<close> false, and a parsed delivery only when its status
  header is \<open>ok\<close> and its flag header is not \<open>true\<close>. A hook without verification is untrusted.
\<close>

lemma isTrusted_iff:
  "(decode_object raw = Inr m \<longrightarrow>
      (isTrusted (AMessage m) \<longleftrightarrow>
         (\<exists>ob. raw_field raw ''verification'' = Some (JObj ob) \<and>
            map_of ob (js ''status'') = Some (JStr (js ''ok'')) \<and> map_of ob (js ''flagged'') = Some (JBool False)))) \<and>
   (parseHeaders hs = Inr i \<longrightarrow>
      (isTrusted (AHook i) \<longleftrightarrow>
         lowered_headers hs (js ''x-ankusa-verification'') = Some (js ''ok'') \<and>
         lowered_headers hs (js ''x-ankusa-verification-flagged'') \<noteq> Some (js ''true'')))"
proof (intro conjI impI)
  assume "decode_object raw = Inr m"
  then have v: "verification_ok (raw_field raw ''verification'')"
    and m: "msg_verification m = verification_of (raw_field raw ''verification'')"
    by (auto simp: msg.accepts_iff message_rules_def message_of_def Let_def)
  show "isTrusted (AMessage m) \<longleftrightarrow>
      (\<exists>ob. raw_field raw ''verification'' = Some (JObj ob) \<and>
         map_of ob (js ''status'') = Some (JStr (js ''ok'')) \<and> map_of ob (js ''flagged'') = Some (JBool False))"
    using v
    by (cases "raw_field raw ''verification''" rule: verification_ok.cases)
      (auto simp: m elim!: nonempty_string.elims is_bool.elims)
next
  assume "parseHeaders hs = Inr i"
  then have "verification i = parseVerificationHeaders (lowered_headers hs)"
    by (auto simp: parseHeaders_def Let_def split: option.splits)
  then show "isTrusted (AHook i) \<longleftrightarrow>
      lowered_headers hs (js ''x-ankusa-verification'') = Some (js ''ok'') \<and>
      lowered_headers hs (js ''x-ankusa-verification-flagged'') \<noteq> Some (js ''true'')"
    by (cases "lowered_headers hs (js ''x-ankusa-verification'')") (auto simp: parseVerificationHeaders_def)
qed

end
