(* ===== verification/Lifecycle.thy ===== *)
theory Lifecycle
  imports Message
begin

text \<open>
  Lifecycle events, \<open>lifecycle/index.ts\<close>: the strict decoder of the CloudEvents an instance
  publishes about its own changes. The lemmas show that it implements the ordered rules of the
  conformance contract exactly and that what it accepts is passed through unchanged.
\<close>

record LifecycleEvent =
  ev_id :: js_string
  ev_source :: js_string
  ev_type :: js_string
  ev_subject :: js_string
  ev_time :: js_string
  datacontenttype :: "js_string option"
  ev_data :: "json_object option"
  ev_revision :: "js_number option"
  ev_actor :: "js_string option"
  ev_instance :: "js_string option"
  ev_sequence :: "js_string option"
  ev_replayid :: "js_string option"
  ev_traceparent :: "js_string option"
  ev_tracestate :: "js_string option"

definition requiredString :: "json_object \<Rightarrow> string \<Rightarrow> (InvalidMessageError, js_string) result" where
  "requiredString raw key =
     (case string_of (raw_field raw key) of
        None \<Rightarrow> Inl (field_error key)
      | Some s \<Rightarrow> if length s = 0 then Inl (field_error key) else Inr s)"

definition optionalString :: "json_object \<Rightarrow> string \<Rightarrow> (InvalidMessageError, js_string option) result" where
  "optionalString raw key =
     (let v = raw_field raw key
      in if nullish v then Inr None
         else case string_of v of None \<Rightarrow> Inl (field_error key) | Some s \<Rightarrow> Inr (Some s))"

text \<open>The checks on \<open>data\<close>, \<open>revision\<close> and \<open>sequence\<close>, with the value that is passed on.\<close>

definition decode_data :: "json option \<Rightarrow> (InvalidMessageError, json_object option) result" where
  "decode_data v =
     (if nullish v then Inr None
      else case v of Some (JObj ob) \<Rightarrow> Inr (Some ob) | _ \<Rightarrow> Inl (field_error ''data''))"

definition decode_revision :: "json option \<Rightarrow> (InvalidMessageError, js_number option) result" where
  "decode_revision v =
     (if nullish v then Inr None
      else case number_of v of
        None \<Rightarrow> Inl (field_error ''revision'')
      | Some n \<Rightarrow>
          (if \<not> num_is_integer n \<or> num_less n (Fin 1) then Inl (field_error ''revision'') else Inr (Some n)))"

definition decode_sequence :: "json option \<Rightarrow> (InvalidMessageError, js_string option) result" where
  "decode_sequence v =
     (if nullish v then Inr None
      else case string_of v of
        None \<Rightarrow> Inl (field_error ''sequence'')
      | Some s \<Rightarrow>
          (if \<not> (s \<noteq> [] \<and> list_all is_digit s) then Inl (field_error ''sequence'') else Inr (Some s)))"

definition decode_event :: "json_object \<Rightarrow> (InvalidMessageError, LifecycleEvent) result" where
  "decode_event raw =
     (if raw_field raw ''specversion'' \<noteq> Some (JStr (js ''1.0'')) then Inl (message_error unsupported_version)
      else
      result_bind (requiredString raw ''id'') (\<lambda>i.
      result_bind (requiredString raw ''source'') (\<lambda>source.
      result_bind (requiredString raw ''type'') (\<lambda>type.
      result_bind (requiredString raw ''subject'') (\<lambda>subject.
      result_bind (requiredString raw ''time'') (\<lambda>time.
      result_bind (optionalString raw ''datacontenttype'') (\<lambda>contenttype.
      result_bind (decode_data (raw_field raw ''data'')) (\<lambda>body.
      result_bind (decode_revision (raw_field raw ''revision'')) (\<lambda>revision.
      result_bind (optionalString raw ''actor'') (\<lambda>actor.
      result_bind (optionalString raw ''instance'') (\<lambda>inst.
      result_bind (decode_sequence (raw_field raw ''sequence'')) (\<lambda>sequence.
      result_bind (optionalString raw ''replayid'') (\<lambda>replayid.
      result_bind (optionalString raw ''traceparent'') (\<lambda>tparent.
      result_bind (optionalString raw ''tracestate'') (\<lambda>tstate.
      Inr \<lparr>ev_id = i, ev_source = source, ev_type = type, ev_subject = subject, ev_time = time,
        datacontenttype = contenttype, ev_data = body, ev_revision = revision, ev_actor = actor,
        ev_instance = inst, ev_sequence = sequence, ev_replayid = replayid,
        ev_traceparent = tparent, ev_tracestate = tstate\<rparr>)))))))))))))))"

definition decodeLifecycle :: "payload \<Rightarrow> (InvalidMessageError, LifecycleEvent) result" where
  "decodeLifecycle data =
     (case JSON_parse (payload_text data) of
        None \<Rightarrow> Inl (message_error invalid_json)
      | Some (JObj raw) \<Rightarrow> decode_event raw
      | Some _ \<Rightarrow> Inl (message_error not_an_object))"

section \<open>The conformance contract\<close>

fun optional_object :: "json option \<Rightarrow> bool" where
  "optional_object None \<longleftrightarrow> True"
| "optional_object (Some JNull) \<longleftrightarrow> True"
| "optional_object (Some (JObj _)) \<longleftrightarrow> True"
| "optional_object _ \<longleftrightarrow> False"

fun revision_ok :: "json option \<Rightarrow> bool" where
  "revision_ok None \<longleftrightarrow> True"
| "revision_ok (Some JNull) \<longleftrightarrow> True"
| "revision_ok (Some (JNum n)) \<longleftrightarrow> num_is_integer n \<and> \<not> num_less n (Fin 1)"
| "revision_ok _ \<longleftrightarrow> False"

fun sequence_ok :: "json option \<Rightarrow> bool" where
  "sequence_ok None \<longleftrightarrow> True"
| "sequence_ok (Some JNull) \<longleftrightarrow> True"
| "sequence_ok (Some (JStr s)) \<longleftrightarrow> s \<noteq> [] \<and> list_all is_digit s"
| "sequence_ok _ \<longleftrightarrow> False"

definition lifecycle_rules :: "json_object \<Rightarrow> (bool \<times> InvalidMessageError) list" where
  "lifecycle_rules raw =
     [(raw_field raw ''specversion'' = Some (JStr (js ''1.0'')), message_error unsupported_version),
      (nonempty_string (raw_field raw ''id''), field_error ''id''),
      (nonempty_string (raw_field raw ''source''), field_error ''source''),
      (nonempty_string (raw_field raw ''type''), field_error ''type''),
      (nonempty_string (raw_field raw ''subject''), field_error ''subject''),
      (nonempty_string (raw_field raw ''time''), field_error ''time''),
      (optional_string (raw_field raw ''datacontenttype''), field_error ''datacontenttype''),
      (optional_object (raw_field raw ''data''), field_error ''data''),
      (revision_ok (raw_field raw ''revision''), field_error ''revision''),
      (optional_string (raw_field raw ''actor''), field_error ''actor''),
      (optional_string (raw_field raw ''instance''), field_error ''instance''),
      (sequence_ok (raw_field raw ''sequence''), field_error ''sequence''),
      (optional_string (raw_field raw ''replayid''), field_error ''replayid''),
      (optional_string (raw_field raw ''traceparent''), field_error ''traceparent''),
      (optional_string (raw_field raw ''tracestate''), field_error ''tracestate'')]"

fun object_of :: "json option \<Rightarrow> json_object option" where
  "object_of (Some (JObj ob)) = Some ob"
| "object_of _ = None"

text \<open>Every field verbatim; an absent or \<open>null\<close> optional field is \<open>None\<close>.\<close>

definition event_of :: "json_object \<Rightarrow> LifecycleEvent" where
  "event_of raw =
     (let str = (\<lambda>k. string_of (raw_field raw k))
      in \<lparr>ev_id = the (str ''id''), ev_source = the (str ''source''), ev_type = the (str ''type''),
          ev_subject = the (str ''subject''), ev_time = the (str ''time''),
          datacontenttype = str ''datacontenttype'', ev_data = object_of (raw_field raw ''data''),
          ev_revision = number_of (raw_field raw ''revision''), ev_actor = str ''actor'',
          ev_instance = str ''instance'', ev_sequence = str ''sequence'', ev_replayid = str ''replayid'',
          ev_traceparent = str ''traceparent'', ev_tracestate = str ''tracestate''\<rparr>)"

section \<open>The decoder implements the contract\<close>

lemma bind_if: "result_bind (if b then Inr x else Inl e) k = (if b then k x else Inl e)"
  by simp

lemma requiredString_step:
  "requiredString raw k =
     (if nonempty_string (raw_field raw k) then Inr (the (string_of (raw_field raw k))) else Inl (field_error k))"
  unfolding requiredString_def nonempty_step ..

lemma optionalString_step:
  "optionalString raw k =
     (if optional_string (raw_field raw k) then Inr (string_of (raw_field raw k)) else Inl (field_error k))"
  by (cases "raw_field raw k" rule: is_string.cases)
    (auto simp: optionalString_def optional_string_def nullish_def)

lemma decode_data_step:
  "decode_data v = (if optional_object v then Inr (object_of v) else Inl (field_error ''data''))"
  by (cases v rule: optional_object.cases) (auto simp: decode_data_def nullish_def)

lemma decode_revision_step:
  "decode_revision v = (if revision_ok v then Inr (number_of v) else Inl (field_error ''revision''))"
  by (cases v rule: revision_ok.cases) (auto simp: decode_revision_def nullish_def)

lemma decode_sequence_step:
  "decode_sequence v = (if sequence_ok v then Inr (string_of v) else Inl (field_error ''sequence''))"
  by (cases v rule: sequence_ok.cases) (auto simp: decode_sequence_def nullish_def)

lemma decode_event_by_rules:
  "decode_event raw =
     (case first_violation (lifecycle_rules raw) of Some e \<Rightarrow> Inl e | None \<Rightarrow> Inr (event_of raw))"
  unfolding decode_event_def requiredString_step optionalString_step decode_data_step
    decode_revision_step decode_sequence_step bind_if lifecycle_rules_def rule_case event_of_def Let_def
  by simp

interpretation event: strict_decoder decode_event lifecycle_rules event_of
  by unfold_locales (rule decode_event_by_rules)

section \<open>Properties\<close>

text \<open>
  C32. \<open>decodeLifecycle\<close> implements the conformance contract exactly: the first rule an event breaks,
  in the contract's order, decides the error, and an event that breaks none is passed through with
  every field as it was on the wire. Keys and event types outside the contract play no part.
\<close>

theorem decodeLifecycle_contract:
  "decodeLifecycle data =
     (case JSON_parse (payload_text data) of
        None \<Rightarrow> Inl \<lparr>msg_code = invalid_json, msg_field = None\<rparr>
      | Some (JObj raw) \<Rightarrow>
          (case first_violation (lifecycle_rules raw) of Some e \<Rightarrow> Inl e | None \<Rightarrow> Inr (event_of raw))
      | Some _ \<Rightarrow> Inl \<lparr>msg_code = not_an_object, msg_field = None\<rparr>)"
  by (simp add: decodeLifecycle_def event.by_rules message_error_def split: option.split json.split)

text \<open>What a consumer orders and deduplicates events by.\<close>

definition event_wf :: "LifecycleEvent \<Rightarrow> bool" where
  "event_wf ev \<longleftrightarrow>
     ev_id ev \<noteq> [] \<and> ev_subject ev \<noteq> [] \<and>
     (case ev_revision ev of None \<Rightarrow> True | Some n \<Rightarrow> num_is_integer n \<and> \<not> num_less n (Fin 1)) \<and>
     (case ev_sequence ev of None \<Rightarrow> True | Some s \<Rightarrow> s \<noteq> [] \<and> list_all is_digit s)"

lemma decode_event_error:
  assumes "decode_event raw = Inl e"
  shows "msg_code e \<in> {unsupported_version, invalid_field}"
proof -
  from assms obtain pre post where "lifecycle_rules raw = pre @ (False, e) # post"
    by (auto simp: event.refuses_iff)
  then have "(False, e) \<in> set (lifecycle_rules raw)" by simp
  then show ?thesis by (auto simp: lifecycle_rules_def message_error_def field_error_def)
qed

lemma decode_event_wf:
  assumes "decode_event raw = Inr ev"
  shows "event_wf ev"
proof -
  from assms have rules: "nonempty_string (raw_field raw ''id'')" "nonempty_string (raw_field raw ''subject'')"
    "revision_ok (raw_field raw ''revision'')" "sequence_ok (raw_field raw ''sequence'')" and ev: "ev = event_of raw"
    by (auto simp: event.accepts_iff lifecycle_rules_def)
  show ?thesis
    using rules unfolding ev
    by (auto simp: event_wf_def event_of_def Let_def elim!: nonempty_string.elims revision_ok.elims sequence_ok.elims)
qed

text \<open>
  A decoded event has what a consumer orders and deduplicates by (a non-empty id and subject, a
  revision that is a whole number of at least 1 when there is one, a sequence of decimal digits
  when there is one), and a refused one is reported with one of the four codes of the contract.
\<close>

lemma decodeLifecycle_sound:
  "case decodeLifecycle data of
     Inl e \<Rightarrow> msg_code e \<in> {invalid_json, not_an_object, unsupported_version, invalid_field}
   | Inr ev \<Rightarrow> event_wf ev"
proof (cases "decodeLifecycle data")
  case (Inl e)
  then show ?thesis
    by (auto simp: decodeLifecycle_def message_error_def dest!: decode_event_error split: option.splits json.splits)
next
  case (Inr ev)
  then show ?thesis
    by (auto simp: decodeLifecycle_def dest!: decode_event_wf split: option.splits json.splits)
qed

end
