(* ===== verification/Js_Coerce.thy ===== *)
theory Js_Coerce
  imports Js_Json
begin

text \<open>
  The conversions of the language the workers rely on for values they do not check: \<open>Number(text)\<close>,
  arithmetic on the result, the text of a parsed value in a template, and membership in a \<open>Set\<close>.
  The lemmas show on which values the arithmetic is exact.
\<close>

section \<open>Number(text)\<close>

text \<open>White space and line terminators, which are trimmed.\<close>

definition js_space :: "code_unit \<Rightarrow> bool" where
  "js_space c \<longleftrightarrow>
     0x09 \<le> c \<and> c \<le> 0x0D \<or> c = 0x20 \<or> c = 0xA0 \<or> c = 0x1680 \<or> 0x2000 \<le> c \<and> c \<le> 0x200A \<or>
     c \<in> {0x2028, 0x2029, 0x202F, 0x205F, 0x3000, 0xFEFF}"

definition js_trim :: "js_string \<Rightarrow> js_string" where
  "js_trim s = rev (dropWhile js_space (rev (dropWhile js_space s)))"

text \<open>The digits of a \<open>0x\<close>, \<open>0o\<close> or \<open>0b\<close> literal.\<close>

definition radix_number :: "nat \<Rightarrow> js_string \<Rightarrow> js_number" where
  "radix_number b s =
     (if s \<noteq> [] \<and> list_all (\<lambda>c. case hex_value c of Some d \<Rightarrow> d < b | None \<Rightarrow> False) s
      then round64 (of_nat (foldl (\<lambda>n c. n * b + the (hex_value c)) 0 s)) else NaN)"

text \<open>A decimal literal after its sign: digits around an optional point, and an exponent.\<close>

definition decimal_number :: "bool \<Rightarrow> js_string \<Rightarrow> js_number" where
  "decimal_number neg s =
     (if s = js ''Infinity'' then (if neg then NegInf else PosInf)
      else case span_digits s of (ds, r1) \<Rightarrow>
        (case (if starts_with [0x2E] r1 then span_digits (tl r1) else ([], r1)) of (fs, r2) \<Rightarrow>
           if ds = [] \<and> fs = [] then NaN
           else (case parse_exp r2 of
                   Some (e, r3) \<Rightarrow> if r3 = [] then round64 (literal_value neg ds fs e) else NaN
                 | None \<Rightarrow> NaN)))"

definition num_of_string :: "js_string \<Rightarrow> js_number" where
  "num_of_string s =
     (let t = js_trim s
      in if t = [] then Fin 0
         else if starts_with (js ''0x'') t \<or> starts_with (js ''0X'') t then radix_number 16 (drop 2 t)
         else if starts_with (js ''0o'') t \<or> starts_with (js ''0O'') t then radix_number 8 (drop 2 t)
         else if starts_with (js ''0b'') t \<or> starts_with (js ''0B'') t then radix_number 2 (drop 2 t)
         else if starts_with [0x2D] t then decimal_number True (tl t)
         else if starts_with [0x2B] t then decimal_number False (tl t)
         else decimal_number False t)"

section \<open>Arithmetic\<close>

text \<open>\<open>a * b\<close>\<close>

fun num_sign :: "js_number \<Rightarrow> int" where
  "num_sign (Fin a) = (if a < 0 then -1 else if a = 0 then 0 else 1)"
| "num_sign PosInf = 1"
| "num_sign NegInf = -1"
| "num_sign NaN = 0"

fun num_mul :: "js_number \<Rightarrow> js_number \<Rightarrow> js_number" where
  "num_mul (Fin a) (Fin b) = round64 (a * b)"
| "num_mul a b =
     (if a = NaN \<or> b = NaN \<or> num_sign a * num_sign b = 0 then NaN
      else if num_sign a * num_sign b = 1 then PosInf else NegInf)"

text \<open>\<open>Math.min(a, b)\<close>\<close>

definition num_min :: "js_number \<Rightarrow> js_number \<Rightarrow> js_number" where
  "num_min a b = (if a = NaN \<or> b = NaN then NaN else if num_less b a then b else a)"

text \<open>
  \<open>2 ** x\<close>. On an integer the result is the rounded power; on another finite exponent it is an
  approximation the implementation chooses, here the argument \<open>pow\<close>.
\<close>

fun num_exp2 :: "(rat \<Rightarrow> js_number) \<Rightarrow> js_number \<Rightarrow> js_number" where
  "num_exp2 pow (Fin x) = (if of_int (floor x) = x then round64 (power_int 2 (floor x)) else pow x)"
| "num_exp2 pow PosInf = PosInf"
| "num_exp2 pow NegInf = Fin 0"
| "num_exp2 pow NaN = NaN"

text \<open>A small integer times a power of two is a binary64 value, or overflows.\<close>

lemma round64_scaled:
  fixes m :: int and k :: nat
  assumes "0 < m" "m < 2 ^ 53"
  shows "round64 (of_int m * 2 ^ k) = (if 2 ^ 1024 \<le> (of_int m * 2 ^ k :: rat) then PosInf else Fin (of_int m * 2 ^ k))"
proof -
  let ?q = "of_int m * 2 ^ k :: rat"
  let ?e = "ulp_exp ?q"
  have q: "0 < ?q" using assms by simp
  have "ilog2 ?q < 53 + int k"
  proof (rule ccontr)
    assume "\<not> ilog2 ?q < 53 + int k"
    then have "power_int 2 (53 + int k) \<le> (power_int 2 (ilog2 ?q) :: rat)"
      by (intro power_int_increasing) auto
    also have "\<dots> \<le> ?q" using q by (rule ilog2_lower)
    finally have "(2 ^ 53 :: rat) * 2 ^ k \<le> of_int m * 2 ^ k"
      by (simp add: power_int_add)
    then have "(of_int (2 ^ 53) :: rat) \<le> of_int m" by simp
    then have "2 ^ 53 \<le> m" by (simp only: of_int_le_iff)
    with assms show False by simp
  qed
  then have e: "?e \<le> int k" using q by (simp add: ulp_exp_def)
  have pk: "(2 ^ k :: rat) = 2 ^ nat (int k - ?e) * power_int 2 ?e"
  proof -
    have "(2 ^ k :: rat) = power_int 2 (int k)" by simp
    also have "\<dots> = power_int 2 ((int k - ?e) + ?e)" by simp
    also have "\<dots> = power_int 2 (int k - ?e) * power_int 2 ?e" by (rule power_int_add) simp
    also have "power_int 2 (int k - ?e) = (2 ^ nat (int k - ?e) :: rat)" using e by (simp add: power_int_def)
    finally show ?thesis .
  qed
  have "?q / power_int 2 ?e = of_int (m * 2 ^ nat (int k - ?e))"
    by (subst pk) simp
  then have "of_int (round_half_even (?q / power_int 2 ?e)) * power_int 2 ?e = ?q"
    by (simp only: round_half_even_of_int) (simp add: pk [symmetric] mult.assoc)
  moreover have "\<not> ?q \<le> - (2 ^ 1024)"
  proof -
    have "- (2 ^ 1024 :: rat) < 0" by simp
    with q show ?thesis by linarith
  qed
  ultimately show ?thesis using q by (simp add: round64_def Let_def)
qed

text \<open>The decimal text of a number is read back exactly below \<open>2^53\<close>.\<close>

lemma num_of_digit_chars:
  assumes "n < 2 ^ 53"
  shows "num_of_string (digit_chars n) = Fin (of_nat n)"
proof -
  let ?s = "digit_chars n"
  have d: "\<forall>c\<in>set ?s. is_digit c" using digit_chars_digits [of n] by (simp add: list_all_iff)
  have sp: "\<not> js_space c" if "is_digit c" for c :: code_unit
    using that by (auto simp: js_space_def unit_classes word_le_nat_alt word_less_nat_alt)
  have tail: "dropWhile js_space t = t" if "\<forall>c\<in>set t. is_digit c" for t
    using that sp by (cases t) auto
  have trim: "js_trim ?s = ?s" using d by (simp add: js_trim_def tail)
  have no: "\<not> starts_with p ?s" if "\<exists>c\<in>set p. \<not> is_digit c" for p
    using that d unfolding starts_with_def by (metis in_set_takeD)
  have run: "takeWhile is_digit ?s = ?s" "dropWhile is_digit ?s = []" using d by auto
  have "?s \<noteq> js ''Infinity''" using no [of "js ''Infinity''"] by (auto simp: js_eval starts_with_def)
  then have "decimal_number False ?s = round64 (of_nat n)"
    by (simp add: decimal_number_def span_digits_def run parse_exp_def literal_value_def digit_chars_value
        starts_with_def)
  moreover have "round64 (of_nat n) = Fin (of_nat n)"
    using round64_safe_int [of "int n"] assms by simp
  ultimately show ?thesis
    by (simp add: num_of_string_def Let_def trim no js_eval)
qed

section \<open>Texts of parsed values\<close>

text \<open>
  Whether converting a parsed value to text throws: an object with an own \<open>toString\<close>, which is never
  a function, or an array with such an element.
\<close>

fun text_throws :: "json \<Rightarrow> bool" where
  "text_throws (JObj ob) = (map_of ob (js ''toString'') \<noteq> None)"
| "text_throws (JArr vs) = list_ex text_throws vs"
| "text_throws _ = False"

text \<open>A template of optional properties throws when one of them does.\<close>

definition template_throws :: "json option list \<Rightarrow> bool" where
  "template_throws vs = list_ex (\<lambda>v. case v of None \<Rightarrow> False | Some w \<Rightarrow> text_throws w) vs"

text \<open>The text itself where it does not throw, given the text of numbers; \<open>null\<close> in an array has none.\<close>

fun js_text :: "(js_number \<Rightarrow> js_string) \<Rightarrow> json \<Rightarrow> js_string" where
  "js_text num JNull = js ''null''"
| "js_text num (JBool b) = (if b then js ''true'' else js ''false'')"
| "js_text num (JNum n) = num n"
| "js_text num (JStr s) = s"
| "js_text num (JArr vs) = join_with 0x2C (map (\<lambda>v. if v = JNull then [] else js_text num v) vs)"
| "js_text num (JObj ob) = js ''[object Object]''"

section \<open>Sets of parsed values\<close>

text \<open>\<open>set.has(v)\<close>: arrays and objects are compared by identity, and each parse makes new ones.\<close>

fun is_reference :: "json option \<Rightarrow> bool" where
  "is_reference (Some (JArr _)) = True"
| "is_reference (Some (JObj _)) = True"
| "is_reference _ = False"

definition set_has :: "json option list \<Rightarrow> json option \<Rightarrow> bool" where
  "set_has vs v \<longleftrightarrow> \<not> is_reference v \<and> v \<in> set vs"

section \<open>Truth\<close>

text \<open>Whether a value that may be \<open>undefined\<close> counts as true.\<close>

fun truthy :: "json option \<Rightarrow> bool" where
  "truthy None = False"
| "truthy (Some JNull) = False"
| "truthy (Some (JBool b)) = b"
| "truthy (Some (JNum n)) = (n \<noteq> Fin 0 \<and> n \<noteq> NaN)"
| "truthy (Some (JStr s)) = (s \<noteq> [])"
| "truthy (Some (JArr _)) = True"
| "truthy (Some (JObj _)) = True"

end
