(* ===== verification/Http.thy ===== *)
theory Http
  imports Js_Coerce Js_Text
begin

text \<open>
  The requests the SDK's HTTP clients make and what comes back. The HTTP library (\<open>openapi-fetch\<close>
  over \<open>fetch\<close>) is an argument of every client operation: a function from the request to its
  outcome, which is a rejected promise (network failure, timeout) or an answer. An operation
  returns the requests it made together with its result; a deadline \<open>AbortSignal.timeout\<close> refuses
  makes none. The locale \<open>http_errors\<close> is the contract
  the three clients share: an error carries one bit, retry or give up, that depends on the status
  alone.
\<close>

datatype http_method = GET | POST | PUT | PATCH | DELETE

text \<open>
  A call of the client library: the path template with its parameters, the query (\<open>None\<close> is
  \<open>undefined\<close>), the body, how the answer is read and the deadline of its abort signal in
  milliseconds.
\<close>

datatype parse_as = AsJson | AsText | AsArrayBuffer

record http_request =
  rq_method :: http_method
  rq_path :: js_string
  rq_params :: "(js_string \<times> js_string) list"
  rq_query :: "json_object option"
  rq_body :: "json option"
  rq_parseAs :: parse_as
  rq_timeoutMs :: js_number

text \<open>
  The awaited call: it rejects with an error, or it resolves with the status, the parsed data and the
  parsed error body (\<open>None\<close> is \<open>undefined\<close>). The error is one of the library (by its message) or the
  \<open>RangeError\<close> of a deadline that is none.
\<close>

datatype cause = Failure js_string | DelayOutOfRange js_number

datatype 'd fetch_outcome = Rejects cause | Answers int "'d option" "json option"

type_synonym 'd http = "http_request \<Rightarrow> 'd fetch_outcome"

text \<open>What an operation did: the requests it made, and what it returned or threw.\<close>

type_synonym ('e, 'a) call = "http_request list \<times> ('e, 'a) result"

definition default_timeoutMs :: js_number where
  "default_timeoutMs = Fin 10000"

definition timeout_of :: "js_number option \<Rightarrow> js_number" where
  "timeout_of t = (case t of None \<Rightarrow> default_timeoutMs | Some x \<Rightarrow> x)"

text \<open>
  \<open>AbortSignal.timeout(timeoutMs)\<close>, evaluated before the call: Node accepts the integers from 0 to
  \<open>2^32 - 1\<close> and throws a \<open>RangeError\<close> for any other number, so that no request is made. Every client
  evaluates it inside the clause that also catches the rejection of the call.
\<close>

definition delay_ok :: "js_number \<Rightarrow> bool" where
  "delay_ok t \<longleftrightarrow> num_is_integer t \<and> \<not> num_less t (Fin 0) \<and> \<not> num_less (Fin 4294967295) t"

definition sent :: "http_request \<Rightarrow> http_request list" where
  "sent rq = (if delay_ok (rq_timeoutMs rq) then [rq] else [])"

definition awaited :: "'d http \<Rightarrow> http_request \<Rightarrow> 'd fetch_outcome" where
  "awaited http rq =
     (if delay_ok (rq_timeoutMs rq) then http rq else Rejects (DelayOutOfRange (rq_timeoutMs rq)))"

lemma default_delay [simp]: "delay_ok (timeout_of None)"
  by (simp add: delay_ok_def timeout_of_def default_timeoutMs_def)

lemma sent_ok [simp]: "delay_ok (rq_timeoutMs rq) \<Longrightarrow> sent rq = [rq]"
  by (simp add: sent_def)

lemma awaited_ok [simp]: "delay_ok (rq_timeoutMs rq) \<Longrightarrow> awaited http rq = http rq"
  by (simp add: awaited_def)

lemma sent_not_Nil_iff: "sent rq \<noteq> [] \<longleftrightarrow> delay_ok (rq_timeoutMs rq)"
  by (simp add: sent_def)

lemma awaited_Answers_iff: "awaited http rq = Answers st d e \<longleftrightarrow> delay_ok (rq_timeoutMs rq) \<and> http rq = Answers st d e"
  by (simp add: awaited_def)

lemma length_sent: "length (sent rq) \<le> Suc 0"
  by (simp add: sent_def)

definition http_get :: "string \<Rightarrow> js_number \<Rightarrow> http_request" where
  "http_get p t = \<lparr>rq_method = GET, rq_path = js p, rq_params = [], rq_query = None, rq_body = None,
     rq_parseAs = AsJson, rq_timeoutMs = t\<rparr>"

text \<open>\<open>error === undefined ? "" : error\<close>\<close>

definition error_body :: "json option \<Rightarrow> json" where
  "error_body e = (case e of None \<Rightarrow> JStr [] | Some b \<Rightarrow> b)"

text \<open>A property of a value that may not be an object: \<open>None\<close> is \<open>undefined\<close>.\<close>

fun json_field :: "json \<Rightarrow> string \<Rightarrow> json option" where
  "json_field (JObj ob) k = map_of ob (js k)"
| "json_field _ k = None"

section \<open>Path segments\<close>

text \<open>
  \<open>encodeURIComponent(s)\<close>, with which the client library places a path parameter: the UTF-8 bytes
  of \<open>s\<close>, escaped as \<open>%XX\<close> except for the unreserved characters. On a lone surrogate it throws a
  \<open>URIError\<close>, here \<open>None\<close>; the call of the library then rejects.
\<close>

definition is_unreserved :: "byte \<Rightarrow> bool" where
  "is_unreserved b \<longleftrightarrow>
     0x30 \<le> b \<and> b \<le> 0x39 \<or> 0x41 \<le> b \<and> b \<le> 0x5A \<or> 0x61 \<le> b \<and> b \<le> 0x7A \<or>
     b = 0x2D \<or> b = 0x5F \<or> b = 0x2E \<or> b = 0x21 \<or> b = 0x7E \<or> b = 0x2A \<or> b = 0x27 \<or> b = 0x28 \<or> b = 0x29"

definition upper_hex :: "nat \<Rightarrow> code_unit" where
  "upper_hex n = (if n < 10 then word_of_nat (0x30 + n) else word_of_nat (0x37 + n))"

definition encode_byte :: "byte \<Rightarrow> js_string" where
  "encode_byte b =
     (if is_unreserved b then [word_of_nat (unat b)]
      else [0x25, upper_hex (unat b div 16), upper_hex (unat b mod 16)])"

definition escaped :: "js_string \<Rightarrow> js_string" where
  "escaped s = concat (map encode_byte (utf8_encode s))"

definition encodeURIComponent :: "js_string \<Rightarrow> js_string option" where
  "encodeURIComponent s = (if well_formed s then Some (escaped s) else None)"

text \<open>
  The segments a URL parser removes or climbs by: a dot or two, each of them written as a dot or as
  \<open>%2e\<close> in either case.
\<close>

definition dot_forms :: "js_string list" where
  "dot_forms = map js [''.'', ''%2e'', ''..'', ''.%2e'', ''%2e.'', ''%2e%2e'']"

definition is_dot_segment :: "js_string \<Rightarrow> bool" where
  "is_dot_segment s \<longleftrightarrow> to_lower s \<in> set dot_forms"

lemma upper_hex_table:
  "list_all (\<lambda>n. (upper_hex n = 0x32) = (n = 2) \<and> (upper_hex n = 0x45) = (n = 14) \<and>
     upper_hex n \<noteq> 0x2F \<and> upper_hex n \<noteq> 0x65) [0..<16]"
  by (simp add: upper_hex_def upt_rec)

lemma upper_hex_facts:
  assumes "n < 16"
  shows "upper_hex n = 0x32 \<longleftrightarrow> n = 2" "upper_hex n = 0x45 \<longleftrightarrow> n = 14" "upper_hex n \<noteq> 0x2F" "upper_hex n \<noteq> 0x65"
  using upper_hex_table assms by (auto simp: list_all_iff)

lemma lower_unit_facts:
  "lower_unit c = 0x2E \<longleftrightarrow> c = 0x2E" "lower_unit c = 0x25 \<longleftrightarrow> c = 0x25" "lower_unit c = 0x32 \<longleftrightarrow> c = 0x32"
  "lower_unit c = 0x65 \<longleftrightarrow> c = 0x65 \<or> c = 0x45"
proof -
  have cap: "c + 0x20 \<noteq> 0x2E \<and> c + 0x20 \<noteq> 0x25 \<and> c + 0x20 \<noteq> 0x32" if "0x41 \<le> c" "c \<le> 0x5A"
    using that by unat_arith
  have e: "c + 0x20 = 0x65 \<longleftrightarrow> c = 0x45"
    using eq_diff_eq [of c "0x65" "0x20"] by simp
  show "lower_unit c = 0x2E \<longleftrightarrow> c = 0x2E" "lower_unit c = 0x25 \<longleftrightarrow> c = 0x25" "lower_unit c = 0x32 \<longleftrightarrow> c = 0x32"
    "lower_unit c = 0x65 \<longleftrightarrow> c = 0x65 \<or> c = 0x45"
    using cap e by (auto simp: lower_unit_def)
qed

text \<open>An escape never spells a dot, because a dot is never escaped; a slash always is.\<close>

lemma encode_byte_cases:
  obtains (dot) "b = 0x2E" "encode_byte b = [0x2E]"
  | (plain) c where "encode_byte b = [c]" "c \<noteq> 0x2E" "c \<noteq> 0x25" "c \<noteq> 0x2F" "b \<noteq> 0x2E"
  | (escape) x y where "encode_byte b = [0x25, x, y]" "x \<noteq> 0x2F" "y \<noteq> 0x2F" "b \<noteq> 0x2E"
      "\<not> (x = 0x32 \<and> (y = 0x45 \<or> y = 0x65))"
proof (cases "is_unreserved b")
  case True
  have "(word_of_nat (unat b) :: code_unit) = word_of_nat n \<longleftrightarrow> b = word_of_nat n" if "n < 256" for n
  proof -
    have u: "unat (word_of_nat (unat b) :: code_unit) = unat b"
      using unat_byte_bound [of b] by (simp only: unat_of_nat) simp
    have "unat (word_of_nat n :: code_unit) = n" "unat (word_of_nat n :: byte) = n"
      using that by (simp_all add: unat_of_nat)
    with u show ?thesis unfolding word_unat_eq_iff by simp
  qed
  from this [of "0x2E"] this [of "0x25"] this [of "0x2F"]
  have "(word_of_nat (unat b) :: code_unit) = 0x2E \<longleftrightarrow> b = 0x2E" "(word_of_nat (unat b) :: code_unit) = 0x25 \<longleftrightarrow> b = 0x25"
    "(word_of_nat (unat b) :: code_unit) = 0x2F \<longleftrightarrow> b = 0x2F"
    by simp_all
  moreover have "b \<noteq> 0x25" "b \<noteq> 0x2F" using True by (auto simp: is_unreserved_def)
  moreover have "encode_byte b = [word_of_nat (unat b)]" using True by (simp add: encode_byte_def)
  ultimately show thesis using dot plain by metis
next
  case False
  have "unat b div 16 < 16" "unat b mod 16 < 16" using unat_byte_bound [of b] by simp_all
  note hex = upper_hex_facts [OF this(1)] upper_hex_facts [OF this(2)]
  have "\<not> (unat b div 16 = 2 \<and> unat b mod 16 = 14)"
  proof
    assume "unat b div 16 = 2 \<and> unat b mod 16 = 14"
    then have "unat b = 46" using div_mult_mod_eq [of "unat b" 16] by simp
    then have "b = 0x2E" by (simp add: word_unat_eq_iff)
    with False show False by (simp add: is_unreserved_def)
  qed
  moreover have "encode_byte b = [0x25, upper_hex (unat b div 16), upper_hex (unat b mod 16)]"
    using False by (simp add: encode_byte_def)
  moreover have "b \<noteq> 0x2E" using False by (auto simp: is_unreserved_def)
  ultimately show thesis
    using hex by (intro escape [of "upper_hex (unat b div 16)" "upper_hex (unat b mod 16)"]) auto
qed

lemma encode_starts_dot:
  "to_lower (encode_byte b @ r) = 0x2E # t \<Longrightarrow> b = 0x2E \<and> to_lower r = t"
  by (cases rule: encode_byte_cases [of b]) (auto simp: to_lower_def lower_unit_facts)

lemma encode_never_escape_dot: "to_lower (encode_byte b @ r) \<noteq> 0x25 # 0x32 # 0x65 # t"
  by (cases rule: encode_byte_cases [of b]) (auto simp: to_lower_def lower_unit_facts)

lemma encode_no_slash: "0x2F \<notin> set (escaped s)"
proof -
  have "0x2F \<notin> set (encode_byte b)" for b
    by (cases rule: encode_byte_cases [of b]) auto
  then show ?thesis by (auto simp: escaped_def)
qed

lemma encode_Nil_iff: "escaped s = [] \<longleftrightarrow> utf8_encode s = []"
proof -
  have "encode_byte b \<noteq> []" for b by (simp add: encode_byte_def)
  then show ?thesis by (auto simp: escaped_def)
qed

lemma utf8_encode_Nil_iff: "utf8_encode s = [] \<longleftrightarrow> s = []"
  using utf8_encode_eq_ascii [of "[]" s] by (simp add: is_ascii_def utf8_encode_def)

text \<open>The encoded segment is a dot segment only for the two literal dot segments.\<close>

lemma encode_dot_segment:
  assumes "is_dot_segment (escaped s)"
  shows "s = js ''.'' \<or> s = js ''..''"
proof -
  define enc where "enc bs = to_lower (concat (map encode_byte bs))" for bs
  have enc: "enc [] = []" "enc (b # bs) = to_lower (encode_byte b @ concat (map encode_byte bs))" for b bs
    by (simp_all add: enc_def)
  have nil: "enc bs = [] \<Longrightarrow> bs = []" for bs
    by (cases bs) (auto simp: enc_def encode_byte_def to_lower_def split: if_splits)
  have dot: "\<exists>cs. bs = 0x2E # cs \<and> enc cs = t" if "enc bs = 0x2E # t" for bs t
    using that encode_starts_dot by (cases bs) (fastforce simp: enc_def to_lower_def)+
  have no: "enc bs \<noteq> 0x25 # 0x32 # 0x65 # t" for bs t
    using encode_never_escape_dot by (cases bs) (auto simp: enc_def to_lower_def)
  have "enc (utf8_encode s) \<in> set dot_forms"
    using assms by (simp add: is_dot_segment_def enc_def escaped_def)
  then consider "enc (utf8_encode s) = [0x2E]" | "enc (utf8_encode s) = [0x2E, 0x2E]"
    | "enc (utf8_encode s) = [0x2E, 0x25, 0x32, 0x65]" | t where "enc (utf8_encode s) = 0x25 # 0x32 # 0x65 # t"
    by (auto simp: dot_forms_def js_eval)
  then have "utf8_encode s = [0x2E] \<or> utf8_encode s = [0x2E, 0x2E]"
    using nil dot no by cases blast+
  moreover have "is_ascii (js ''.'')" "utf8_encode (js ''.'') = [0x2E]"
    "is_ascii (js ''..'')" "utf8_encode (js ''..'') = [0x2E, 0x2E]"
    by (simp_all add: js_eval is_ascii_def utf8_encode_ascii)
  ultimately show ?thesis using utf8_encode_eq_ascii by metis
qed

section \<open>The retry contract\<close>

text \<open>
  \<open>judge\<close> is the error for a status and an error body, \<open>None\<close> for an accepted answer; \<open>busy\<close>
  are the 4xx statuses a client may treat as temporary.
\<close>

locale http_errors =
  fixes judge :: "int \<Rightarrow> json option \<Rightarrow> 'e option"
    and retryable :: "'e \<Rightarrow> bool"
    and accepted :: "int \<Rightarrow> bool"
    and busy :: "int \<Rightarrow> bool"
  assumes accepted_2xx: "accepted st \<Longrightarrow> 200 \<le> st \<and> st < 300"
    and judge_None: "judge st b = None \<longleftrightarrow> accepted st"
    and judge_retryable: "judge st b = Some e \<Longrightarrow> retryable e \<longleftrightarrow> busy st \<or> \<not> (400 \<le> st \<and> st < 500)"
begin

lemma status_decides:
  "map_option retryable (judge st b) =
     (if accepted st then None else Some (busy st \<or> \<not> (400 \<le> st \<and> st < 500)))"
  using judge_None [of st b] judge_retryable [of st b] by (cases "judge st b") auto

lemma server_error_retryable: "500 \<le> st \<Longrightarrow> \<exists>e. judge st b = Some e \<and> retryable e"
  using judge_None [of st b] accepted_2xx [of st] judge_retryable [of st b] by (cases "judge st b") auto

lemma client_error_final:
  "400 \<le> st \<Longrightarrow> st < 500 \<Longrightarrow> \<not> busy st \<Longrightarrow> \<exists>e. judge st b = Some e \<and> \<not> retryable e"
  using judge_None [of st b] accepted_2xx [of st] judge_retryable [of st b] by (cases "judge st b") auto

lemma redirect_retryable: "st < 200 \<or> 300 \<le> st \<and> st < 400 \<Longrightarrow> \<exists>e. judge st b = Some e \<and> retryable e"
  using judge_None [of st b] accepted_2xx [of st] judge_retryable [of st b] by (cases "judge st b") auto

end

end
