(* ===== verification/Js_Types.thy ===== *)
theory Js_Types
  imports Http
begin

text \<open>
  The TypeScript types the sources declare for parsed JSON, and when a value inhabits one. The
  compiler erases them, so \<open>JSON.parse(text) as T\<close> checks nothing: a type is a promise of the
  producer, and the lemmas that use \<open>has_type\<close> say what the code does when the promise is kept.
\<close>

text \<open>A field of an object type has a name, whether it is required (no \<open>?\<close>), and a type.\<close>

datatype ts_type =
    TString
  | TNumber
  | TBoolean
  | TNull
  | TUnknown
  | TLiteral js_string
  | TUnion ts_type ts_type
  | TArray ts_type
  | TRecord ts_type
  | TObject "ts_field list"
  | TNever
  | TInter ts_type ts_type
and ts_field = Field string bool ts_type

abbreviation TNullable :: "ts_type \<Rightarrow> ts_type" where
  "TNullable t \<equiv> TUnion t TNull"

text \<open>A union of string literals.\<close>

fun TEnum :: "string list \<Rightarrow> ts_type" where
  "TEnum [] = TNever"
| "TEnum [s] = TLiteral (js s)"
| "TEnum (s # ss) = TUnion (TLiteral (js s)) (TEnum ss)"

text \<open>The utility types \<open>Omit\<close>, \<open>Pick\<close> and \<open>Partial\<close> on the fields of an object type.\<close>

fun field_name :: "ts_field \<Rightarrow> string" where
  "field_name (Field k _ _) = k"

fun field_required :: "ts_field \<Rightarrow> bool" where
  "field_required (Field _ required _) = required"

fun optional_field :: "ts_field \<Rightarrow> ts_field" where
  "optional_field (Field k _ t) = Field k False t"

definition Omit :: "string list \<Rightarrow> ts_field list \<Rightarrow> ts_field list" where
  "Omit ks fs = filter (\<lambda>f. field_name f \<notin> set ks) fs"

definition Pick :: "string list \<Rightarrow> ts_field list \<Rightarrow> ts_field list" where
  "Pick ks fs = filter (\<lambda>f. field_name f \<in> set ks) fs"

definition Partial :: "ts_field list \<Rightarrow> ts_field list" where
  "Partial fs = map optional_field fs"

text \<open>The value of an optional field is \<open>undefined\<close> only when the parsed object lacks it.\<close>

fun has_type :: "ts_type \<Rightarrow> json \<Rightarrow> bool"
and has_fields :: "ts_field list \<Rightarrow> json_object \<Rightarrow> bool" where
  "has_type TString v = (case v of JStr _ \<Rightarrow> True | _ \<Rightarrow> False)"
| "has_type TNumber v = (case v of JNum _ \<Rightarrow> True | _ \<Rightarrow> False)"
| "has_type TBoolean v = (case v of JBool _ \<Rightarrow> True | _ \<Rightarrow> False)"
| "has_type TNull v = (v = JNull)"
| "has_type TUnknown v = True"
| "has_type (TLiteral s) v = (v = JStr s)"
| "has_type (TUnion a b) v = (has_type a v \<or> has_type b v)"
| "has_type (TArray t) v = (case v of JArr vs \<Rightarrow> list_all (has_type t) vs | _ \<Rightarrow> False)"
| "has_type (TRecord t) v = (case v of JObj ob \<Rightarrow> list_all (\<lambda>p. has_type t (snd p)) ob | _ \<Rightarrow> False)"
| "has_type (TObject fs) v = (case v of JObj ob \<Rightarrow> has_fields fs ob | _ \<Rightarrow> False)"
| "has_type TNever v = False"
| "has_type (TInter a b) v = (has_type a v \<and> has_type b v)"
| "has_fields [] ob = True"
| "has_fields (Field k required t # fs) ob =
     ((case map_of ob (js k) of None \<Rightarrow> \<not> required | Some w \<Rightarrow> has_type t w) \<and> has_fields fs ob)"

text \<open>Reading a value of a known type: its shape, and what a field of an object type may hold.\<close>

lemma has_TString_iff: "has_type TString v \<longleftrightarrow> (\<exists>s. v = JStr s)"
  by (cases v) auto

lemma has_TNumber_iff: "has_type TNumber v \<longleftrightarrow> (\<exists>n. v = JNum n)"
  by (cases v) auto

lemma has_TObject_iff: "has_type (TObject fs) v \<longleftrightarrow> (\<exists>ob. v = JObj ob \<and> has_fields fs ob)"
  by (cases v) auto

declare has_type.simps(1,2,10) [simp del]

lemma has_fields_iff:
  "has_fields fs ob \<longleftrightarrow>
     (\<forall>k required t. Field k required t \<in> set fs \<longrightarrow>
        (case map_of ob (js k) of None \<Rightarrow> \<not> required | Some w \<Rightarrow> has_type t w))"
proof (induction fs)
  case (Cons f fs)
  then show ?case by (cases f) auto
qed simp

text \<open>Width subtyping: an object of a type with more fields has every type with fewer of them.\<close>

lemma has_TObject_mono:
  "set gs \<subseteq> set fs \<Longrightarrow> has_type (TObject fs) v \<Longrightarrow> has_type (TObject gs) v"
  unfolding has_TObject_iff has_fields_iff by blast

text \<open>Depth subtyping: a field may be required where it was optional, and of a narrower type.\<close>

lemma has_TObject_sub:
  assumes "\<forall>k required t. Field k required t \<in> set gs \<longrightarrow>
      (\<exists>r u. Field k r u \<in> set fs \<and> (required \<longrightarrow> r) \<and> (\<forall>w. has_type u w \<longrightarrow> has_type t w))"
    and "has_type (TObject fs) v"
  shows "has_type (TObject gs) v"
proof -
  obtain ob where v: "v = JObj ob" and fs: "has_fields fs ob" using assms(2) by (auto simp: has_TObject_iff)
  have "case map_of ob (js k) of None \<Rightarrow> \<not> required | Some w \<Rightarrow> has_type t w"
    if "Field k required t \<in> set gs" for k required t
  proof -
    obtain r u where f: "Field k r u \<in> set fs" "required \<longrightarrow> r" "\<forall>w. has_type u w \<longrightarrow> has_type t w"
      using assms(1) \<open>Field k required t \<in> set gs\<close> by blast
    then show ?thesis using fs unfolding has_fields_iff by (force split: option.splits)
  qed
  then show ?thesis unfolding has_TObject_iff v has_fields_iff by blast
qed

text \<open>A string of an enumeration is a string.\<close>

lemma has_TEnum_iff: "has_type (TEnum ss) v \<longleftrightarrow> (\<exists>s \<in> set ss. v = JStr (js s))"
  by (induction ss rule: TEnum.induct) auto

lemma has_TEnum_string: "has_type (TEnum ss) v \<Longrightarrow> has_type TString v"
  unfolding has_TEnum_iff has_TString_iff by blast

text \<open>Making some fields optional loses exactly their presence.\<close>

lemma has_fields_Partial:
  "has_fields fs ob \<longleftrightarrow>
     has_fields (Omit ks fs) ob \<and> has_fields (Partial (Pick ks fs)) ob \<and>
     list_all (\<lambda>f. field_required f \<longrightarrow> map_of ob (js (field_name f)) \<noteq> None) (Pick ks fs)"
proof (induction fs)
  case (Cons f fs)
  obtain k r t where "f = Field k r t" by (cases f)
  with Cons show ?case by (auto simp: Omit_def Pick_def Partial_def split: option.splits)
qed (simp add: Omit_def Pick_def Partial_def)

lemma typed_field:
  assumes "has_type (TObject fs) msg" "Field k required t \<in> set fs"
  shows "case json_field msg k of None \<Rightarrow> \<not> required | Some w \<Rightarrow> has_type t w"
  using assms by (auto simp: has_TObject_iff has_fields_iff)

lemmas has_object_simps = has_TObject_iff has_TString_iff has_TNumber_iff

end
