(* ===== verification/Claim_Check.thy ===== *)
theory Claim_Check
  imports Claim_Ref Http Sha256
begin

text \<open>
  The claim-check client, \<open>claim-check/client.ts\<close> and \<open>claim-check/errors.ts\<close>: redeeming a
  reference for the bytes it stands for. The lemmas show that \<open>redeem\<close> returns bytes only when
  their SHA-256 is the expected one, that a malformed argument never causes a request, that one
  call is at most one request for exactly the parsed reference, and which answers are worth a
  retry.
\<close>

section \<open>Errors\<close>

text \<open>The class hierarchy; a malformed argument names the reference or the digest, or a message's
  claim that is no text or comes without a digest (as the consumers raise it); an unavailable gateway
  carries its cause when there is one. The last is not of the hierarchy: the \<open>TypeError\<close> of the message
  that reports a malformed digest, when the digest passed has no text.\<close>

datatype invalid_argument = BadRef js_string | BadSha256 json | BadClaim json | NoSha256

datatype ClaimCheckError =
    InvalidRef invalid_argument
  | ClaimNotFoundError
  | ClaimRejectedError int json
  | ClaimIntegrityError
  | ClaimCheckUnavailableError "cause option"
  | RedeemTypeError

fun claim_retryable :: "ClaimCheckError \<Rightarrow> bool" where
  "claim_retryable (InvalidRef _) = False"
| "claim_retryable ClaimNotFoundError = False"
| "claim_retryable (ClaimRejectedError _ _) = False"
| "claim_retryable ClaimIntegrityError = False"
| "claim_retryable (ClaimCheckUnavailableError _) = True"
| "claim_retryable RedeemTypeError = False"

section \<open>Redeeming\<close>

text \<open>The status checks of \<open>fetchBytes\<close>, in order.\<close>

definition claim_judge :: "int \<Rightarrow> json option \<Rightarrow> ClaimCheckError option" where
  "claim_judge st err =
     (if st = 404 then Some ClaimNotFoundError
      else if st = 408 \<or> st = 429 then Some (ClaimCheckUnavailableError None)
      else if st \<ge> 400 \<and> st < 500 then Some (ClaimRejectedError st (error_body err))
      else if st \<noteq> 200 then Some (ClaimCheckUnavailableError None)
      else None)"

definition claim_request :: "js_number \<Rightarrow> ParsedClaimRef \<Rightarrow> http_request" where
  "claim_request timeoutMs parsed =
     \<lparr>rq_method = GET, rq_path = js ''/v1/claims/{tenant_id}/{claim_id}'',
      rq_params = [(js ''tenant_id'', tenantId parsed), (js ''claim_id'', claimId parsed)],
      rq_query = (case proof_of parsed of
          None \<Rightarrow> None
        | Some p \<Rightarrow> Some [(js ''exp'', JStr (proof_exp p)), (js ''sig'', JStr (proof_sig p))]),
      rq_body = None, rq_parseAs = AsArrayBuffer, rq_timeoutMs = timeoutMs\<rparr>"

definition fetchBytes :: "byte list http \<Rightarrow> js_number \<Rightarrow> ParsedClaimRef \<Rightarrow> (ClaimCheckError, byte list) call" where
  "fetchBytes http timeoutMs parsed =
     (let req = claim_request timeoutMs parsed
      in (sent req,
          case awaited http req of
            Rejects err \<Rightarrow> Inl (ClaimCheckUnavailableError (Some err))
          | Answers st data err \<Rightarrow>
              (case claim_judge st err of
                 Some e \<Rightarrow> Inl e
               | None \<Rightarrow> Inr (case data of None \<Rightarrow> [] | Some bs \<Rightarrow> bs))))"

definition verifyIntegrity :: "js_string \<Rightarrow> byte list \<Rightarrow> (ClaimCheckError, unit) result" where
  "verifyIntegrity expectedSha256 bytes =
     (if sha256_hex bytes \<noteq> expectedSha256 then Inl ClaimIntegrityError else Inr ())"

text \<open>The \<open>sha256\<close> argument as the caller passed it: any value, checked to be a digest.\<close>

fun sha256_argument :: "json \<Rightarrow> js_string option" where
  "sha256_argument (JStr s) = (if sha256_pattern s then Some s else None)"
| "sha256_argument _ = None"

definition redeem ::
  "byte list http \<Rightarrow> js_number option \<Rightarrow> js_string \<Rightarrow> json \<Rightarrow> (ClaimCheckError, byte list) call" where
  "redeem http timeoutMs ref sha =
     (case parseClaimRef ref of
        Inl (InvalidClaimRefError r) \<Rightarrow> ([], Inl (InvalidRef (BadRef r)))
      | Inr parsed \<Rightarrow>
          (case sha256_argument sha of
             None \<Rightarrow> ([], Inl (if text_throws sha then RedeemTypeError else InvalidRef (BadSha256 sha)))
           | Some expected \<Rightarrow>
               (case fetchBytes http (timeout_of timeoutMs) parsed of
                  (reqs, res) \<Rightarrow>
                    (reqs, result_bind res (\<lambda>bytes.
                       result_bind (verifyIntegrity expected bytes) (\<lambda>_. Inr bytes))))))"

definition claim_health :: "json http \<Rightarrow> js_number option \<Rightarrow> (ClaimCheckError, json) call" where
  "claim_health http timeoutMs =
     (let req = http_get ''/health'' (timeout_of timeoutMs)
      in (sent req,
          case awaited http req of
            Rejects err \<Rightarrow> Inl (ClaimCheckUnavailableError (Some err))
          | Answers st data err \<Rightarrow>
              (if st \<noteq> 200 \<or> data = None then Inl (ClaimCheckUnavailableError None)
               else Inr (the data))))"

section \<open>Lemmas\<close>

interpretation claim_errors: http_errors claim_judge claim_retryable "\<lambda>st. st = 200" "\<lambda>st. st = 408 \<or> st = 429"
  by unfold_locales (auto simp: claim_judge_def split: if_splits)

lemma claim_request_timeout [simp]: "rq_timeoutMs (claim_request t p) = t"
  by (simp add: claim_request_def)

lemma sha256_argument_iff: "sha256_argument v = Some s \<longleftrightarrow> v = JStr s \<and> sha256_pattern s"
  by (cases v) auto

text \<open>A redeem with well-formed arguments: one request, and the checks on its answer.\<close>

lemma redeem_wf:
  assumes "parseClaimRef ref = Inr p" "sha256_pattern s"
  shows "redeem http t ref (JStr s) =
    (sent (claim_request (timeout_of t) p),
     case awaited http (claim_request (timeout_of t) p) of
       Rejects err \<Rightarrow> Inl (ClaimCheckUnavailableError (Some err))
     | Answers st data err \<Rightarrow>
         (case claim_judge st err of
            Some e \<Rightarrow> Inl e
          | None \<Rightarrow> (let bytes = (case data of None \<Rightarrow> [] | Some bs \<Rightarrow> bs)
              in if sha256_hex bytes = s then Inr bytes else Inl ClaimIntegrityError)))"
  using assms by (simp add: redeem_def fetchBytes_def verifyIntegrity_def Let_def
      split: fetch_outcome.split option.split)

lemma redeem_cases:
  obtains (malformed) e where "\<And>http t. redeem http t ref sha = ([], Inl e)" "\<not> claim_retryable e"
      "\<not> (\<exists>p s. parseClaimRef ref = Inr p \<and> sha = JStr s \<and> sha256_pattern s)"
  | (wf) p s where "parseClaimRef ref = Inr p" "sha = JStr s" "sha256_pattern s"
proof -
  have err: "parseClaimRef ref = Inl (InvalidClaimRefError ref) \<or> (\<exists>p. parseClaimRef ref = Inr p)"
    by (auto simp: parseClaimRef_def split: option.splits list.splits)
  show thesis
  proof (cases "\<exists>p s. parseClaimRef ref = Inr p \<and> sha256_argument sha = Some s")
    case True
    then show thesis using wf by (auto simp: sha256_argument_iff)
  next
    case False
    with err obtain e where "\<And>http t. redeem http t ref sha = ([], Inl e)" "\<not> claim_retryable e"
      by (auto simp: redeem_def split: option.splits)
    with False show thesis by (intro malformed) (auto simp: sha256_argument_iff)
  qed
qed

section \<open>Properties\<close>

text \<open>
  C3. \<open>redeem\<close> returns bytes in exactly one case: the reference is well-formed, the expected digest
  is 64 lowercase hex digits, the deadline is one, the gateway answered the request for that reference
  with 200, and the SHA-256 of the bytes it sent (none for an empty body) is the expected digest. Whatever the
  gateway does, the caller never gets bytes with another digest.
\<close>

theorem redeem_integrity:
  "snd (redeem http t ref sha) = Inr bytes \<longleftrightarrow>
     (\<exists>p data err. parseClaimRef ref = Inr p \<and> sha = JStr (sha256_hex bytes) \<and> delay_ok (timeout_of t) \<and>
        http (claim_request (timeout_of t) p) = Answers 200 data err \<and>
        bytes = (case data of None \<Rightarrow> [] | Some bs \<Rightarrow> bs))"
proof (cases rule: redeem_cases [of ref sha])
  case (malformed e)
  then show ?thesis using sha.hex_pattern by auto
next
  case (wf p s)
  then show ?thesis
    by (auto simp: redeem_wf awaited_def claim_judge_def Let_def split: fetch_outcome.splits if_splits)
qed

text \<open>
  Arguments are checked before any request, and a call makes at most one: a malformed reference
  or digest is refused with the non-retryable \<open>InvalidClaimRefError\<close> (or the \<open>TypeError\<close> of its message)
  and no request at all, and otherwise the only request is the one for the parsed tenant and claim.
\<close>

lemma redeem_requests:
  "case parseClaimRef ref of
     Inl _ \<Rightarrow> redeem http t ref sha = ([], Inl (InvalidRef (BadRef ref)))
   | Inr p \<Rightarrow>
       (case sha256_argument sha of
          None \<Rightarrow> redeem http t ref sha = ([], Inl (if text_throws sha then RedeemTypeError else InvalidRef (BadSha256 sha)))
        | Some _ \<Rightarrow> fst (redeem http t ref sha) = sent (claim_request (timeout_of t) p))"
proof (cases rule: redeem_cases [of ref sha])
  case (malformed e)
  then show ?thesis
    by (auto simp: redeem_def parseClaimRef_def sha256_argument_iff split: option.splits list.splits)
next
  case (wf p s)
  then show ?thesis by (simp add: redeem_wf)
qed

text \<open>
  The retry bit is right: a failed redeem is retryable exactly when the request did not complete
  or the gateway answered 408, 429 or a status that is neither 200 nor 4xx. A 404, any other 4xx,
  a digest mismatch and a malformed argument are final.
\<close>

lemma redeem_retryable:
  assumes "parseClaimRef ref = Inr p" "sha256_pattern s"
    and "snd (redeem http t ref (JStr s)) = Inl e"
  shows "claim_retryable e \<longleftrightarrow>
     (case awaited http (claim_request (timeout_of t) p) of
        Rejects _ \<Rightarrow> True
      | Answers st _ _ \<Rightarrow> st = 408 \<or> st = 429 \<or> (st \<noteq> 200 \<and> \<not> (400 \<le> st \<and> st < 500)))"
proof (cases "awaited http (claim_request (timeout_of t) p)")
  case (Rejects msg)
  with assms show ?thesis by (auto simp: redeem_wf)
next
  case (Answers st data err)
  show ?thesis
  proof (cases "claim_judge st err")
    case None
    with Answers assms show ?thesis
      by (auto simp: redeem_wf claim_errors.judge_None Let_def split: if_splits)
  next
    case (Some e')
    with Answers assms have "e' = e" "st \<noteq> 200"
      using claim_errors.judge_None [of st err] by (auto simp: redeem_wf)
    with claim_errors.judge_retryable [OF Some] Answers show ?thesis by simp
  qed
qed

text \<open>A reference, for the examples.\<close>

definition example_ref :: ParsedClaimRef where
  "example_ref = \<lparr>tenantId = js ''acme'', claimId = js ''01ARZ3NDEKTSV4RRFFQ69G5FAV'',
    path = claim_path (js ''acme'') (js ''01ARZ3NDEKTSV4RRFFQ69G5FAV''), proof_of = None\<rparr>"

lemma example_ref_parses: "parseClaimRef (claim_urn example_ref) = Inr example_ref"
  by (simp add: parseClaimRef_iff example_ref_def claim_ref_ok_def tenant_group_iff claim_group_iff
      js_eval is_word_dash_def is_octal_def is_crockford_def)

end
