(* ===== verification/Consumer.thy ===== *)
theory Consumer
  imports Claim_Check Message Js_Coerce Js_Stringify
begin

text \<open>
  What the example consumers share: reading a message's JSON as an unchecked record, resolving its
  body (inline or behind a claim), the errors that can be thrown on the way, and the contract of a
  consumer, that every message is settled exactly once. The Node runtime's lenient base64 decoder
  is an argument outside the canonical texts on which it is fixed.
\<close>

section \<open>Configuration\<close>

text \<open>Configuration from the environment, with the source's defaults.\<close>

type_synonym env = "string \<Rightarrow> js_string option"

definition env_or :: "env \<Rightarrow> string \<Rightarrow> string \<Rightarrow> js_string" where
  "env_or env name def = (case env name of None \<Rightarrow> js def | Some v \<Rightarrow> v)"

section \<open>Unchecked records\<close>

text \<open>
  What a handler can throw: \<open>JSON.parse\<close>, a property of \<open>null\<close>, a buffer of a non-string, the text of
  an object with an own \<open>toString\<close>, the SDK, the worker's own permanent error.
\<close>

datatype permanent_reason = NotJson | UnsupportedVersion "json option" | ClaimWithoutSha256

datatype worker_error =
    SyntaxError
  | TypeError
  | ClaimError ClaimCheckError
  | MessageError InvalidMessageError
  | PermanentError permanent_reason
  | OtherError js_string

text \<open>\<open>value.key\<close> on a parsed value: \<open>null\<close> has no properties, other non-objects lack them.\<close>

definition js_get :: "json \<Rightarrow> string \<Rightarrow> (worker_error, json option) result" where
  "js_get v k = (if v = JNull then Inl TypeError else Inr (json_field v k))"

text \<open>
  The text a value is coerced to where a pattern is matched against it, if that text can match one
  of the reference patterns at all: a string, or an array of one such value. The text of every
  other value (a number, \<open>true\<close>, \<open>[object Object]\<close>, a list with a comma) matches neither.
\<close>

fun coerced_ref :: "json \<Rightarrow> js_string option" where
  "coerced_ref (JStr s) = Some s"
| "coerced_ref (JArr [v]) = coerced_ref v"
| "coerced_ref _ = None"

text \<open>\<open>Buffer.from(value ?? "", "base64")\<close>; \<open>other\<close> is the decoder outside canonical base64.\<close>

type_synonym buffer_from = "json \<Rightarrow> byte list option"

fun buffer_base64 :: "buffer_from \<Rightarrow> json option \<Rightarrow> (worker_error, byte list) result" where
  "buffer_base64 other None = Inr []"
| "buffer_base64 other (Some JNull) = Inr []"
| "buffer_base64 other (Some (JStr s)) =
     (case base64_decode s of
        Some b \<Rightarrow> Inr b
      | None \<Rightarrow> (case other (JStr s) of None \<Rightarrow> Inl TypeError | Some b \<Rightarrow> Inr b))"
| "buffer_base64 other (Some v) = (case other v of None \<Rightarrow> Inl TypeError | Some b \<Rightarrow> Inr b)"

section \<open>Resolving the body\<close>

datatype via = Inline | ViaClaim js_string

text \<open>What \<open>redeem\<close> throws, as the catch clauses see it: a claim-check error, or the \<open>TypeError\<close> beside them.\<close>

definition redeem_error :: "ClaimCheckError \<Rightarrow> worker_error" where
  "redeem_error e = (if e = RedeemTypeError then TypeError else ClaimError e)"

text \<open>\<open>parseClaimRef(msg.claim)\<close> and \<open>redeem(msg.claim, msg.sha256)\<close> on unchecked values.\<close>

definition redeem_claim ::
  "byte list http \<Rightarrow> json \<Rightarrow> json \<Rightarrow> (worker_error, byte list \<times> via) result" where
  "redeem_claim http claim sha =
     (if text_throws claim then Inl TypeError
      else case coerced_ref claim of
        None \<Rightarrow> Inl (ClaimError (InvalidRef (BadClaim claim)))
      | Some ref \<Rightarrow>
          (case parseClaimRef ref of
             Inl (InvalidClaimRefError r) \<Rightarrow> Inl (ClaimError (InvalidRef (BadRef r)))
           | Inr parsed \<Rightarrow>
               (case snd (redeem http None ref sha) of
                  Inl e \<Rightarrow> Inl (redeem_error e)
                | Inr body \<Rightarrow> Inr (body, ViaClaim (claimId parsed)))))"

definition resolveBody ::
  "buffer_from \<Rightarrow> byte list http \<Rightarrow> json \<Rightarrow> (worker_error, byte list \<times> via) result" where
  "resolveBody other http msg =
     result_bind (js_get msg ''claim'') (\<lambda>claim.
       if truthy claim then
         result_bind (js_get msg ''sha256'') (\<lambda>sha.
           if \<not> truthy sha then Inl (ClaimError (InvalidRef NoSha256))
           else redeem_claim http (the claim) (the sha))
       else
         result_bind (js_get msg ''body_base64'') (\<lambda>b.
           result_bind (buffer_base64 other b) (\<lambda>body. Inr (body, Inline))))"

text \<open>\<open>handleHook\<close> prints the hook; the templates throw on a field whose text does.\<close>

definition handleHook :: "json \<Rightarrow> (worker_error, unit) result" where
  "handleHook msg =
     (if template_throws (map (json_field msg) [''id'', ''source_id'', ''tenant_id'', ''size''])
      then Inl TypeError else Inr ())"

text \<open>\<open>JSON.parse(buffer.toString("utf8"))\<close>\<close>

definition parse_content :: "byte list \<Rightarrow> (worker_error, json) result" where
  "parse_content bs = (case JSON_parse (utf8_to_string bs) of None \<Rightarrow> Inl SyntaxError | Some v \<Rightarrow> Inr v)"

lemma redeem_error_simps [simp]:
  "redeem_error RedeemTypeError = TypeError" "e \<noteq> RedeemTypeError \<Longrightarrow> redeem_error e = ClaimError e"
  by (simp_all add: redeem_error_def)

text \<open>With a text for the digest, every error is a claim-check error.\<close>

lemma redeem_text_error: "snd (redeem http t ref (JStr s)) = Inl e \<Longrightarrow> redeem_error e = ClaimError e"
  by (auto simp: redeem_def redeem_error_def fetchBytes_def verifyIntegrity_def claim_judge_def Let_def
      split: sum.splits InvalidClaimRefError.splits option.splits fetch_outcome.splits if_splits)

lemma redeem_claim_verified:
  assumes "redeem_claim http claim sha = Inr (body, via)"
  shows "sha = JStr (sha256_hex body) \<and> (\<exists>c. via = ViaClaim c)"
proof -
  from assms obtain ref parsed where "coerced_ref claim = Some ref" "parseClaimRef ref = Inr parsed"
    "snd (redeem http None ref sha) = Inr body" "via = ViaClaim (claimId parsed)"
    by (auto simp: redeem_claim_def split: if_splits option.splits sum.splits InvalidClaimRefError.splits)
  then show ?thesis by (cases rule: redeem_cases [of ref sha])
    (auto simp: redeem_wf Let_def split: fetch_outcome.splits option.splits if_splits)
qed

text \<open>A claim body that reaches the handler has the digest the message announced.\<close>

lemma resolveBody_verified:
  assumes "resolveBody other http msg = Inr (body, ViaClaim c)"
  shows "json_field msg ''sha256'' = Some (JStr (sha256_hex body))"
proof -
  from assms obtain sha where "json_field msg ''sha256'' = sha" "truthy sha"
    "redeem_claim http (the (json_field msg ''claim'')) (the sha) = Inr (body, ViaClaim c)"
    by (auto simp: resolveBody_def js_get_def result_bind_iff split: if_splits)
  moreover from this(2) obtain v where "sha = Some v" by (cases sha) auto
  ultimately show ?thesis using redeem_claim_verified by fastforce
qed

section \<open>A claim message\<close>

text \<open>A message whose body is behind a claim, for the examples, and how it resolves at a gateway
  that holds the body.\<close>

definition claim_json :: json where
  "claim_json = JObj [(js ''claim'', JStr (claim_urn example_ref)), (js ''sha256'', JStr (sha256_hex [1, 2]))]"

definition claim_content :: js_string where
  "claim_content = JSON_stringify whole_text claim_json"

lemma parse_stringified:
  assumes "number_law num" "json_wf v" "safe_json v"
  shows "parse_content (utf8_encode (JSON_stringify num v)) = Inr v"
  using assms by (simp add: parse_content_def stringify_bytes JSON_parse_stringify)

lemma parse_claim_content: "parse_content (utf8_encode claim_content) = Inr claim_json"
  unfolding claim_content_def
  by (rule parse_stringified [OF whole_text_law]) (simp_all add: claim_json_def js_eval)

lemma claim_json_resolves:
  "resolveBody other (\<lambda>_. Answers 200 (Some [1, 2]) None) claim_json = Inr ([1, 2], ViaClaim (claimId example_ref))"
proof -
  have "claim_urn example_ref \<noteq> []" by (simp add: claim_urn_def example_ref_def js_eval)
  moreover have "sha256_hex [1, 2] \<noteq> []" using sha.hex_pattern [of "[1, 2]"] by (auto simp: sha256_pattern_def)
  ultimately show ?thesis
    by (simp add: claim_json_def resolveBody_def js_get_def redeem_claim_def example_ref_parses
        redeem_wf [OF example_ref_parses sha.hex_pattern] claim_judge_def Let_def js_eval)
qed

lemma claim_json_handled: "handleHook claim_json = Inr ()"
  by (simp add: handleHook_def claim_json_def template_throws_def js_eval)

section \<open>The settlement contract\<close>

text \<open>
  A consumer step takes the consumer's state and a message and returns the new state and the
  actions on the broker. The contract is that exactly one action settles the message; then a run
  over any sequence of messages settles each of them once, in order.
\<close>

fun run_consumer :: "('s \<Rightarrow> 'm \<Rightarrow> 's \<times> 'a list) \<Rightarrow> 's \<Rightarrow> 'm list \<Rightarrow> 's \<times> 'a list list" where
  "run_consumer step s [] = (s, [])"
| "run_consumer step s (m # ms) =
     (case step s m of (s1, acts) \<Rightarrow>
        (case run_consumer step s1 ms of (s2, rest) \<Rightarrow> (s2, acts # rest)))"

lemma run_consumer_snoc:
  "run_consumer step s (ms @ [m]) =
     (case run_consumer step s ms of (s1, acts) \<Rightarrow> (case step s1 m of (s2, a) \<Rightarrow> (s2, acts @ [a])))"
  by (induction ms arbitrary: s) (auto simp: split_beta)

locale consumer =
  fixes step :: "'s \<Rightarrow> 'm \<Rightarrow> 's \<times> 'a list"
    and settles :: "'a \<Rightarrow> bool"
  assumes settles_once: "length (filter settles (snd (step s m))) = 1"
begin

lemma run_settles_each:
  "length (snd (run_consumer step s ms)) = length ms \<and>
   list_all (\<lambda>acts. length (filter settles acts) = 1) (snd (run_consumer step s ms))"
proof (induction ms arbitrary: s)
  case (Cons m ms)
  then show ?case
    using settles_once [of s m] by (simp add: split_beta)
qed simp

lemma run_settles_all: "length (filter settles (concat (snd (run_consumer step s ms)))) = length ms"
proof (induction ms arbitrary: s)
  case (Cons m ms)
  then show ?case
    using settles_once [of s m] by (simp add: split_beta)
qed simp

end

end
