(* ===== verification/Rabbitmq.thy ===== *)
theory Rabbitmq
  imports Consumer
begin

text \<open>
  The RabbitMQ consumers: the example worker, \<open>examples/rabbitmq-consumer/worker/src/worker.ts\<close>, and
  the fleet example's, \<open>examples/fleet-e2e/consumer/src/worker.ts\<close>, which records every hook in a
  table. The broker client and the database driver are arguments where they can fail. The lemmas
  show that every delivery is settled exactly once and how, by the message and the gateway's answer
  alone, that connecting ends, and what the table holds after any sequence of deliveries.
\<close>

section \<open>The channel\<close>

record delivery =
  content :: "byte list"
  routingKey :: js_string

text \<open>Actions of a consumer: processing a hook, and the two ways to settle the delivery.\<close>

datatype channel_action = Handle json js_string "byte list" via | Ack | Nack bool

fun channel_settles :: "channel_action \<Rightarrow> bool" where
  "channel_settles (Handle _ _ _ _) = False"
| "channel_settles Ack = True"
| "channel_settles (Nack _) = True"

text \<open>\<open>err instanceof ClaimCheckError && !err.retryable\<close>\<close>

fun permanent_claim_error :: "worker_error \<Rightarrow> bool" where
  "permanent_claim_error (ClaimError e) = (\<not> claim_retryable e)"
| "permanent_claim_error _ = False"

text \<open>The catch clause: \<open>nack\<close> without requeue for a permanent error, with requeue for any other.\<close>

definition settle_error :: "worker_error \<Rightarrow> channel_action" where
  "settle_error e = (if permanent_claim_error e then Nack False else Nack True)"

section \<open>The example worker\<close>

text \<open>The consumer-owned topology \<open>main\<close> declares before it consumes.\<close>

datatype topology =
    AssertExchange js_string js_string bool
  | AssertQueue js_string bool
  | BindQueue js_string js_string js_string
  | Prefetch nat
  | Consume js_string

definition rabbit_main :: "env \<Rightarrow> topology list" where
  "rabbit_main env =
     (let exchange = env_or env ''RABBITMQ_EXCHANGE'' ''ankusa.events'';
          pattern = env_or env ''ROUTING_PATTERN'' ''ankusa.#'';
          queue = env_or env ''QUEUE_NAME'' ''ankusa-example-worker''
      in [AssertExchange exchange (js ''topic'') True, AssertQueue queue True,
          BindQueue queue exchange pattern, Prefetch 10, Consume queue])"

definition rabbit_handle :: "buffer_from \<Rightarrow> byte list http \<Rightarrow> delivery \<Rightarrow> channel_action list" where
  "rabbit_handle other http m =
     (case result_bind (parse_content (content m)) (\<lambda>decoded.
        result_bind (resolveBody other http decoded) (\<lambda>(body, via).
        result_bind (handleHook decoded) (\<lambda>_. Inr (decoded, body, via))))
      of
        Inr (decoded, body, via) \<Rightarrow> [Handle decoded (routingKey m) body via, Ack]
      | Inl e \<Rightarrow> [settle_error e])"

text \<open>The consume callback; the broker passes \<open>null\<close> when it cancels the consumer.\<close>

definition rabbit_consume :: "buffer_from \<Rightarrow> byte list http \<Rightarrow> delivery option \<Rightarrow> channel_action list" where
  "rabbit_consume other http m = (case m of None \<Rightarrow> [] | Some d \<Rightarrow> rabbit_handle other http d)"

lemma settle_error_settles [simp]: "channel_settles (settle_error e)"
  by (simp add: settle_error_def)

interpretation rabbit: consumer "\<lambda>(s :: unit) m. (s, rabbit_handle other http m)" channel_settles
  by unfold_locales (auto simp: rabbit_handle_def split: sum.split)

section \<open>The fleet consumer\<close>

text \<open>A row of \<open>processed_webhooks\<close>, and the table by its primary key.\<close>

record row =
  ankusa_id :: js_string
  row_source_id :: js_string
  row_tenant_id :: "js_string option"
  row_body :: "byte list"
  body_sha256 :: js_string
  deliveries :: nat
  row_via :: via
  hook_ids :: "js_string list"

type_synonym table = "js_string \<Rightarrow> row option"

text \<open>
  A query parameter as text: \<open>None\<close> is NULL, \<open>shown\<close> the driver's text of a value that is no string. The
  driver sends a string as UTF-8, in which a lone surrogate is U+FFFD.
\<close>

fun pg_text :: "(json \<Rightarrow> js_string) \<Rightarrow> json option \<Rightarrow> js_string option" where
  "pg_text shown None = None"
| "pg_text shown (Some JNull) = None"
| "pg_text shown (Some (JStr s)) = Some (utf8_to_string (utf8_encode s))"
| "pg_text shown (Some v) = Some (shown v)"

text \<open>\<open>msg.idempotency_key ?? msg.id\<close>\<close>

definition row_key :: "json \<Rightarrow> json option" where
  "row_key msg = (if nullish (json_field msg ''idempotency_key'') then json_field msg ''id''
     else json_field msg ''idempotency_key'')"

text \<open>The statement: insert a first delivery, or count one more and add the hook id if it is new.\<close>

definition upsert :: "js_string \<Rightarrow> row \<Rightarrow> table \<Rightarrow> table" where
  "upsert key new t =
     t(key \<mapsto>
       (case t key of
          None \<Rightarrow> new
        | Some old \<Rightarrow> old\<lparr>deliveries := deliveries old + 1,
            hook_ids := (if ankusa_id new \<in> set (hook_ids old) then hook_ids old
                         else hook_ids old @ [ankusa_id new])\<rparr>))"

text \<open>
  \<open>record(msg, body, via)\<close>: NULL for a \<open>NOT NULL\<close> column is refused by the schema; \<open>db\<close> says whether
  the query fails for any other reason.
\<close>

definition hook_row ::
  "(json \<Rightarrow> js_string) \<Rightarrow> (json \<Rightarrow> js_string option) \<Rightarrow> json \<Rightarrow> byte list \<Rightarrow> via \<Rightarrow> (worker_error, js_string \<times> row) result"
  where
  "hook_row shown db msg body via =
     (case (pg_text shown (row_key msg), pg_text shown (json_field msg ''id''),
            pg_text shown (json_field msg ''source_id'')) of
        (Some key, Some i, Some src) \<Rightarrow>
          (case db msg of
             Some e \<Rightarrow> Inl (OtherError e)
           | None \<Rightarrow> Inr (key,
               \<lparr>ankusa_id = i, row_source_id = src, row_tenant_id = pg_text shown (json_field msg ''tenant_id''),
                row_body = body, body_sha256 = sha256_hex body, deliveries = 1, row_via = via, hook_ids = [i]\<rparr>))
      | _ \<Rightarrow> Inl (OtherError (js ''null value in column'')))"

definition record_hook ::
  "(json \<Rightarrow> js_string) \<Rightarrow> (json \<Rightarrow> js_string option) \<Rightarrow> json \<Rightarrow> byte list \<Rightarrow> via \<Rightarrow> table \<Rightarrow> (worker_error, table) result"
  where
  "record_hook shown db msg body via t =
     result_bind (hook_row shown db msg body via) (\<lambda>(key, new). Inr (upsert key new t))"

definition fleet_handle ::
  "buffer_from \<Rightarrow> byte list http \<Rightarrow> (json \<Rightarrow> js_string) \<Rightarrow> (json \<Rightarrow> js_string option) \<Rightarrow> table \<Rightarrow> delivery \<Rightarrow>
     table \<times> channel_action list" where
  "fleet_handle other http shown db t m =
     (case result_bind (parse_content (content m)) (\<lambda>decoded.
        result_bind (resolveBody other http decoded) (\<lambda>(body, via).
        result_bind (record_hook shown db decoded body via t) Inr))
      of
        Inr t' \<Rightarrow> (t', [Ack])
      | Inl e \<Rightarrow> (t, [settle_error e]))"

interpretation fleet: consumer "fleet_handle other http shown db" channel_settles
  by unfold_locales (auto simp: fleet_handle_def split: sum.split)

definition fleet_main :: "env \<Rightarrow> topology list" where
  "fleet_main env =
     (let exchange = env_or env ''RABBITMQ_EXCHANGE'' ''ankusa.events'';
          pattern = env_or env ''ROUTING_PATTERN'' ''ankusa.#'';
          queue = env_or env ''QUEUE_NAME'' ''ankusa-fleet-consumer''
      in [AssertExchange exchange (js ''topic'') True, AssertQueue queue True,
          BindQueue queue exchange pattern, Prefetch 32, Consume queue])"

text \<open>
  \<open>connect()\<close> from its \<open>attempt\<close>-th attempt, on the broker's answers to the attempts in order: the
  connection or the error, and the number of attempts made; the 60th failure is thrown. The loop
  is bounded, so it ends for every broker.
\<close>

function fleet_connect :: "(nat \<Rightarrow> js_string + 'c) \<Rightarrow> nat \<Rightarrow> (js_string, 'c) result \<times> nat" where
  "fleet_connect amqp attempt =
     (case amqp attempt of
        Inr conn \<Rightarrow> (Inr conn, attempt)
      | Inl err \<Rightarrow> if attempt \<ge> 60 then (Inl err, attempt) else fleet_connect amqp (attempt + 1))"
  by pat_completeness auto
termination
  by (relation "measure (\<lambda>(amqp, attempt). 60 - attempt)") auto

declare fleet_connect.simps [simp del]

section \<open>Properties of the example worker\<close>

text \<open>
  Every delivery is settled exactly once: over any sequence of deliveries, whatever their content
  and whatever the gateway answers, the worker acks or nacks each of them once and none twice.
\<close>

lemma rabbit_settles_each:
  "let acts = snd (run_consumer (\<lambda>(s :: unit) m. (s, rabbit_handle other http m)) () ms)
   in length acts = length ms \<and> list_all (\<lambda>a. length (filter channel_settles a) = 1) acts"
  unfolding Let_def by (rule rabbit.run_settles_each)













text \<open>
  Content that is not JSON is requeued, by both consumers and every time it comes back: the
  failure policy of the documentation calls a decode error permanent, but here it is settled like
  a passing failure, so the message returns to the queue unchanged.
\<close>

lemma not_json_requeued:
  assumes "JSON_parse (utf8_to_string (content m)) = None"
  shows "rabbit_handle other http m = [Nack True] \<and> fleet_handle other http shown db t m = (t, [Nack True])"
  using assms
  by (simp add: rabbit_handle_def fleet_handle_def parse_content_def settle_error_def)

section \<open>Properties of the fleet consumer\<close>

text \<open>What one delivery records: its key and the row of a first delivery; \<open>None\<close> when it is refused.\<close>

definition fleet_entry ::
  "buffer_from \<Rightarrow> byte list http \<Rightarrow> (json \<Rightarrow> js_string) \<Rightarrow> (json \<Rightarrow> js_string option) \<Rightarrow> delivery \<Rightarrow> (js_string \<times> row) option"
  where
  "fleet_entry other http shown db m =
     result_value (result_bind (parse_content (content m)) (\<lambda>decoded.
       result_bind (resolveBody other http decoded) (\<lambda>(body, via). hook_row shown db decoded body via)))"

lemma hook_row_first:
  "hook_row shown db msg body via = Inr (key, new) \<Longrightarrow> deliveries new = 1 \<and> hook_ids new = [ankusa_id new]"
  by (auto simp: hook_row_def split: option.splits)

lemma fleet_handle_entry:
  "case fleet_entry other http shown db m of
     Some (key, new) \<Rightarrow> fleet_handle other http shown db t m = (upsert key new t, [Ack]) \<and>
       deliveries new = 1 \<and> hook_ids new = [ankusa_id new]
   | None \<Rightarrow> \<exists>rq. fleet_handle other http shown db t m = (t, [Nack rq])"
proof -
  have settle: "\<exists>rq. settle_error e = Nack rq" for e
    unfolding settle_error_def by metis
  show ?thesis
  proof (cases "parse_content (content m)")
    case (Inl e)
    then show ?thesis using settle by (simp add: fleet_entry_def fleet_handle_def)
  next
    case msg: (Inr msg)
    show ?thesis
    proof (cases "resolveBody other http msg")
      case (Inl e)
      with msg show ?thesis using settle by (simp add: fleet_entry_def fleet_handle_def)
    next
      case bv: (Inr bv)
      show ?thesis
        using msg bv settle hook_row_first
        by (cases bv; cases "hook_row shown db msg (fst bv) (snd bv)")
          (auto simp: fleet_entry_def fleet_handle_def record_hook_def)
    qed
  qed
qed

text \<open>The hook ids recorded under a key, one for each recorded delivery.\<close>

definition recorded_ids :: "(delivery \<Rightarrow> (js_string \<times> row) option) \<Rightarrow> js_string \<Rightarrow> delivery list \<Rightarrow> js_string list" where
  "recorded_ids entry key ms =
     concat (map (\<lambda>m. case entry m of Some (k, r) \<Rightarrow> if k = key then [ankusa_id r] else [] | None \<Rightarrow> []) ms)"

definition row_ok :: "js_string list \<Rightarrow> row option \<Rightarrow> bool" where
  "row_ok ids r \<longleftrightarrow>
     (case r of
        None \<Rightarrow> ids = []
      | Some row \<Rightarrow> ids \<noteq> [] \<and> deliveries row = length ids \<and> set (hook_ids row) = set ids \<and> distinct (hook_ids row))"

lemma row_ok_upsert:
  assumes "row_ok ids (t key)" "deliveries new = 1" "hook_ids new = [ankusa_id new]"
  shows "row_ok (ids @ [ankusa_id new]) (upsert key new t key)"
  using assms by (auto simp: row_ok_def upsert_def split: option.splits)

lemma fleet_table:
  "row_ok (recorded_ids (fleet_entry other http shown db) key ms)
     (fst (run_consumer (fleet_handle other http shown db) (\<lambda>_. None) ms) key)"
proof (induction ms rule: rev_induct)
  case Nil
  then show ?case by (simp add: row_ok_def recorded_ids_def)
next
  case (snoc m ms)
  let ?t = "fst (run_consumer (fleet_handle other http shown db) (\<lambda>_. None) ms)"
  have run: "fst (run_consumer (fleet_handle other http shown db) (\<lambda>_. None) (ms @ [m])) =
      fst (fleet_handle other http shown db ?t m)"
    by (simp add: run_consumer_snoc split_beta)
  show ?case
  proof (cases "fleet_entry other http shown db m")
    case None
    with fleet_handle_entry [where other = other and http = http and shown = shown and db = db and m = m and t = ?t] snoc show ?thesis
      by (auto simp: run recorded_ids_def)
  next
    case (Some e)
    obtain k new where e: "e = (k, new)" by (cases e)
    have h: "fleet_handle other http shown db ?t m = (upsert k new ?t, [Ack])" "deliveries new = 1" "hook_ids new = [ankusa_id new]"
      using fleet_handle_entry [where other = other and http = http and shown = shown and db = db and m = m and t = ?t] Some e by simp_all
    show ?thesis
    proof (cases "k = key")
      case True
      with row_ok_upsert [of _ ?t key new, OF snoc h(2,3)] Some e h(1) show ?thesis
        by (simp add: run recorded_ids_def)
    next
      case False
      with snoc Some e h(1) show ?thesis by (simp add: run recorded_ids_def upsert_def)
    qed
  qed
qed

text \<open>
  C14. The table is the ledger of the deliveries: starting empty, after any sequence of deliveries
  the row of a key exists exactly when a delivery with that key was recorded, its \<open>deliveries\<close> is
  the number of those deliveries, and its \<open>hook_ids\<close> lists each distinct hook id among them once.
  A redelivery of the same hook counts a delivery but adds no id.
\<close>

theorem fleet_ledger:
  "let t = fst (run_consumer (fleet_handle other http shown db) (\<lambda>_. None) ms);
       ids = recorded_ids (fleet_entry other http shown db) key ms
   in (case t key of
         None \<Rightarrow> ids = []
       | Some r \<Rightarrow> ids \<noteq> [] \<and> deliveries r = length ids \<and> set (hook_ids r) = set ids \<and> distinct (hook_ids r))"
  using fleet_table [of other http shown db key ms] by (simp add: row_ok_def Let_def split: option.splits)

text \<open>What the loop guarantees when it ends at attempt \<open>n\<close> after starting at attempt \<open>a\<close>.\<close>

definition connect_post :: "(nat \<Rightarrow> js_string + 'c) \<Rightarrow> nat \<Rightarrow> (js_string, 'c) result \<times> nat \<Rightarrow> bool" where
  "connect_post amqp a r \<longleftrightarrow>
     (case r of (res, n) \<Rightarrow>
        a \<le> n \<and> n \<le> 60 \<and> res = amqp n \<and> (\<forall>b. a \<le> b \<longrightarrow> b < n \<longrightarrow> (\<exists>e. amqp b = Inl e)) \<and>
        ((\<exists>e. res = Inl e) \<longrightarrow> n = 60))"

lemma connect_post_step:
  assumes "connect_post amqp (a + 1) r" "amqp a = Inl e"
  shows "connect_post amqp a r"
proof -
  obtain res n where r: "r = (res, n)" by (cases r)
  have "\<exists>e. amqp b = Inl e" if "a \<le> b" "b < n" for b
  proof (cases "b = a")
    case False
    with that have "a + 1 \<le> b" by simp
    with assms(1) that(2) show ?thesis unfolding connect_post_def r by blast
  qed (simp add: assms(2))
  moreover have "a + 1 \<le> n" "n \<le> 60" "res = amqp n" "(\<exists>e. res = Inl e) \<longrightarrow> n = 60"
    using assms(1) unfolding connect_post_def r prod.case by blast+
  moreover from this(1) have "a \<le> n" by linarith
  ultimately show ?thesis unfolding connect_post_def r prod.case by blast
qed

lemma fleet_connect_from: "1 \<le> a \<Longrightarrow> a \<le> 60 \<Longrightarrow> connect_post amqp a (fleet_connect amqp a)"
proof (induction "60 - a" arbitrary: a)
  case 0
  then have "a = 60" by simp
  then have "fleet_connect amqp a = (amqp a, a)"
    by (subst fleet_connect.simps) (simp split: sum.split)
  with \<open>a = 60\<close> show ?case by (simp add: connect_post_def)
next
  case (Suc n)
  show ?case
  proof (cases "amqp a")
    case (Inr c)
    then have "fleet_connect amqp a = (Inr c, a)" by (subst fleet_connect.simps) simp
    with Inr Suc.prems show ?thesis by (simp add: connect_post_def)
  next
    case (Inl e)
    have a: "n = 60 - (a + 1)" "1 \<le> a + 1" "a + 1 \<le> 60" and "\<not> 60 \<le> a" using Suc(2-) by linarith+
    then have "fleet_connect amqp a = fleet_connect amqp (a + 1)"
      using Inl fleet_connect.simps [of amqp a] by simp
    with connect_post_step [OF Suc(1) [OF a] Inl] show ?thesis by simp
  qed
qed

text \<open>
  C36. Connecting ends within 60 attempts, whatever the broker does: the first attempt that succeeds is
  the one used, and only if the first 60 all fail is an error thrown, which is the 60th.
\<close>

theorem fleet_connect_bounded:
  "case fleet_connect amqp 1 of (res, n) \<Rightarrow>
     1 \<le> n \<and> n \<le> 60 \<and> res = amqp n \<and> (\<forall>b. 1 \<le> b \<longrightarrow> b < n \<longrightarrow> (\<exists>e. amqp b = Inl e)) \<and>
     ((\<exists>e. res = Inl e) \<longrightarrow> n = 60)"
  using fleet_connect_from [of 1 amqp] by (simp add: connect_post_def)

text \<open>A broker that is up from the third attempt on.\<close>

definition starting_broker :: "nat \<Rightarrow> js_string + unit" where
  "starting_broker n = (if n < 3 then Inl (js ''ECONNREFUSED'') else Inr ())"

theorem fleet_connect_bounded_witness: "fleet_connect starting_broker 1 = (Inr (), 3)"
proof -
  obtain res n where r: "fleet_connect starting_broker 1 = (res, n)" by fastforce
  note post = fleet_connect_bounded [of starting_broker, unfolded r prod.case]
  have n: "res = starting_broker n" "(\<exists>e. res = Inl e) \<longrightarrow> n = 60"
    and before: "1 \<le> b \<Longrightarrow> b < n \<Longrightarrow> \<exists>e. starting_broker b = Inl e" for b
    using post by blast+
  have "\<not> 3 < n" using before [of 3] by (auto simp: starting_broker_def)
  moreover have "\<not> n < 3"
  proof
    assume "n < 3"
    then have "res = Inl (js ''ECONNREFUSED'')" using n(1) by (simp add: starting_broker_def)
    with n(2) have "n = 60" by blast
    with \<open>n < 3\<close> show False by simp
  qed
  ultimately have "n = 3" by simp
  with r n(1) show ?thesis by (simp add: starting_broker_def)
qed

end
