(* ===== verification/Sqs.thy ===== *)
theory Sqs
  imports Consumer
begin

text \<open>
  The SQS worker, \<open>examples/kafka-sqs-consumer/worker/src/worker.ts\<close>: batches of a FIFO queue, with
  a dead-letter queue. The SQS service and the claim-check gateway are arguments that answer with
  knowledge of everything that happened so far. The lemmas show that a message leaves the queue
  only after it was handled or copied to the dead-letter queue, that no hook is handled twice, that
  a group stays in order within a batch, and the times of the back-off.
\<close>

section \<open>Messages and events\<close>

text \<open>The fields the worker reads of a received message; each may be absent.\<close>

record sqs_message =
  Body :: "js_string option"
  MessageId :: "js_string option"
  ReceiptHandle :: "js_string option"
  MessageGroupId :: "js_string option"
  ApproximateReceiveCount :: "js_string option"

text \<open>The commands sent to SQS; the reason of a dead letter is the error whose message is sent.\<close>

datatype sqs_command =
    DeleteMessage "js_string option"
  | SendMessage "js_string option" "js_string option" "js_string option" worker_error
  | ChangeMessageVisibility "js_string option" js_number

text \<open>What happened: a command for a message with its outcome (the error, if it failed), or a handled hook.\<close>

datatype sqs_event =
    Command sqs_message sqs_command "js_string option"
  | Hooked sqs_message json "byte list" via

type_synonym aws = "sqs_event list \<Rightarrow> sqs_command \<Rightarrow> js_string option"

type_synonym gateway = "sqs_event list \<Rightarrow> byte list http"

record sqs_state =
  processed :: "json option list"
  trace :: "sqs_event list"

type_synonym sqs_result = "sqs_state \<times> (worker_error, unit) result"

definition sqs_send :: "aws \<Rightarrow> sqs_message \<Rightarrow> sqs_command \<Rightarrow> sqs_state \<Rightarrow> sqs_result" where
  "sqs_send aws m cmd s =
     (let r = aws (trace s) cmd
      in (s\<lparr>trace := trace s @ [Command m cmd r]\<rparr>,
          case r of None \<Rightarrow> Inr () | Some e \<Rightarrow> Inl (OtherError e)))"

section \<open>The worker\<close>

text \<open>
  \<open>parse(body)\<close>. A property of \<open>null\<close> is a \<open>TypeError\<close>, outside the \<open>try\<close> that turns a syntax error into
  a permanent one; so is the text of a version that has none.
\<close>

definition sqs_parse :: "js_string option \<Rightarrow> (worker_error, json) result" where
  "sqs_parse body =
     (case JSON_parse (case body of None \<Rightarrow> [] | Some b \<Rightarrow> b) of
        None \<Rightarrow> Inl (PermanentError NotJson)
      | Some msg \<Rightarrow>
          result_bind (js_get msg ''v'') (\<lambda>v.
            if v \<noteq> Some (JNum (Fin 1)) then
              (if template_throws [v] then Inl TypeError else Inl (PermanentError (UnsupportedVersion v)))
            else if truthy (json_field msg ''claim'') \<and> \<not> truthy (json_field msg ''sha256'')
            then Inl (PermanentError ClaimWithoutSha256)
            else Inr msg))"

definition sqs_resolveBody :: "buffer_from \<Rightarrow> byte list http \<Rightarrow> json \<Rightarrow> (worker_error, byte list \<times> via) result" where
  "sqs_resolveBody other http msg =
     (if truthy (json_field msg ''claim'') \<and> truthy (json_field msg ''sha256'')
      then redeem_claim http (the (json_field msg ''claim'')) (the (json_field msg ''sha256''))
      else result_bind (buffer_base64 other (json_field msg ''body_base64'')) (\<lambda>body. Inr (body, Inline)))"

definition sqs_remove :: "aws \<Rightarrow> sqs_message \<Rightarrow> sqs_state \<Rightarrow> sqs_result" where
  "sqs_remove aws m = sqs_send aws m (DeleteMessage (ReceiptHandle m))"

text \<open>Send, then delete.\<close>

definition sqs_deadLetter :: "aws \<Rightarrow> sqs_message \<Rightarrow> worker_error \<Rightarrow> sqs_state \<Rightarrow> sqs_result" where
  "sqs_deadLetter aws m reason s =
     (case sqs_send aws m (SendMessage (Body m) (MessageGroupId m) (MessageId m) reason) s of
        (s1, Inl e) \<Rightarrow> (s1, Inl e)
      | (s1, Inr _) \<Rightarrow> sqs_remove aws m s1)"

text \<open>\<open>Math.min(30 * 2 ** (receives - 1), 900)\<close>\<close>

definition backOff_seconds :: "(rat \<Rightarrow> js_number) \<Rightarrow> sqs_message \<Rightarrow> js_number" where
  "backOff_seconds pow m =
     (let receives = num_of_string (case ApproximateReceiveCount m of None \<Rightarrow> js ''1'' | Some n \<Rightarrow> n)
      in num_min (num_mul (Fin 30) (num_exp2 pow (num_sub receives (Fin 1)))) (Fin 900))"

definition sqs_backOff :: "(rat \<Rightarrow> js_number) \<Rightarrow> aws \<Rightarrow> sqs_message \<Rightarrow> sqs_state \<Rightarrow> sqs_result" where
  "sqs_backOff pow aws m = sqs_send aws m (ChangeMessageVisibility (ReceiptHandle m) (backOff_seconds pow m))"

definition message_group :: "sqs_message \<Rightarrow> js_string" where
  "message_group m = (case MessageGroupId m of None \<Rightarrow> [] | Some g \<Rightarrow> g)"

text \<open>The body of the \<open>try\<close>.\<close>

definition sqs_process :: "buffer_from \<Rightarrow> gateway \<Rightarrow> aws \<Rightarrow> sqs_message \<Rightarrow> sqs_state \<Rightarrow> sqs_result" where
  "sqs_process other gw aws m s =
     (case sqs_parse (Body m) of
        Inl e \<Rightarrow> (s, Inl e)
      | Inr msg \<Rightarrow>
          (if set_has (processed s) (json_field msg ''id'') then sqs_remove aws m s
           else case result_bind (sqs_resolveBody other (gw (trace s)) msg) (\<lambda>bv.
               result_bind (handleHook msg) (\<lambda>_. Inr bv)) of
             Inl e \<Rightarrow> (s, Inl e)
           | Inr (body, via) \<Rightarrow>
               sqs_remove aws m
                 (s\<lparr>processed := processed s @ [json_field msg ''id''],
                    trace := trace s @ [Hooked m msg body via]\<rparr>)))"

text \<open>\<open>err instanceof PermanentError || (err instanceof ClaimCheckError && !err.retryable)\<close>\<close>

fun sqs_permanent :: "worker_error \<Rightarrow> bool" where
  "sqs_permanent (PermanentError _) = True"
| "sqs_permanent (ClaimError e) = (\<not> claim_retryable e)"
| "sqs_permanent _ = False"

text \<open>One round of the loop of \<open>processBatch\<close>, with the groups blocked so far. An error of the catch
  clause, or of the back-off of a blocked group, escapes.\<close>

definition sqs_step ::
  "(rat \<Rightarrow> js_number) \<Rightarrow> buffer_from \<Rightarrow> gateway \<Rightarrow> aws \<Rightarrow> js_string list \<Rightarrow> sqs_message \<Rightarrow> sqs_state \<Rightarrow>
     js_string list \<times> sqs_result" where
  "sqs_step pow other gw aws blocked m s =
     (let group = message_group m
      in if group \<in> set blocked then (blocked, sqs_backOff pow aws m s)
         else case sqs_process other gw aws m s of
           (s1, Inr _) \<Rightarrow> (blocked, (s1, Inr ()))
         | (s1, Inl e) \<Rightarrow>
             (if sqs_permanent e then (blocked, sqs_deadLetter aws m e s1)
              else (blocked @ [group], sqs_backOff pow aws m s1)))"

fun processBatch_from ::
  "(rat \<Rightarrow> js_number) \<Rightarrow> buffer_from \<Rightarrow> gateway \<Rightarrow> aws \<Rightarrow> js_string list \<Rightarrow> sqs_message list \<Rightarrow> sqs_state \<Rightarrow> sqs_result" where
  "processBatch_from pow other gw aws blocked [] s = (s, Inr ())"
| "processBatch_from pow other gw aws blocked (m # ms) s =
     (case sqs_step pow other gw aws blocked m s of
        (blocked1, s1, Inl e) \<Rightarrow> (s1, Inl e)
      | (blocked1, s1, Inr _) \<Rightarrow> processBatch_from pow other gw aws blocked1 ms s1)"

definition processBatch ::
  "(rat \<Rightarrow> js_number) \<Rightarrow> buffer_from \<Rightarrow> gateway \<Rightarrow> aws \<Rightarrow> sqs_message list \<Rightarrow> sqs_state \<Rightarrow> sqs_result" where
  "processBatch pow other gw aws = processBatch_from pow other gw aws []"

text \<open>
  \<open>main\<close> on what the receive calls return before the worker is told to stop: a batch, or an error.
  An error ends the process.
\<close>

fun sqs_main ::
  "(rat \<Rightarrow> js_number) \<Rightarrow> buffer_from \<Rightarrow> gateway \<Rightarrow> aws \<Rightarrow> (js_string + sqs_message list) list \<Rightarrow> sqs_state \<Rightarrow> sqs_result" where
  "sqs_main pow other gw aws [] s = (s, Inr ())"
| "sqs_main pow other gw aws (Inl e # rs) s = (s, Inl (OtherError e))"
| "sqs_main pow other gw aws (Inr ms # rs) s =
     (case processBatch pow other gw aws ms s of
        (s1, Inl e) \<Rightarrow> (s1, Inl e)
      | (s1, Inr _) \<Rightarrow> sqs_main pow other gw aws rs s1)"

section \<open>What the events tell\<close>

fun event_message :: "sqs_event \<Rightarrow> sqs_message" where
  "event_message (Command m _ _) = m"
| "event_message (Hooked m _ _ _) = m"

fun backs_off :: "sqs_event \<Rightarrow> bool" where
  "backs_off (Command _ (ChangeMessageVisibility _ _) _) = True"
| "backs_off _ = False"

text \<open>An event that settles its message: it was deleted, or hidden until its next delivery.\<close>

fun sqs_settles :: "sqs_event \<Rightarrow> bool" where
  "sqs_settles (Command _ (DeleteMessage _) None) = True"
| "sqs_settles (Command _ (ChangeMessageVisibility _ _) None) = True"
| "sqs_settles _ = False"

fun dead_letter_of :: "sqs_message \<Rightarrow> sqs_event \<Rightarrow> bool" where
  "dead_letter_of m (Command m' (SendMessage b _ _ _) None) = (m' = m \<and> b = Body m)"
| "dead_letter_of m _ = False"

text \<open>The id a hook was handled under, and whether an event handled the hook of a message.\<close>

definition hooked_ids :: "sqs_event list \<Rightarrow> json option list" where
  "hooked_ids tr = concat (map (\<lambda>e. case e of Hooked _ msg _ _ \<Rightarrow> [json_field msg ''id''] | _ \<Rightarrow> []) tr)"

definition hook_handled :: "sqs_event list \<Rightarrow> sqs_message \<Rightarrow> bool" where
  "hook_handled tr m \<longleftrightarrow>
     list_ex (\<lambda>e. case e of Hooked m' _ _ _ \<Rightarrow> m' = m | _ \<Rightarrow> False) tr \<or>
     (case sqs_parse (Body m) of Inr msg \<Rightarrow> set_has (hooked_ids tr) (json_field msg ''id'') | Inl _ \<Rightarrow> False)"

fun justified :: "sqs_event list \<Rightarrow> sqs_event \<Rightarrow> bool" where
  "justified tr (Command m (DeleteMessage _) None) = (list_ex (dead_letter_of m) tr \<or> hook_handled tr m)"
| "justified tr _ = True"

definition safe_trace :: "sqs_event list \<Rightarrow> bool" where
  "safe_trace tr = list_all (\<lambda>i. justified (take i tr) (tr ! i)) [0..<length tr]"

lemma safe_trace_Nil [simp]: "safe_trace []"
  by (simp add: safe_trace_def)

lemma safe_trace_snoc [simp]: "safe_trace (tr @ [e]) \<longleftrightarrow> safe_trace tr \<and> justified tr e"
  by (auto simp: safe_trace_def list_all_iff nth_append)

lemma hooked_ids_snoc [simp]:
  "hooked_ids (tr @ [e]) = hooked_ids tr @ (case e of Hooked _ msg _ _ \<Rightarrow> [json_field msg ''id''] | _ \<Rightarrow> [])"
  by (simp add: hooked_ids_def)

section \<open>The invariant\<close>

text \<open>
  The memory is the ids of the handled hooks, no id that can be compared is in it twice, and every
  deletion was justified when it happened.
\<close>

definition sqs_ok :: "sqs_state \<Rightarrow> bool" where
  "sqs_ok s \<longleftrightarrow>
     processed s = hooked_ids (trace s) \<and> distinct (filter (\<lambda>v. \<not> is_reference v) (processed s)) \<and>
     safe_trace (trace s)"

lemma sqs_send_ok:
  assumes "sqs_ok s" "justified (trace s) (Command m cmd (aws (trace s) cmd))"
  shows "sqs_ok (fst (sqs_send aws m cmd s))"
  using assms by (auto simp: sqs_ok_def sqs_send_def Let_def)

lemma backOff_ok: "sqs_ok s \<Longrightarrow> sqs_ok (fst (sqs_backOff pow aws m s))"
  unfolding sqs_backOff_def by (rule sqs_send_ok) simp_all

lemma remove_ok:
  "sqs_ok s \<Longrightarrow> list_ex (dead_letter_of m) (trace s) \<or> hook_handled (trace s) m \<Longrightarrow> sqs_ok (fst (sqs_remove aws m s))"
  unfolding sqs_remove_def
  by (rule sqs_send_ok) (cases "aws (trace s) (DeleteMessage (ReceiptHandle m))"; simp)+

lemma deadLetter_ok:
  assumes "sqs_ok s"
  shows "sqs_ok (fst (sqs_deadLetter aws m e s))"
proof -
  let ?send = "SendMessage (Body m) (MessageGroupId m) (MessageId m) e"
  have ok: "sqs_ok (fst (sqs_send aws m ?send s))" using assms by (rule sqs_send_ok) simp
  show ?thesis
  proof (cases "aws (trace s) ?send")
    case None
    then have "list_ex (dead_letter_of m) (trace (fst (sqs_send aws m ?send s)))"
      by (simp add: sqs_send_def Let_def)
    with ok remove_ok None show ?thesis
      by (simp add: sqs_deadLetter_def sqs_send_def Let_def)
  next
    case (Some x)
    with ok show ?thesis by (simp add: sqs_deadLetter_def sqs_send_def Let_def)
  qed
qed

lemma hooked_ok:
  assumes "sqs_ok s" "\<not> set_has (processed s) (json_field msg ''id'')"
  shows "sqs_ok (s\<lparr>processed := processed s @ [json_field msg ''id''], trace := trace s @ [Hooked m msg body via]\<rparr>)"
  using assms by (auto simp: sqs_ok_def set_has_def)

lemma process_ok:
  assumes "sqs_ok s"
  shows "sqs_ok (fst (sqs_process other gw aws m s))"
proof (cases "sqs_parse (Body m)")
  case (Inl e)
  with assms show ?thesis by (simp add: sqs_process_def)
next
  case (Inr msg)
  let ?attempt = "result_bind (sqs_resolveBody other (gw (trace s)) msg) (\<lambda>bv. result_bind (handleHook msg) (\<lambda>_. Inr bv))"
  show ?thesis
  proof (cases "set_has (processed s) (json_field msg ''id'')")
    case True
    with assms Inr have "hook_handled (trace s) m" by (simp add: hook_handled_def sqs_ok_def)
    with assms Inr True show ?thesis by (simp add: sqs_process_def remove_ok)
  next
    case False
    show ?thesis
    proof (cases ?attempt)
      case (Inl e)
      with assms Inr False show ?thesis by (simp add: sqs_process_def)
    next
      case tried: (Inr bv)
      obtain body via where bv: "bv = (body, via)" by (cases bv)
      have "hook_handled (trace s @ [Hooked m msg body via]) m" by (simp add: hook_handled_def)
      with hooked_ok [OF assms False] Inr False tried bv show ?thesis by (simp add: sqs_process_def remove_ok)
    qed
  qed
qed

lemma step_ok: "sqs_ok s \<Longrightarrow> sqs_ok (fst (snd (sqs_step pow other gw aws blocked m s)))"
  using process_ok [of s other gw aws m]
  by (auto simp: sqs_step_def Let_def backOff_ok deadLetter_ok split: prod.split sum.split)

lemma batch_ok: "sqs_ok s \<Longrightarrow> sqs_ok (fst (processBatch_from pow other gw aws blocked ms s))"
proof (induction ms arbitrary: blocked s)
  case (Cons m ms)
  with step_ok [of s pow other gw aws blocked m] show ?case
    by (auto split: prod.splits sum.splits)
qed simp

lemma main_ok: "sqs_ok s \<Longrightarrow> sqs_ok (fst (sqs_main pow other gw aws rs s))"
proof (induction rs arbitrary: s)
  case (Cons r rs)
  show ?case
  proof (cases r)
    case (Inl e)
    with Cons show ?thesis by simp
  next
    case (Inr ms)
    with Cons batch_ok [of s pow other gw aws "[]" ms] show ?thesis
      by (auto simp: processBatch_def split: prod.splits sum.splits)
  qed
qed simp

section \<open>The events of one message\<close>

text \<open>In a batch, once an event of a group is a back-off, so is every later event of the group.\<close>

definition keeps_order :: "sqs_event \<Rightarrow> sqs_event \<Rightarrow> bool" where
  "keeps_order e f \<longleftrightarrow>
     (backs_off e \<and> message_group (event_message f) = message_group (event_message e) \<longrightarrow> backs_off f)"

text \<open>
  The events \<open>seg\<close> of a round for \<open>m\<close>: all for \<open>m\<close>, in order, with one settling event unless the worker
  dies, only a back-off if the group was blocked, and no back-off if it is not blocked afterwards.
\<close>

definition round_events ::
  "js_string list \<Rightarrow> sqs_message \<Rightarrow> js_string list \<Rightarrow> (worker_error, unit) result \<Rightarrow> sqs_event list \<Rightarrow> bool" where
  "round_events blocked m blocked1 res seg \<longleftrightarrow>
     list_all (\<lambda>e. event_message e = m) seg \<and> sorted_wrt keeps_order seg \<and>
     (res = Inr () \<longrightarrow> length (filter sqs_settles seg) = 1) \<and>
     (message_group m \<in> set blocked \<longrightarrow> list_all backs_off seg) \<and>
     (message_group m \<notin> set blocked1 \<longrightarrow> list_all (\<lambda>e. \<not> backs_off e) seg) \<and>
     set blocked \<subseteq> set blocked1"

lemma send_events:
  "sqs_send aws m cmd s = (s1, res) \<Longrightarrow>
     trace s1 = trace s @ [Command m cmd (aws (trace s) cmd)] \<and> (res = Inr () \<longleftrightarrow> aws (trace s) cmd = None)"
  by (auto simp: sqs_send_def Let_def split: option.splits)

lemma deadLetter_events:
  assumes "sqs_deadLetter aws m e s = (s1, res)"
  shows "\<exists>seg. trace s1 = trace s @ seg \<and> list_all (\<lambda>e. event_message e = m \<and> \<not> backs_off e) seg \<and>
    (res = Inr () \<longrightarrow> length (filter sqs_settles seg) = 1)"
  using assms
  by (auto simp: sqs_deadLetter_def sqs_remove_def sqs_send_def Let_def split: option.splits)

lemma process_events:
  assumes "sqs_process other gw aws m s = (s1, res)"
  shows "\<exists>seg. trace s1 = trace s @ seg \<and> list_all (\<lambda>e. event_message e = m \<and> \<not> backs_off e) seg \<and>
    length (filter sqs_settles seg) = (if res = Inr () then 1 else 0)"
  using assms
  by (auto simp: sqs_process_def sqs_remove_def sqs_send_def Let_def
      split: option.splits sum.splits prod.splits if_splits)

lemma no_back_off_in_order: "list_all (\<lambda>e. event_message e = m \<and> \<not> backs_off e) seg \<Longrightarrow> sorted_wrt keeps_order seg"
  by (induction seg) (auto simp: keeps_order_def)

lemma step_events:
  assumes "sqs_step pow other gw aws blocked m s = (blocked1, s1, res)"
  shows "\<exists>seg. trace s1 = trace s @ seg \<and> round_events blocked m blocked1 res seg"
proof (cases "message_group m \<in> set blocked")
  case True
  with assms send_events [of aws m _ s s1 res] show ?thesis
    by (auto simp: sqs_step_def sqs_backOff_def round_events_def)
next
  case False
  obtain s2 res2 where p: "sqs_process other gw aws m s = (s2, res2)" by fastforce
  obtain seg where seg: "trace s2 = trace s @ seg" "list_all (\<lambda>e. event_message e = m \<and> \<not> backs_off e) seg"
    "length (filter sqs_settles seg) = (if res2 = Inr () then 1 else 0)"
    using process_events [OF p] by blast
  show ?thesis
  proof (cases res2)
    case (Inr u)
    with assms p False seg no_back_off_in_order [OF seg(2)] show ?thesis
      by (auto simp: sqs_step_def round_events_def list_all_iff)
  next
    case (Inl e)
    show ?thesis
    proof (cases "sqs_permanent e")
      case True
      with assms p Inl False have "sqs_deadLetter aws m e s2 = (s1, res)" "blocked1 = blocked"
        by (auto simp: sqs_step_def)
      with deadLetter_events [of aws m e s2 s1 res] obtain seg2 where
        "trace s1 = trace s2 @ seg2" "list_all (\<lambda>e. event_message e = m \<and> \<not> backs_off e) seg2"
        "res = Inr () \<longrightarrow> length (filter sqs_settles seg2) = 1" by blast
      with seg Inl False \<open>blocked1 = blocked\<close> no_back_off_in_order [of m "seg @ seg2"] show ?thesis
        by (intro exI [of _ "seg @ seg2"]) (auto simp: round_events_def list_all_iff)
    next
      case transient: False
      with assms p Inl False have "sqs_backOff pow aws m s2 = (s1, res)" "blocked1 = blocked @ [message_group m]"
        by (auto simp: sqs_step_def)
      with send_events [of aws m _ s2 s1 res] seg Inl False no_back_off_in_order [OF seg(2)] show ?thesis
        by (auto simp: sqs_backOff_def round_events_def sorted_wrt_append keeps_order_def list_all_iff)
    qed
  qed
qed

lemma batch_events:
  assumes "processBatch_from pow other gw aws blocked ms s = (s1, res)"
  shows "\<exists>seg. trace s1 = trace s @ seg \<and> sorted_wrt keeps_order seg \<and>
    (\<forall>e\<in>set seg. message_group (event_message e) \<in> set blocked \<longrightarrow> backs_off e) \<and>
    (res = Inr () \<longrightarrow> map event_message (filter sqs_settles seg) = ms)"
  using assms
proof (induction ms arbitrary: blocked s)
  case (Cons m ms)
  obtain b1 s2 res2 where st: "sqs_step pow other gw aws blocked m s = (b1, s2, res2)" by (metis prod_cases3)
  from step_events [OF st] obtain seg where seg: "trace s2 = trace s @ seg" "round_events blocked m b1 res2 seg"
    by blast
  have all_m: "\<forall>e\<in>set seg. event_message e = m" using seg(2) by (simp add: round_events_def list_all_iff)
  show ?case
  proof (cases res2)
    case (Inl e)
    with st Cons.prems seg all_m show ?thesis
      by (auto simp: round_events_def list_all_iff)
  next
    case (Inr u)
    with st Cons.prems have "processBatch_from pow other gw aws b1 ms s2 = (s1, res)" by simp
    from Cons.IH [OF this] obtain rest where rest: "trace s1 = trace s2 @ rest" "sorted_wrt keeps_order rest"
      "\<forall>e\<in>set rest. message_group (event_message e) \<in> set b1 \<longrightarrow> backs_off e"
      "res = Inr () \<longrightarrow> map event_message (filter sqs_settles rest) = ms" by blast
    have "map event_message (filter sqs_settles seg) = [m]"
    proof -
      from seg(2) Inr have "length (filter sqs_settles seg) = 1" by (simp add: round_events_def)
      then obtain x where "filter sqs_settles seg = [x]" by (auto simp: length_Suc_conv)
      moreover from this have "x \<in> set seg" by (metis filter_is_subset list.set_intros(1) subsetD)
      ultimately show ?thesis using all_m by simp
    qed
    moreover have "keeps_order e f" if "e \<in> set seg" "f \<in> set rest" for e f
      using that seg(2) rest(3) all_m by (auto simp: keeps_order_def round_events_def list_all_iff)
    ultimately show ?thesis using seg rest all_m
      by (intro exI [of _ "seg @ rest"]) (auto simp: sorted_wrt_append round_events_def list_all_iff)
  qed
qed simp

section \<open>Properties\<close>

text \<open>
  C4. No message is lost: whatever the queue receives, whatever SQS and the gateway answer and
  whenever the worker dies, a message was deleted from the queue only after its hook was handled,
  by this delivery or by an earlier one with the same id, or after its body was accepted by the
  dead-letter queue.
\<close>

theorem sqs_no_loss:
  "safe_trace (trace (fst (sqs_main pow other gw aws rs \<lparr>processed = [], trace = []\<rparr>)))"
  using main_ok [of "\<lparr>processed = [], trace = []\<rparr>" pow other gw aws rs] by (simp add: sqs_ok_def hooked_ids_def)

text \<open>
  C30. No hook is handled twice by one worker: the ids of the handled hooks are distinct, over all
  batches it receives (an id that is an array or an object has no identity to compare).
\<close>

theorem sqs_handled_once:
  "distinct (filter (\<lambda>v. \<not> is_reference v)
     (hooked_ids (trace (fst (sqs_main pow other gw aws rs \<lparr>processed = [], trace = []\<rparr>)))))"
  using main_ok [of "\<lparr>processed = [], trace = []\<rparr>" pow other gw aws rs] by (auto simp: sqs_ok_def hooked_ids_def)

text \<open>
  C9. A batch keeps each group in order and settles each message: after the first message of a
  group that is backed off, every later message of the group in the batch is only backed off, never
  handled, deleted or dead-lettered; and unless the worker dies, the events that settle a message
  (a successful deletion or back-off) are one for each message of the batch, in its order.
\<close>

theorem sqs_batch_in_order:
  "case processBatch pow other gw aws ms s of (s1, res) \<Rightarrow>
     (let new = drop (length (trace s)) (trace s1)
      in trace s1 = trace s @ new \<and> sorted_wrt keeps_order new \<and>
         (case res of Inr _ \<Rightarrow> map event_message (filter sqs_settles new) = ms | Inl _ \<Rightarrow> True))"
proof -
  obtain s1 res where run: "processBatch pow other gw aws ms s = (s1, res)" by fastforce
  from batch_events [OF run [unfolded processBatch_def]] show ?thesis
    by (auto simp: run Let_def split: sum.split)
qed

text \<open>What a message leads to: the error of the \<open>try\<close>, nothing new to do, or a hook to handle.\<close>

definition sqs_outcome ::
  "buffer_from \<Rightarrow> byte list http \<Rightarrow> json option list \<Rightarrow> sqs_message \<Rightarrow> (worker_error, (json \<times> byte list \<times> via) option) result" where
  "sqs_outcome other http ids m =
     result_bind (sqs_parse (Body m)) (\<lambda>msg.
       if set_has ids (json_field msg ''id'') then Inr None
       else result_bind (sqs_resolveBody other http msg) (\<lambda>(body, via).
         result_bind (handleHook msg) (\<lambda>_. Inr (Some (msg, body, via)))))"

text \<open>
  C28. What a healthy queue sees: when SQS accepts every command, the worker does not die on a message
  and a message of a group that is not blocked is handled and deleted when it is new, only deleted
  when its id was handled before, copied to the dead-letter queue with its group and id and then
  deleted when its failure is permanent, and otherwise hidden, with its group blocked.
\<close>

theorem sqs_healthy_verdict:
  assumes "\<And>h c. aws h c = None" "message_group m \<notin> set blocked"
  shows "\<exists>s1. sqs_step pow other gw aws blocked m s =
      (case sqs_outcome other (gw (trace s)) (processed s) m of
         Inl e \<Rightarrow> if sqs_permanent e then blocked else blocked @ [message_group m]
       | Inr _ \<Rightarrow> blocked, s1, Inr ()) \<and>
    trace s1 = trace s @
      (case sqs_outcome other (gw (trace s)) (processed s) m of
         Inr (Some (msg, body, via)) \<Rightarrow>
           [Hooked m msg body via, Command m (DeleteMessage (ReceiptHandle m)) None]
       | Inr None \<Rightarrow> [Command m (DeleteMessage (ReceiptHandle m)) None]
       | Inl e \<Rightarrow>
           if sqs_permanent e
           then [Command m (SendMessage (Body m) (MessageGroupId m) (MessageId m) e) None,
                 Command m (DeleteMessage (ReceiptHandle m)) None]
           else [Command m (ChangeMessageVisibility (ReceiptHandle m) (backOff_seconds pow m)) None])"
proof (cases "sqs_parse (Body m)")
  case (Inl e)
  with assms show ?thesis
    by (simp add: sqs_outcome_def sqs_step_def sqs_process_def sqs_deadLetter_def sqs_remove_def sqs_backOff_def sqs_send_def Let_def)
next
  case msg: (Inr msg)
  show ?thesis
  proof (cases "set_has (processed s) (json_field msg ''id'')")
    case True
    with msg assms show ?thesis
      by (simp add: sqs_outcome_def sqs_step_def sqs_process_def sqs_remove_def sqs_send_def Let_def)
  next
    case False
    show ?thesis
      using msg False assms
      by (cases "sqs_resolveBody other (gw (trace s)) msg"; cases "handleHook msg")
        (auto simp: sqs_outcome_def sqs_step_def sqs_process_def sqs_deadLetter_def sqs_remove_def sqs_backOff_def
          sqs_send_def Let_def split_beta)
  qed
qed

theorem sqs_healthy_verdict_witness:
  "\<exists>s1. sqs_step (\<lambda>_. NaN) (\<lambda>_. None) (\<lambda>_ _. Rejects (Failure [])) (\<lambda>_ _. None) []
      \<lparr>Body = None, MessageId = Some (js ''m''), ReceiptHandle = Some (js ''r''), MessageGroupId = Some (js ''g''),
       ApproximateReceiveCount = None\<rparr> \<lparr>processed = [], trace = []\<rparr> = ([], s1, Inr ()) \<and>
    map (case_sqs_event (\<lambda>_ c _. c) (\<lambda>_ _ _ _. DeleteMessage None)) (trace s1) =
      [SendMessage None (Some (js ''g'')) (Some (js ''m'')) (PermanentError NotJson), DeleteMessage (Some (js ''r''))]"
proof -
  let ?m = "\<lparr>Body = None, MessageId = Some (js ''m''), ReceiptHandle = Some (js ''r''), MessageGroupId = Some (js ''g''),
       ApproximateReceiveCount = None\<rparr>"
  have "sqs_parse (Body ?m) = Inl (PermanentError NotJson)"
    by (simp add: sqs_parse_def JSON_parse_def parse_value.simps skip_ws_def)
  then have "sqs_outcome (\<lambda>_. None) (\<lambda>_. Rejects (Failure [])) [] ?m = Inl (PermanentError NotJson)"
    by (simp add: sqs_outcome_def)
  with sqs_healthy_verdict [of "\<lambda>_ _. None" ?m "[]" "\<lambda>_. NaN" "\<lambda>_. None" "\<lambda>_ _. Rejects (Failure [])" "\<lparr>processed = [], trace = []\<rparr>"]
  show ?thesis by auto
qed

text \<open>
  A body on which reading the version throws (the JSON text \<open>null\<close>, a version without a text) is backed
  off, whether or not its group is blocked, and its group is blocked afterwards.
\<close>

lemma type_error_step:
  assumes "sqs_parse (Body m) = Inl TypeError"
  shows "trace (fst (snd (sqs_step pow other gw aws blocked m s))) = trace s @
      [Command m (ChangeMessageVisibility (ReceiptHandle m) (backOff_seconds pow m))
        (aws (trace s) (ChangeMessageVisibility (ReceiptHandle m) (backOff_seconds pow m)))]"
    "message_group m \<in> set (fst (sqs_step pow other gw aws blocked m s))"
  using assms by (simp_all add: sqs_step_def sqs_process_def sqs_backOff_def sqs_send_def Let_def)

text \<open>Every event of such a message is a back-off.\<close>

definition only_backed_off :: "(rat \<Rightarrow> js_number) \<Rightarrow> sqs_event list \<Rightarrow> bool" where
  "only_backed_off pow tr \<longleftrightarrow>
     list_all (\<lambda>e. sqs_parse (Body (event_message e)) = Inl TypeError \<longrightarrow>
       (\<exists>r. e = Command (event_message e)
          (ChangeMessageVisibility (ReceiptHandle (event_message e)) (backOff_seconds pow (event_message e))) r)) tr"

lemma step_only_backed_off:
  assumes "only_backed_off pow (trace s)"
  shows "only_backed_off pow (trace (fst (snd (sqs_step pow other gw aws blocked m s))))"
proof (cases "sqs_parse (Body m) = Inl TypeError")
  case True
  with assms show ?thesis by (simp add: type_error_step only_backed_off_def)
next
  case False
  obtain b1 s1 res where st: "sqs_step pow other gw aws blocked m s = (b1, s1, res)" by (metis prod_cases3)
  from step_events [OF st] obtain seg where "trace s1 = trace s @ seg" "list_all (\<lambda>e. event_message e = m) seg"
    by (auto simp: round_events_def)
  with assms False st show ?thesis by (auto simp: only_backed_off_def list_all_iff)
qed

lemma batch_only_backed_off:
  "only_backed_off pow (trace s) \<Longrightarrow> only_backed_off pow (trace (fst (processBatch_from pow other gw aws blocked ms s)))"
proof (induction ms arbitrary: blocked s)
  case (Cons m ms)
  with step_only_backed_off [of pow s other gw aws blocked m] show ?case
    by (auto split: prod.splits sum.splits)
qed simp

lemma main_only_backed_off:
  "only_backed_off pow (trace s) \<Longrightarrow> only_backed_off pow (trace (fst (sqs_main pow other gw aws rs s)))"
proof (induction rs arbitrary: s)
  case (Cons r rs)
  show ?case
  proof (cases r)
    case (Inl e)
    with Cons show ?thesis by simp
  next
    case (Inr ms)
    with Cons batch_only_backed_off [of pow s other gw aws "[]" ms] show ?thesis
      by (auto simp: processBatch_def split: prod.splits sum.splits)
  qed
qed simp

lemma null_body_parses: "Body m = Some b \<Longrightarrow> JSON_parse b = Some JNull \<Longrightarrow> sqs_parse (Body m) = Inl TypeError"
  by (simp add: sqs_parse_def js_get_def)

text \<open>
  C40. A message whose body is JSON for \<open>null\<close> is never dead-lettered, deleted or handled: over any run of
  the worker, whatever SQS and the gateway answer, every event of the message is a command that hides
  it for the back-off time, so it stays in the queue; and each round in which it is received leaves its
  group blocked for the rest of the batch. (Reading its version throws outside the clause that makes a
  bad body permanent.)
\<close>

theorem sqs_null_backs_off:
  assumes "Body m = Some b" "JSON_parse b = Some JNull"
  shows "list_all (\<lambda>e. event_message e = m \<longrightarrow>
      (\<exists>r. e = Command m (ChangeMessageVisibility (ReceiptHandle m) (backOff_seconds pow m)) r))
      (trace (fst (sqs_main pow other gw aws rs \<lparr>processed = [], trace = []\<rparr>))) \<and>
    message_group m \<in> set (fst (sqs_step pow other gw aws blocked m s))"
proof
  have "only_backed_off pow (trace (fst (sqs_main pow other gw aws rs \<lparr>processed = [], trace = []\<rparr>)))"
    by (rule main_only_backed_off) (simp add: only_backed_off_def)
  with null_body_parses [OF assms] show "list_all (\<lambda>e. event_message e = m \<longrightarrow>
      (\<exists>r. e = Command m (ChangeMessageVisibility (ReceiptHandle m) (backOff_seconds pow m)) r))
      (trace (fst (sqs_main pow other gw aws rs \<lparr>processed = [], trace = []\<rparr>)))"
    by (auto simp: only_backed_off_def list_all_iff)
qed (rule type_error_step(2) [OF null_body_parses [OF assms]])

definition null_message :: sqs_message where
  "null_message = \<lparr>Body = Some (js ''null''), MessageId = Some (js ''m''), ReceiptHandle = Some (js ''r''),
     MessageGroupId = Some (js ''g''), ApproximateReceiveCount = None\<rparr>"

theorem sqs_null_backs_off_witness:
  "let tr = trace (fst (sqs_main (\<lambda>_. NaN) (\<lambda>_. None) (\<lambda>_ _. Rejects (Failure [])) (\<lambda>_ _. None) [Inr [null_message]]
       \<lparr>processed = [], trace = []\<rparr>))
   in map event_message tr = [null_message] \<and>
      (\<exists>r. hd tr = Command null_message (ChangeMessageVisibility (Some (js ''r'')) (backOff_seconds (\<lambda>_. NaN) null_message)) r)"
proof -
  let ?run = "sqs_main (\<lambda>_. NaN) (\<lambda>_. None) (\<lambda>_ _. Rejects (Failure [])) (\<lambda>_ _. None) [Inr [null_message]]
    \<lparr>processed = [], trace = []\<rparr>"
  have body: "Body null_message = Some (js ''null'')" by (simp add: null_message_def)
  have null: "JSON_parse (js ''null'') = Some JNull"
    by (simp add: JSON_parse_def parse_value.simps skip_ws_def is_ws_def js_eval starts_with_def)
  have tr: "map event_message (trace (fst ?run)) = [null_message]"
    using null_body_parses [OF body null]
    by (simp add: processBatch_def sqs_step_def sqs_process_def sqs_backOff_def sqs_send_def Let_def)
  then obtain e where e: "trace (fst ?run) = [e]" "event_message e = null_message" by auto
  with sqs_null_backs_off [OF body null, of "\<lambda>_. NaN" "\<lambda>_. None" "\<lambda>_ _. Rejects (Failure [])" "\<lambda>_ _. None"
      "[Inr [null_message]]"] tr
  show ?thesis by (simp add: Let_def null_message_def)
qed

text \<open>
  C37. The back-off doubles from 30 seconds to the cap: on the \<open>n\<close>-th receive, for every count SQS
  writes in decimal, the message is hidden for \<open>30 * 2^(n-1)\<close> seconds, at most 900; so the time is
  never below 30 seconds, never above 15 minutes, and never shorter than the time before.
\<close>

theorem backOff_doubles:
  assumes "1 \<le> n" "n < 2 ^ 53"
  shows "backOff_seconds pow (m\<lparr>ApproximateReceiveCount := Some (digit_chars n)\<rparr>) =
      Fin (of_nat (min (30 * 2 ^ (n - 1)) 900))"
proof -
  have sub: "num_sub (Fin (of_nat n)) (Fin 1) = Fin (of_nat (n - 1))"
  proof -
    have "\<bar>int n - 1\<bar> < 2 ^ 53" using assms by simp
    then have "num_sub (Fin (of_int (int n))) (Fin (of_int 1)) = Fin (of_int (int n - 1))" by (rule num_sub_safe)
    then show ?thesis using assms(1) by (simp add: of_nat_diff)
  qed
  have exp: "num_exp2 pow (Fin (of_nat (n - 1))) = round64 (2 ^ (n - 1))"
    by (simp del: of_nat_diff)
  define X :: rat where "X = 2 ^ 1024"
  define p :: rat where "p = 2 ^ (n - 1)"
  have big: "900 < X" and p: "1 \<le> p" by (simp_all add: X_def p_def)
  have pow: "round64 p = (if X \<le> p then PosInf else Fin p)"
    using round64_scaled [of 1 "n - 1"] by (simp add: X_def p_def)
  have mul: "round64 (30 * p) = (if X \<le> 30 * p then PosInf else Fin (30 * p))"
    using round64_scaled [of 30 "n - 1"] by (simp add: X_def p_def)
  have "num_mul (Fin 30) (round64 p) = (if X \<le> 30 * p then PosInf else Fin (30 * p))"
    using p by (simp add: pow mul)
  then have "num_min (num_mul (Fin 30) (round64 p)) (Fin 900) = Fin (min (30 * p) 900)"
    using big p by (auto simp: num_min_def min_def)
  then have cap: "num_min (num_mul (Fin 30) (round64 (2 ^ (n - 1)))) (Fin 900) = Fin (min (30 * 2 ^ (n - 1)) 900)"
    by (simp only: p_def)
  have "of_nat (min (30 * 2 ^ (n - 1)) 900) = min (30 * 2 ^ (n - 1)) (900 :: rat)"
    by (simp add: of_nat_min)
  moreover have "ApproximateReceiveCount (m\<lparr>ApproximateReceiveCount := Some (digit_chars n)\<rparr>) = Some (digit_chars n)"
    by simp
  ultimately show ?thesis using cap
    by (simp only: backOff_seconds_def Let_def option.case num_of_digit_chars [OF assms(2)] sub exp)
qed

theorem backOff_doubles_witness:
  "backOff_seconds (\<lambda>_. NaN) \<lparr>Body = None, MessageId = None, ReceiptHandle = None, MessageGroupId = None,
     ApproximateReceiveCount = Some (js ''3'')\<rparr> = Fin 120"
proof -
  let ?m = "\<lparr>Body = None, MessageId = None, ReceiptHandle = None, MessageGroupId = None, ApproximateReceiveCount = None\<rparr>"
  have "digit_chars 3 = js ''3''" by (simp add: digit_chars.simps js_eval)
  with backOff_doubles [of 3 "\<lambda>_. NaN" ?m] show ?thesis by simp
qed

end
