(* ===== verification/Hook_Types.thy ===== *)
theory Hook_Types
  imports Js_Types Rabbitmq Sqs
begin

text \<open>
  Type safety of the queue workers. Each worker casts the parsed content to its \<open>HookMessage\<close> type
  without checking it. The lemmas show that a message that has the declared type never makes a
  worker throw a \<open>TypeError\<close>: every failure is a permanent or transient claim error, or a failure of
  the queue service or the database. What Node's base64 decoder does with a string that is not
  canonical base64 stays an argument; the hypothesis used of it is documented: it never throws on a
  string.
\<close>

section \<open>The declared types\<close>

text \<open>The fields all three declarations share, and the three \<open>HookMessage\<close> types.\<close>

definition body_fields :: "ts_field list" where
  "body_fields = [Field ''body_base64'' False TString, Field ''claim'' False TString, Field ''sha256'' False TString]"

definition rabbit_HookMessage :: ts_type where
  "rabbit_HookMessage = TObject
     ([Field ''id'' True TString, Field ''source_id'' True TString, Field ''tenant_id'' True TString,
       Field ''received_at'' True TNumber, Field ''content_type'' True (TNullable TString),
       Field ''size'' True TNumber] @ body_fields)"

definition fleet_HookMessage :: ts_type where
  "fleet_HookMessage = TObject
     ([Field ''id'' True TString, Field ''source_id'' True TString, Field ''tenant_id'' True TString,
       Field ''idempotency_key'' False TString, Field ''received_at'' True TNumber,
       Field ''content_type'' True (TNullable TString), Field ''size'' True TNumber] @ body_fields)"

definition sqs_HookMessage :: ts_type where
  "sqs_HookMessage = TObject
     ([Field ''v'' True TNumber, Field ''id'' True TString, Field ''source_id'' True TString,
       Field ''tenant_id'' True TString, Field ''received_at'' True TNumber,
       Field ''content_type'' True (TNullable TString), Field ''size'' True TNumber] @ body_fields)"

text \<open>An error that is the gateway's or the message's reference, and not a fault of the worker.\<close>

fun is_claim_error :: "worker_error \<Rightarrow> bool" where
  "is_claim_error (ClaimError _) = True"
| "is_claim_error _ = False"

lemma is_claim_error_iff: "is_claim_error e \<longleftrightarrow> (\<exists>c. e = ClaimError c)"
  by (cases e) auto

section \<open>Typed messages resolve or fail as claims\<close>

lemma body_field_string:
  assumes "has_type (TObject body_fields) msg" "k \<in> {''body_base64'', ''claim'', ''sha256''}"
  shows "json_field msg k = None \<or> (\<exists>s. json_field msg k = Some (JStr s))"
proof -
  have "Field k False TString \<in> set body_fields" using assms(2) by (auto simp: body_fields_def)
  from typed_field [OF assms(1) this] show ?thesis
    by (cases "json_field msg k") (simp_all add: has_TString_iff)
qed

lemma hook_types_body:
  "has_type rabbit_HookMessage msg \<Longrightarrow> has_type (TObject body_fields) msg"
  "has_type fleet_HookMessage msg \<Longrightarrow> has_type (TObject body_fields) msg"
  "has_type sqs_HookMessage msg \<Longrightarrow> has_type (TObject body_fields) msg"
  unfolding rabbit_HookMessage_def fleet_HookMessage_def sqs_HookMessage_def
  by (erule has_TObject_mono [rotated], auto)+

lemma redeem_claim_string: "redeem_claim http (JStr c) (JStr s) = Inl e \<Longrightarrow> is_claim_error e"
  by (auto simp: redeem_claim_def redeem_text_error split: sum.splits InvalidClaimRefError.splits)

lemma buffer_base64_string:
  assumes "\<forall>s. other (JStr s) \<noteq> None" "v = None \<or> (\<exists>s. v = Some (JStr s))"
  shows "\<exists>b. buffer_base64 other v = Inr b"
  using assms(2)
proof
  assume "\<exists>s. v = Some (JStr s)"
  then obtain s where "v = Some (JStr s)" ..
  moreover from assms(1) obtain b where "other (JStr s) = Some b" by blast
  ultimately show ?thesis by (simp split: option.split)
qed simp

lemma resolveBody_typed:
  assumes "has_type (TObject body_fields) msg" "\<forall>s. other (JStr s) \<noteq> None" "resolveBody other http msg = Inl e"
  shows "is_claim_error e"
proof -
  from assms(1) have "msg \<noteq> JNull" by (auto simp: has_TObject_iff)
  moreover obtain b where "buffer_base64 other (json_field msg ''body_base64'') = Inr b"
    using buffer_base64_string [OF assms(2) body_field_string [OF assms(1)]] by auto
  moreover have "is_claim_error e" if "truthy (json_field msg ''claim'')" "truthy (json_field msg ''sha256'')"
      "redeem_claim http (the (json_field msg ''claim'')) (the (json_field msg ''sha256'')) = Inl e"
    using that body_field_string [OF assms(1), of "''claim''"] body_field_string [OF assms(1), of "''sha256''"]
      redeem_claim_string by auto
  ultimately show ?thesis
    using assms(3) by (auto simp: resolveBody_def js_get_def split: if_splits)
qed

lemma sqs_resolveBody_typed:
  assumes "has_type (TObject body_fields) msg" "\<forall>s. other (JStr s) \<noteq> None" "sqs_resolveBody other http msg = Inl e"
  shows "is_claim_error e"
proof -
  obtain b where "buffer_base64 other (json_field msg ''body_base64'') = Inr b"
    using buffer_base64_string [OF assms(2) body_field_string [OF assms(1)]] by auto
  moreover have "is_claim_error e" if "truthy (json_field msg ''claim'')" "truthy (json_field msg ''sha256'')"
      "redeem_claim http (the (json_field msg ''claim'')) (the (json_field msg ''sha256'')) = Inl e"
    using that body_field_string [OF assms(1), of "''claim''"] body_field_string [OF assms(1), of "''sha256''"]
      redeem_claim_string by auto
  ultimately show ?thesis
    using assms(3) by (auto simp: sqs_resolveBody_def split: if_splits)
qed

lemma typed_text:
  assumes "has_type (TObject fs) msg" "Field k required t \<in> set fs" "t = TString \<or> t = TNumber"
  shows "\<not> (case json_field msg k of None \<Rightarrow> False | Some w \<Rightarrow> text_throws w)"
  using typed_field [OF assms(1,2)] assms(3)
  by (cases "json_field msg k") (auto simp: has_TString_iff has_TNumber_iff)

lemma handleHook_typed:
  assumes "has_type (TObject fs) msg"
    and "{Field ''id'' True TString, Field ''source_id'' True TString, Field ''tenant_id'' True TString,
          Field ''size'' True TNumber} \<subseteq> set fs"
  shows "handleHook msg = Inr ()"
  using typed_text [OF assms(1)] assms(2)
  by (simp add: handleHook_def template_throws_def) blast

section \<open>Properties\<close>

text \<open>
  C23. Type safety of the RabbitMQ worker: a delivery whose content parses to a value of the declared
  \<open>HookMessage\<close> type is handled and acked, or fails with a claim error and is then requeued exactly
  when that error is retryable. In particular no \<open>TypeError\<close> is ever thrown on a well-typed message,
  so requeueing forever needs an ill-typed message or a gateway that stays unavailable.
\<close>

theorem rabbit_type_safe:
  assumes "parse_content (content m) = Inr msg" "has_type rabbit_HookMessage msg"
    and "\<forall>s. other (JStr s) \<noteq> None"
  shows "(\<exists>body via. rabbit_handle other http m = [Handle msg (routingKey m) body via, Ack]) \<or>
    (\<exists>e. resolveBody other http msg = Inl (ClaimError e) \<and> rabbit_handle other http m = [Nack (claim_retryable e)])"
proof -
  have "handleHook msg = Inr ()"
    using assms(2) unfolding rabbit_HookMessage_def by (rule handleHook_typed) simp
  moreover have "is_claim_error e" if "resolveBody other http msg = Inl e" for e
    using resolveBody_typed [OF hook_types_body(1) [OF assms(2)] assms(3) that] .
  ultimately show ?thesis
    using assms(1) by (cases "resolveBody other http msg")
      (auto simp: rabbit_handle_def settle_error_def is_claim_error_iff)
qed

text \<open>A well-typed message, for the examples.\<close>

definition typed_message :: json where
  "typed_message = JObj
     [(js ''v'', JNum (Fin 1)), (js ''id'', JStr (js ''01J9'')), (js ''source_id'', JStr (js ''stripe'')),
      (js ''tenant_id'', JStr (js ''acme'')), (js ''received_at'', JNum (Fin 7)), (js ''content_type'', JNull),
      (js ''size'', JNum (Fin 2)), (js ''claim'', JStr (claim_urn example_ref)),
      (js ''sha256'', JStr (sha256_hex [1, 2]))]"

lemma typed_message_typed:
  "has_type rabbit_HookMessage typed_message" "has_type fleet_HookMessage typed_message"
  "has_type sqs_HookMessage typed_message"
  by (simp_all add: typed_message_def rabbit_HookMessage_def fleet_HookMessage_def sqs_HookMessage_def
      body_fields_def has_object_simps js_eval)

lemma typed_message_printable: "json_wf typed_message" "safe_json typed_message"
  by (simp_all add: typed_message_def js_eval)

definition typed_delivery :: delivery where
  "typed_delivery = \<lparr>content = utf8_encode (JSON_stringify whole_text typed_message), routingKey = js ''ankusa''\<rparr>"

lemma typed_delivery_parses: "parse_content (content typed_delivery) = Inr typed_message"
  by (simp add: typed_delivery_def parse_stringified [OF whole_text_law typed_message_printable])

lemma typed_message_unavailable:
  "resolveBody other (\<lambda>_. Rejects (Failure [])) typed_message = Inl (ClaimError (ClaimCheckUnavailableError (Some (Failure []))))"
proof -
  have "claim_urn example_ref \<noteq> []" by (simp add: claim_urn_def example_ref_def js_eval)
  moreover have "sha256_hex [1, 2] \<noteq> []" using sha.hex_pattern [of "[1, 2]"] by (auto simp: sha256_pattern_def)
  ultimately show ?thesis
    by (simp add: typed_message_def resolveBody_def js_get_def redeem_claim_def example_ref_parses
        redeem_wf [OF example_ref_parses sha.hex_pattern] Let_def js_eval)
qed

theorem rabbit_type_safe_witness:
  "rabbit_handle (\<lambda>_. Some []) (\<lambda>_. Rejects (Failure [])) typed_delivery = [Nack True]"
  using rabbit_type_safe [OF typed_delivery_parses typed_message_typed(1), where other = "\<lambda>_. Some []" and http = "\<lambda>_. Rejects (Failure [])"]
  by (auto simp: typed_message_unavailable rabbit_handle_def typed_delivery_parses split: sum.splits)

lemma pg_text_None: "pg_text shown v = None \<longleftrightarrow> v = None \<or> v = Some JNull"
  by (induction shown v rule: pg_text.induct) auto

text \<open>
  Type safety of the fleet consumer: a delivery whose content parses to a value of its declared
  \<open>HookMessage\<close> type is recorded and acked, or fails with a claim error (requeued exactly when that is
  retryable), or the database refused the query and it is requeued; in the two failures the table is
  unchanged. No column that must not be null ever gets a null from a well-typed message.
\<close>

lemma fleet_type_safe:
  assumes "parse_content (content m) = Inr msg" "has_type fleet_HookMessage msg"
    and "\<forall>s. other (JStr s) \<noteq> None"
  shows "(\<exists>key new. fleet_handle other http shown db t m = (upsert key new t, [Ack])) \<or>
    (\<exists>e. resolveBody other http msg = Inl (ClaimError e) \<and>
       fleet_handle other http shown db t m = (t, [Nack (claim_retryable e)])) \<or>
    (\<exists>e. db msg = Some e \<and> fleet_handle other http shown db t m = (t, [Nack True]))"
proof (cases "resolveBody other http msg")
  case (Inl e)
  with resolveBody_typed [OF hook_types_body(2) [OF assms(2)] assms(3)] obtain c where "e = ClaimError c"
    by (auto simp: is_claim_error_iff)
  with Inl assms(1) show ?thesis by (simp add: fleet_handle_def settle_error_def)
next
  case (Inr bv)
  obtain body via where bv: "bv = (body, via)" by (cases bv)
  have "\<exists>s. json_field msg k = Some (JStr s)" if "Field k True TString \<in> set
      ([Field ''id'' True TString, Field ''source_id'' True TString, Field ''tenant_id'' True TString,
       Field ''idempotency_key'' False TString, Field ''received_at'' True TNumber,
       Field ''content_type'' True (TNullable TString), Field ''size'' True TNumber] @ body_fields)" for k
    using typed_field [OF assms(2) [unfolded fleet_HookMessage_def] that]
    by (cases "json_field msg k") (simp_all add: has_TString_iff)
  then obtain i src where f: "json_field msg ''id'' = Some (JStr i)" "json_field msg ''source_id'' = Some (JStr src)"
    by (metis insert_iff list.simps(15) append_Cons)
  have "pg_text shown (row_key msg) \<noteq> None"
    by (simp add: pg_text_None row_key_def f nullish_def)
  then obtain key where "pg_text shown (row_key msg) = Some key" by blast
  with f Inr bv assms(1) show ?thesis
    by (cases "db msg") (auto simp: fleet_handle_def record_hook_def hook_row_def settle_error_def)
qed

text \<open>
  C18. Type safety of the SQS worker: a message whose body parses to a value of the declared
  \<open>HookMessage\<close> type never makes the worker throw a \<open>TypeError\<close>. When processing it fails, the error is
  permanent (it is dead-lettered), or the gateway was unavailable, or a call to SQS failed; so a
  well-typed message is backed off only for the second or the third.
\<close>

theorem sqs_type_safe:
  assumes "Body m = Some b" "JSON_parse b = Some msg" "has_type sqs_HookMessage msg"
    and "\<forall>s. other (JStr s) \<noteq> None" and "snd (sqs_process other gw aws m s) = Inl e"
  shows "sqs_permanent e \<or> (\<exists>c. e = ClaimError (ClaimCheckUnavailableError c)) \<or>
    (\<exists>t h cmd. e = OtherError t \<and> aws h cmd = Some t)"
proof -
  have v: "\<exists>n. json_field msg ''v'' = Some (JNum n)"
    using typed_field [OF assms(3) [unfolded sqs_HookMessage_def], of "''v''" True TNumber]
    by (cases "json_field msg ''v''") (simp_all add: has_TNumber_iff)
  have handled: "handleHook msg = Inr ()"
    using assms(3) unfolding sqs_HookMessage_def by (rule handleHook_typed) simp
  have body: "is_claim_error e'" if "sqs_resolveBody other http msg = Inl e'" for http e'
    using sqs_resolveBody_typed [OF hook_types_body(3) [OF assms(3)] assms(4) that] .
  have claim: "sqs_permanent (ClaimError c) \<or> (\<exists>x. c = ClaimCheckUnavailableError x)" for c
    by (cases c) auto
  have removed: "\<exists>t h cmd. e' = OtherError t \<and> aws h cmd = Some t" if "snd (sqs_remove aws m s') = Inl e'" for e' s'
    using that by (auto simp: sqs_remove_def sqs_send_def Let_def split: option.splits)
  have parsed: "sqs_parse (Body m) = Inr msg \<or> (\<exists>r. sqs_parse (Body m) = Inl (PermanentError r))"
    using v assms(1,2) by (auto simp: sqs_parse_def js_get_def template_throws_def)
  from parsed show ?thesis
  proof
    assume "sqs_parse (Body m) = Inr msg"
    with assms(5) handled body claim removed show ?thesis
      by (cases "sqs_resolveBody other (gw (trace s)) msg")
        (fastforce simp: sqs_process_def is_claim_error_iff split: if_splits prod.splits)+
  next
    assume "\<exists>r. sqs_parse (Body m) = Inl (PermanentError r)"
    with assms(5) show ?thesis by (auto simp: sqs_process_def)
  qed
qed

definition typed_sqs :: sqs_message where
  "typed_sqs = \<lparr>Body = Some (JSON_stringify whole_text typed_message), MessageId = None, ReceiptHandle = None,
     MessageGroupId = None, ApproximateReceiveCount = None\<rparr>"

lemma typed_sqs_parses: "JSON_parse (JSON_stringify whole_text typed_message) = Some typed_message"
  by (rule JSON_parse_stringify [OF whole_text_law typed_message_printable])

lemma typed_sqs_unavailable:
  "snd (sqs_process (\<lambda>_. Some []) (\<lambda>_ _. Rejects (Failure [])) (\<lambda>_ _. None) typed_sqs \<lparr>processed = [], trace = []\<rparr>) =
     Inl (ClaimError (ClaimCheckUnavailableError (Some (Failure []))))"
proof -
  have "claim_urn example_ref \<noteq> []" by (simp add: claim_urn_def example_ref_def js_eval)
  moreover have "sha256_hex [1, 2] \<noteq> []" using sha.hex_pattern [of "[1, 2]"] by (auto simp: sha256_pattern_def)
  ultimately have "sqs_parse (Body typed_sqs) = Inr typed_message"
    "sqs_resolveBody (\<lambda>_. Some []) (\<lambda>_. Rejects (Failure [])) typed_message =
       Inl (ClaimError (ClaimCheckUnavailableError (Some (Failure []))))"
    by (simp_all add: typed_sqs_def sqs_parse_def typed_sqs_parses)
      (simp_all add: typed_message_def sqs_resolveBody_def js_get_def redeem_claim_def example_ref_parses
        redeem_wf [OF example_ref_parses sha.hex_pattern] Let_def js_eval)
  then show ?thesis by (simp add: sqs_process_def set_has_def)
qed

theorem sqs_type_safe_witness:
  "\<exists>e c. snd (sqs_process (\<lambda>_. Some []) (\<lambda>_ _. Rejects (Failure [])) (\<lambda>_ _. None) typed_sqs \<lparr>processed = [], trace = []\<rparr>) = Inl e \<and>
     e = ClaimError (ClaimCheckUnavailableError c)"
  using sqs_type_safe [OF _ typed_sqs_parses typed_message_typed(3) _ typed_sqs_unavailable] typed_sqs_unavailable
  by (simp add: typed_sqs_def)

end
