(* ===== verification/Jetstream.thy ===== *)
theory Jetstream
  imports Consumer
begin

text \<open>
  The JetStream consumer, \<open>examples/jetstream-k8s/consumer/src/worker.ts\<close>: a sequential loop over a
  durable pull consumer, with a bounded memory of the hooks it processed, a ledger it announces
  them to and a dead-letter stream. NATS and the claim-check gateway are arguments that answer with
  knowledge of everything that happened so far. The lemmas show that every message is settled
  exactly once and how, and which keys the memory holds after any run.
\<close>

section \<open>Messages and events\<close>

record js_msg =
  data :: "byte list"
  seq :: nat
  deliveryCount :: nat

text \<open>What the consumer announces of a processed hook.\<close>

record announcement =
  an_hook_id :: js_string
  an_idempotency_key :: js_string
  an_dedupe_key :: "js_string option"
  an_source_id :: js_string
  an_size :: js_number
  an_via :: string
  an_consumer :: js_string
  an_received_at :: js_number
  an_consumed_at :: js_number
  an_latency_ms :: js_number
  an_duplicate :: bool

text \<open>
  A request to the ledger and a publish to the dead-letter stream, each with the error if it
  failed, and the three ways to settle a message; the reason of a dead letter is the error whose
  message is sent.
\<close>

datatype js_event =
    Announced js_msg announcement "js_string option"
  | DlqPublished js_msg worker_error "js_string option"
  | Acked js_msg
  | Termed js_msg worker_error
  | Naked js_msg nat

fun js_settles :: "js_event \<Rightarrow> bool" where
  "js_settles (Acked _) = True"
| "js_settles (Termed _ _) = True"
| "js_settles (Naked _ _) = True"
| "js_settles _ = False"

datatype nats_call = Request announcement | Publish "byte list" worker_error js_string nat

type_synonym nats = "js_event list \<Rightarrow> nats_call \<Rightarrow> js_string option"

text \<open>The world the consumer runs in: its pod name, NATS, the gateway and the clock.\<close>

record js_world =
  pod :: js_string
  nats :: nats
  js_gateway :: "js_event list \<Rightarrow> byte list http"
  js_clock :: "js_event list \<Rightarrow> js_number"

text \<open>The memory, in insertion order, and what happened so far.\<close>

record js_state =
  seen :: "js_string list"
  events :: "js_event list"

section \<open>The consumer\<close>

definition DEDUPE_CAP :: nat where
  "DEDUPE_CAP = 20000"

text \<open>\<open>remember(key)\<close>: add to the set, and delete its first element when it is over the cap.\<close>

definition remember :: "js_string \<Rightarrow> js_string list \<Rightarrow> js_string list" where
  "remember key ks =
     (let added = (if key \<in> set ks then ks else ks @ [key])
      in if length added > DEDUPE_CAP then tl added else added)"

definition js_resolveBody :: "byte list http \<Rightarrow> Message \<Rightarrow> (worker_error, string) result" where
  "js_resolveBody http msg =
     (if msg_body msg \<noteq> None then Inr ''inline''
      else case (or_null (msg_claim msg), or_null (msg_sha256 msg)) of
        (Some claim, Some sha) \<Rightarrow>
          (case snd (redeem http None claim (JStr sha)) of
             Inl e \<Rightarrow> Inl (ClaimError e)
           | Inr _ \<Rightarrow> Inr ''claim'')
      | _ \<Rightarrow> Inl (ClaimError (InvalidRef NoSha256)))"

definition announcement_of :: "js_world \<Rightarrow> js_event list \<Rightarrow> Message \<Rightarrow> js_string \<Rightarrow> string \<Rightarrow> bool \<Rightarrow> announcement" where
  "announcement_of w h msg key via duplicate =
     (let now = js_clock w h
      in \<lparr>an_hook_id = msg_id msg, an_idempotency_key = key, an_dedupe_key = dedupe_key msg,
          an_source_id = source_id msg, an_size = msg_size msg, an_via = via, an_consumer = pod w,
          an_received_at = received_at msg, an_consumed_at = now,
          an_latency_ms = num_sub now (received_at msg), an_duplicate = duplicate\<rparr>)"

definition announce ::
  "js_world \<Rightarrow> js_event list \<Rightarrow> js_msg \<Rightarrow> Message \<Rightarrow> js_string \<Rightarrow> string \<Rightarrow> bool \<Rightarrow> js_event \<times> (worker_error, unit) result" where
  "announce w h m msg key via duplicate =
     (let a = announcement_of w h msg key via duplicate; r = nats w h (Request a)
      in (Announced m a r, case r of None \<Rightarrow> Inr () | Some e \<Rightarrow> Inl (OtherError e)))"

text \<open>Publish, then terminate.\<close>

definition js_deadLetter :: "js_world \<Rightarrow> js_event list \<Rightarrow> js_msg \<Rightarrow> worker_error \<Rightarrow> js_event list \<times> bool" where
  "js_deadLetter w h m reason =
     (case nats w h (Publish (data m) reason (pod w) (seq m)) of
        None \<Rightarrow> ([DlqPublished m reason None, Termed m reason], True)
      | Some e \<Rightarrow> ([DlqPublished m reason (Some e)], False))"

fun js_permanent :: "worker_error \<Rightarrow> bool" where
  "js_permanent (MessageError _) = True"
| "js_permanent (ClaimError (InvalidRef _)) = True"
| "js_permanent (ClaimError e) = (\<not> claim_retryable e)"
| "js_permanent _ = False"

text \<open>\<open>Math.min(10_000, 1_000 * m.info.deliveryCount)\<close>: exact, as the product only matters below the cap.\<close>

definition nak_delay :: "js_msg \<Rightarrow> nat" where
  "nak_delay m = min 10000 (1000 * deliveryCount m)"

definition js_fail :: "js_world \<Rightarrow> js_event list \<Rightarrow> js_msg \<Rightarrow> worker_error \<Rightarrow> js_event list" where
  "js_fail w h m e =
     (if js_permanent e then
        (case js_deadLetter w h m e of
           (acts, True) \<Rightarrow> acts
         | (acts, False) \<Rightarrow> acts @ [Naked m (nak_delay m)])
      else [Naked m (nak_delay m)])"

text \<open>\<open>handle(m)\<close>: the new memory and the events.\<close>

definition js_try ::
  "js_world \<Rightarrow> js_state \<Rightarrow> js_msg \<Rightarrow> js_string list \<times> js_event list \<times> (worker_error, unit) result" where
  "js_try w s m =
     (case decodeMessage (Bytes (data m)) of
        Inl e \<Rightarrow> (seen s, [], Inl (MessageError e))
      | Inr msg \<Rightarrow>
          (let key = idempotencyKey no_options (AMessage msg)
           in if key \<in> set (seen s) then
                (case announce w (events s) m msg key (if msg_body msg \<noteq> None then ''inline'' else ''claim'') True of
                   (a, Inl e) \<Rightarrow> (seen s, [a], Inl e)
                 | (a, Inr _) \<Rightarrow> (seen s, [a, Acked m], Inr ()))
              else
                (case js_resolveBody (js_gateway w (events s)) msg of
                   Inl e \<Rightarrow> (seen s, [], Inl e)
                 | Inr via \<Rightarrow>
                     (case announce w (events s) m msg key via False of
                        (a, Inl e) \<Rightarrow> (seen s, [a], Inl e)
                      | (a, Inr _) \<Rightarrow> (remember key (seen s), [a, Acked m], Inr ())))))"

definition js_handle :: "js_world \<Rightarrow> js_state \<Rightarrow> js_msg \<Rightarrow> js_state \<times> js_event list" where
  "js_handle w s m =
     (case js_try w s m of (ks, acts, res) \<Rightarrow>
        (let all = (case res of Inr _ \<Rightarrow> acts | Inl e \<Rightarrow> acts @ js_fail w (events s @ acts) m e)
         in (\<lparr>seen = ks, events = events s @ all\<rparr>, all)))"

text \<open>The loop of \<open>main\<close>: one message after the other.\<close>

definition js_main :: "js_world \<Rightarrow> js_msg list \<Rightarrow> js_state \<times> js_event list list" where
  "js_main w ms = run_consumer (js_handle w) \<lparr>seen = [], events = []\<rparr> ms"

section \<open>Topology and health\<close>

text \<open>Streams, dead letters and the durable consumer, as declared at start, with the source's defaults.\<close>

record stream_config =
  sc_name :: js_string
  sc_subjects :: "js_string list"
  sc_num_replicas :: js_number
  sc_max_bytes :: js_number
  sc_workqueue_discard_new :: bool
  sc_max_age :: "js_number option"

record consumer_config =
  cc_ack_wait :: js_number
  cc_max_deliver :: int
  cc_max_ack_pending :: nat

datatype jsm_call =
    StreamsAdd stream_config
  | StreamsUpdate js_string stream_config
  | ConsumersAdd js_string consumer_config js_string js_string
  | ConsumersUpdate js_string js_string consumer_config

definition streamConfig :: "env \<Rightarrow> stream_config" where
  "streamConfig env =
     \<lparr>sc_name = env_or env ''STREAM'' ''ANKUSA'', sc_subjects = [env_or env ''SUBJECT_FILTER'' ''ankusa.>''],
      sc_num_replicas = num_of_string (env_or env ''STREAM_REPLICAS'' ''3''),
      sc_max_bytes = num_of_string (env_or env ''STREAM_MAX_BYTES'' ''671088640''),
      sc_workqueue_discard_new = True, sc_max_age = None\<rparr>"

definition dlqConfig :: "env \<Rightarrow> stream_config" where
  "dlqConfig env =
     \<lparr>sc_name = env_or env ''DLQ_STREAM'' ''ANKUSA_DLQ'', sc_subjects = [env_or env ''DLQ_SUBJECT'' ''dlq.ankusa''],
      sc_num_replicas = num_of_string (env_or env ''STREAM_REPLICAS'' ''3''),
      sc_max_bytes = Fin (64 * 1024 * 1024), sc_workqueue_discard_new = False,
      sc_max_age = Some (Fin (24 * 60 * 60 * 1000 * 1000000))\<rparr>"

definition consumerConfig :: consumer_config where
  "consumerConfig = \<lparr>cc_ack_wait = Fin (30000 * 1000000), cc_max_deliver = -1, cc_max_ack_pending = 200\<rparr>"

text \<open>\<open>add\<close>, and \<open>update\<close> when it fails; a failed update is only logged. \<open>fails\<close> says which calls fail.\<close>

definition add_or_update :: "(jsm_call \<Rightarrow> bool) \<Rightarrow> jsm_call \<Rightarrow> jsm_call \<Rightarrow> jsm_call list" where
  "add_or_update fails add upd = (if fails add then [add, upd] else [add])"

definition js_topology :: "(jsm_call \<Rightarrow> bool) \<Rightarrow> env \<Rightarrow> jsm_call list" where
  "js_topology fails env =
     (let stream = env_or env ''STREAM'' ''ANKUSA''; durable = env_or env ''CONSUMER'' ''worker''
      in add_or_update fails (StreamsAdd (streamConfig env)) (StreamsUpdate stream (streamConfig env)) @
         add_or_update fails (StreamsAdd (dlqConfig env))
           (StreamsUpdate (env_or env ''DLQ_STREAM'' ''ANKUSA_DLQ'') (dlqConfig env)) @
         add_or_update fails
           (ConsumersAdd stream consumerConfig durable (env_or env ''SUBJECT_FILTER'' ''ankusa.>''))
           (ConsumersUpdate stream durable consumerConfig))"

text \<open>\<open>connected\<close> after the connection's status events, and what the health endpoint answers.\<close>

definition js_connected :: "js_string list \<Rightarrow> bool" where
  "js_connected statuses =
     fold (\<lambda>st c. if st = js ''reconnect'' then True else if st = js ''disconnect'' then False else c) statuses True"

definition js_health :: "bool \<Rightarrow> js_string \<Rightarrow> js_string \<Rightarrow> int \<times> json_object option" where
  "js_health up method url =
     (if method = js ''GET'' \<and> url = js ''/health''
      then (200, Some [(js ''status'', JStr (js ''ok'')), (js ''connected'', JBool up)])
      else (404, None))"

section \<open>Settlement\<close>

text \<open>A request or publish that failed.\<close>

fun failed_attempt :: "js_event \<Rightarrow> bool" where
  "failed_attempt (Announced _ _ (Some _)) = True"
| "failed_attempt (DlqPublished _ _ (Some _)) = True"
| "failed_attempt _ = False"

lemma failed_not_settles: "failed_attempt a \<Longrightarrow> \<not> js_settles a"
  by (cases a) auto

lemma js_fail_cases:
  obtains (termed) "js_permanent e" "js_fail w h m e = [DlqPublished m e None, Termed m e]"
  | (naked) pre where "js_fail w h m e = pre @ [Naked m (nak_delay m)]" "list_all failed_attempt pre"
proof (cases "nats w h (Publish (data m) e (pod w) (seq m))")
  case None
  then show thesis using termed naked [of "[]"]
    by (cases "js_permanent e") (simp_all add: js_fail_def js_deadLetter_def)
next
  case (Some x)
  then show thesis using naked [of "[DlqPublished m e (Some x)]"] naked [of "[]"]
    by (cases "js_permanent e") (simp_all add: js_fail_def js_deadLetter_def)
qed

text \<open>The events of the \<open>try\<close>: the message is acked, after the ledger replied, or nothing was settled.\<close>

definition acked_events :: "js_state \<Rightarrow> js_msg \<Rightarrow> js_string list \<Rightarrow> js_event list \<Rightarrow> bool" where
  "acked_events s m ks acts \<longleftrightarrow>
     (\<exists>a. acts = [Announced m a None, Acked m] \<and>
        ks = (if an_duplicate a then seen s else remember (an_idempotency_key a) (seen s)) \<and>
        (an_duplicate a \<longleftrightarrow> an_idempotency_key a \<in> set (seen s)))"

lemma announce_cases:
  "announce w h m msg key via dup = (a, res) \<Longrightarrow>
     \<exists>r. a = Announced m (announcement_of w h msg key via dup) r \<and>
       res = (case r of None \<Rightarrow> Inr () | Some e \<Rightarrow> Inl (OtherError e))"
  by (auto simp: announce_def Let_def)

lemma announcement_of_simps [simp]:
  "an_duplicate (announcement_of w h msg key via dup) = dup"
  "an_idempotency_key (announcement_of w h msg key via dup) = key"
  by (simp_all add: announcement_of_def Let_def)

lemma js_try_events:
  assumes "js_try w s m = (ks, acts, res)"
  shows "case res of
      Inr _ \<Rightarrow> acked_events s m ks acts
    | Inl e \<Rightarrow> ks = seen s \<and> list_all failed_attempt acts"
  using assms
  by (auto simp: js_try_def acked_events_def Let_def
      split: sum.splits if_splits option.splits prod.splits dest!: announce_cases)

lemma js_handle_cases:
  assumes "js_handle w s m = (s1, acts)"
  obtains (acked) "acked_events s m (seen s1) acts"
  | (refused) pre e where "acts = pre @ [DlqPublished m e None, Termed m e]" "js_permanent e"
      "list_all failed_attempt pre" "seen s1 = seen s"
  | (retried) pre where "acts = pre @ [Naked m (nak_delay m)]" "list_all failed_attempt pre" "seen s1 = seen s"
proof -
  obtain ks acts1 res where t: "js_try w s m = (ks, acts1, res)" by (cases "js_try w s m") auto
  show thesis
  proof (cases res)
    case (Inr u)
    with js_try_events [OF t] assms t show thesis by (intro acked) (auto simp: js_handle_def Let_def)
  next
    case (Inl e)
    with assms t have h: "acts = acts1 @ js_fail w (events s @ acts1) m e" "seen s1 = ks"
      by (auto simp: js_handle_def Let_def)
    have tried: "ks = seen s" "list_all failed_attempt acts1" using js_try_events [OF t] Inl by simp_all
    show thesis
    proof (cases rule: js_fail_cases [of e w "events s @ acts1" m])
      case termed
      with h tried show thesis by (intro refused [of acts1 e]) simp_all
    next
      case (naked pre)
      with h tried show thesis by (intro retried [of "acts1 @ pre"]) simp_all
    qed
  qed
qed

interpretation jets: consumer "js_handle w" js_settles
proof
  fix s :: js_state and m
  obtain s1 acts where h: "js_handle w s m = (s1, acts)" by fastforce
  from js_handle_cases [OF h] show "length (filter js_settles (snd (js_handle w s m))) = 1"
    by cases (auto simp: h acked_events_def filter_empty_conv list_all_iff failed_not_settles)
qed

section \<open>The memory\<close>

text \<open>The keys announced as new, in order: what the memory would be without a cap.\<close>

definition fresh_keys :: "js_event list \<Rightarrow> js_string list" where
  "fresh_keys es = concat (map (\<lambda>e. case e of
      Announced _ a None \<Rightarrow> if an_duplicate a then [] else [an_idempotency_key a] | _ \<Rightarrow> []) es)"

definition window :: "'a list \<Rightarrow> 'a list" where
  "window xs = drop (length xs - DEDUPE_CAP) xs"

lemma DEDUPE_CAP_pos: "0 < DEDUPE_CAP"
  by (simp add: DEDUPE_CAP_def)

lemma remember_window:
  assumes "key \<notin> set (window ks)"
  shows "remember key (window ks) = window (ks @ [key])"
proof (cases "length ks < DEDUPE_CAP")
  case True
  with assms show ?thesis by (simp add: remember_def window_def)
next
  case False
  then have "tl (drop (length ks - DEDUPE_CAP) ks @ [key]) = drop (Suc (length ks) - DEDUPE_CAP) (ks @ [key])"
    using DEDUPE_CAP_pos by (simp add: Suc_diff_le drop_Suc tl_drop)
  with assms False show ?thesis by (simp add: remember_def window_def Let_def)
qed

lemma fresh_keys_append [simp]: "fresh_keys (es @ fs) = fresh_keys es @ fresh_keys fs"
  by (simp add: fresh_keys_def)

lemma fresh_keys_failed [simp]: "list_all failed_attempt es \<Longrightarrow> fresh_keys es = []"
  by (induction es) (auto simp: fresh_keys_def split: js_event.split option.split)

lemma fresh_keys_events:
  "fresh_keys [Announced m a None, Acked m] = (if an_duplicate a then [] else [an_idempotency_key a])"
  "fresh_keys [DlqPublished m e None, Termed m e] = []"
  "fresh_keys [Naked m d] = []"
  by (simp_all add: fresh_keys_def)

definition js_ok :: "js_state \<Rightarrow> bool" where
  "js_ok s \<longleftrightarrow> seen s = window (fresh_keys (events s)) \<and> distinct (seen s)"

lemma js_handle_ok:
  assumes "js_ok s" "js_handle w s m = (s1, acts)"
  shows "js_ok s1 \<and> events s1 = events s @ acts"
proof -
  have ev: "events s1 = events s @ acts" using assms(2) by (auto simp: js_handle_def Let_def split: prod.splits)
  from assms(2) show ?thesis
  proof (cases rule: js_handle_cases)
    case acked
    then obtain a where a: "acts = [Announced m a None, Acked m]"
      "seen s1 = (if an_duplicate a then seen s else remember (an_idempotency_key a) (seen s))"
      "an_duplicate a \<longleftrightarrow> an_idempotency_key a \<in> set (seen s)" by (auto simp: acked_events_def)
    show ?thesis
    proof (cases "an_duplicate a")
      case True
      with a assms(1) ev show ?thesis by (auto simp: js_ok_def fresh_keys_events)
    next
      case False
      with a assms(1) have "seen s1 = window (fresh_keys (events s) @ [an_idempotency_key a])"
        by (simp add: js_ok_def remember_window)
      moreover have "distinct (seen s1)"
        using False a assms(1) by (auto simp: js_ok_def remember_def Let_def distinct_tl)
      ultimately show ?thesis using a False ev by (auto simp: js_ok_def fresh_keys_events)
    qed
  next
    case (refused pre e)
    with assms(1) ev show ?thesis by (auto simp: js_ok_def fresh_keys_events)
  next
    case (retried pre)
    with assms(1) ev show ?thesis by (auto simp: js_ok_def fresh_keys_events)
  qed
qed

lemma js_run_ok: "js_ok (fst (run_consumer (js_handle w) \<lparr>seen = [], events = []\<rparr> ms)) \<and>
    events (fst (run_consumer (js_handle w) \<lparr>seen = [], events = []\<rparr> ms)) =
      concat (snd (run_consumer (js_handle w) \<lparr>seen = [], events = []\<rparr> ms))"
proof (induction ms rule: rev_induct)
  case Nil
  then show ?case by (simp add: js_ok_def window_def fresh_keys_def)
next
  case (snoc m ms)
  let ?r = "run_consumer (js_handle w) \<lparr>seen = [], events = []\<rparr> ms"
  obtain s1 acts where h: "js_handle w (fst ?r) m = (s1, acts)" by fastforce
  from snoc js_handle_ok [OF _ h] h show ?case by (simp add: run_consumer_snoc split_beta)
qed

section \<open>Properties\<close>

text \<open>The events of one message, as the documentation of the example promises them.\<close>

definition settled_well :: "js_msg \<Rightarrow> js_event list \<Rightarrow> bool" where
  "settled_well m acts \<longleftrightarrow>
     (\<exists>pre. list_all failed_attempt pre \<and>
        ((\<exists>a. acts = pre @ [Announced m a None, Acked m]) \<or>
         (\<exists>e. js_permanent e \<and> acts = pre @ [DlqPublished m e None, Termed m e]) \<or>
         acts = pre @ [Naked m (min 10000 (1000 * deliveryCount m))]))"

lemma js_handle_settled: "settled_well m (snd (js_handle w s m))"
proof -
  obtain s1 acts where h: "js_handle w s m = (s1, acts)" by fastforce
  then show ?thesis
  proof (cases rule: js_handle_cases)
    case acked
    with h show ?thesis by (auto simp: acked_events_def settled_well_def intro!: exI [of _ "[]"])
  qed (auto simp: h settled_well_def nak_delay_def)
qed

text \<open>
  C10. Every message is settled exactly once, and how: over any run, whatever NATS and the gateway
  answer, each message is acked, terminated or naked once; it is acked only after the ledger
  replied, and terminated only for a permanent failure and after the dead-letter stream took its
  copy; otherwise it comes back after \<open>deliveryCount\<close> seconds, at most 10.
\<close>

theorem js_settles_each:
  "let acts = snd (js_main w ms)
   in list_all2 settled_well ms acts \<and> length (filter js_settles (concat acts)) = length ms"
proof -
  have "list_all2 settled_well ms (snd (run_consumer (js_handle w) s ms))" for s
    by (induction ms arbitrary: s) (auto simp: split_beta js_handle_settled)
  then show ?thesis by (simp add: js_main_def Let_def jets.run_settles_all)
qed

text \<open>
  C11. The memory is the most recent keys: after any run it holds exactly the last 20000 of the keys
  announced as new, each once and in order, so it never grows past its cap and evicts the oldest
  first; and a key it holds is never announced as new.
\<close>

theorem js_memory_window:
  "case js_main w ms of (s, acts) \<Rightarrow>
     (let ks = fresh_keys (concat acts)
      in seen s = drop (length ks - 20000) ks \<and> distinct (seen s) \<and> length (seen s) \<le> 20000)"
  using js_run_ok [of w ms]
  by (auto simp: js_main_def js_ok_def window_def DEDUPE_CAP_def Let_def split: prod.split)

text \<open>
  C29. What a healthy NATS sees: when every request and publish succeeds, a message is acked exactly
  when it decodes and its key is known or its body resolves, it is announced as a duplicate exactly
  when its key is known, and otherwise it is dead-lettered and terminated, except for a retryable
  claim-check failure, which puts it back.
\<close>

theorem js_healthy_verdict:
  assumes "\<And>h c. nats w h c = None"
  shows "let acts = snd (js_handle w s m); dead = (\<lambda>e. [DlqPublished m e None, Termed m e])
    in case decodeMessage (Bytes (data m)) of
         Inl e \<Rightarrow> acts = dead (MessageError e)
       | Inr msg \<Rightarrow>
           (let key = idempotencyKey no_options (AMessage msg)
            in case (if key \<in> set (seen s) then Inr [] else js_resolveBody (js_gateway w (events s)) msg) of
                 Inr _ \<Rightarrow> \<exists>a. acts = [Announced m a None, Acked m] \<and> an_idempotency_key a = key \<and>
                   (an_duplicate a \<longleftrightarrow> key \<in> set (seen s)) \<and> an_hook_id a = msg_id msg
               | Inl (ClaimError e) \<Rightarrow>
                   acts = (if claim_retryable e then [Naked m (nak_delay m)] else dead (ClaimError e))
               | Inl _ \<Rightarrow> False)"
proof (cases "decodeMessage (Bytes (data m))")
  case (Inl e)
  with assms show ?thesis by (simp add: js_handle_def js_try_def js_fail_def js_deadLetter_def Let_def)
next
  case msg: (Inr msg)
  let ?key = "idempotencyKey no_options (AMessage msg)"
  have ann: "announce w h m msg key via dup = (Announced m (announcement_of w h msg key via dup) None, Inr ())" for h key via dup
    using assms by (simp add: announce_def Let_def)
  have hid: "an_hook_id (announcement_of w h msg key via dup) = msg_id msg" for h key via dup
    by (simp add: announcement_of_def Let_def)
  have perm: "js_permanent (ClaimError e) \<longleftrightarrow> \<not> claim_retryable e" for e by (cases e) simp_all
  show ?thesis
  proof (cases "?key \<in> set (seen s)")
    case True
    with msg ann hid show ?thesis by (simp add: js_handle_def js_try_def Let_def)
  next
    case False
    show ?thesis
    proof (cases "js_resolveBody (js_gateway w (events s)) msg")
      case (Inr via)
      with msg False ann hid show ?thesis by (simp add: js_handle_def js_try_def Let_def)
    next
      case (Inl e)
      then obtain c where c: "e = ClaimError c"
        by (auto simp: js_resolveBody_def split: if_splits option.splits sum.splits)
      with msg False Inl assms perm show ?thesis
        by (simp add: js_handle_def js_try_def js_fail_def js_deadLetter_def Let_def)
    qed
  qed
qed

theorem js_healthy_verdict_witness:
  "snd (js_handle \<lparr>pod = js ''p'', nats = \<lambda>_ _. None, js_gateway = \<lambda>_ _. Rejects (Failure []), js_clock = \<lambda>_. Fin 0\<rparr>
      \<lparr>seen = [], events = []\<rparr> \<lparr>data = [], seq = 7, deliveryCount = 1\<rparr>) =
     [DlqPublished \<lparr>data = [], seq = 7, deliveryCount = 1\<rparr> (MessageError (message_error invalid_json)) None,
      Termed \<lparr>data = [], seq = 7, deliveryCount = 1\<rparr> (MessageError (message_error invalid_json))]"
proof -
  let ?w = "\<lparr>pod = js ''p'', nats = \<lambda>_ _. None, js_gateway = \<lambda>_ _. Rejects (Failure []), js_clock = \<lambda>_. Fin 0\<rparr>"
  have "decodeMessage (Bytes []) = Inl (message_error invalid_json)"
    by (simp add: decodeMessage_def utf8_decode_def JSON_parse_def parse_value.simps skip_ws_def)
  with js_healthy_verdict [of ?w "\<lparr>seen = [], events = []\<rparr>" "\<lparr>data = [], seq = 7, deliveryCount = 1\<rparr>"]
  show ?thesis by (simp add: Let_def)
qed

end
