(* ===== verification/Event_Routing.thy ===== *)
theory Event_Routing
  imports Webhook_Receive Consumer
begin

text \<open>
  The event-routing example: the HTTP receiver, \<open>examples/event-routing/receiver/src/receiver.ts\<close>, on
  top of \<open>receiveDelivery\<close>, and the Kafka worker, \<open>examples/event-routing/worker/src/worker.ts\<close>, on
  top of \<open>decodeMessage\<close>. The lemmas show which status each request gets and that the receiver never
  takes a delivery it did not verify.
\<close>

section \<open>The receiver\<close>

text \<open>A request as Node's server hands it over: its body arrives in chunks.\<close>

record incoming =
  in_method :: js_string
  in_url :: js_string
  in_headers :: "(js_string \<times> header_value option) list"
  in_chunks :: "byte list list"

text \<open>The secret at start: \<open>None\<close> when the process exits because it is not set.\<close>

definition receiver_secret :: "env \<Rightarrow> js_string option" where
  "receiver_secret env = or_null (env ''SINK_WHSEC'')"

text \<open>\<open>String(req.headers["x-ankusa-event-type"] ?? "null")\<close>\<close>

definition event_type_text :: "(js_string \<times> header_value option) list \<Rightarrow> js_string" where
  "event_type_text hs =
     (case map_of hs (js ''x-ankusa-event-type'') of
        Some (Some (One s)) \<Rightarrow> s
      | Some (Some (Many ss)) \<Rightarrow> join_with 0x2C ss
      | _ \<Rightarrow> js ''null'')"

definition receiver_options :: "js_string \<Rightarrow> incoming \<Rightarrow> ReceiveDeliveryOptions" where
  "receiver_options secret req =
     \<lparr>rd_headers = Record (in_headers req), rd_body = Bytes (concat (in_chunks req)),
      rd_secrets = Some (OneSecret secret), rd_allowUnsigned = None, rd_toleranceSeconds = None, rd_now = None\<rparr>"

text \<open>The status, and what is printed of an accepted delivery.\<close>

definition receiver_answer ::
  "js_number \<Rightarrow> js_string \<Rightarrow> incoming \<Rightarrow> int \<times> (ReceivedDelivery \<times> js_string \<times> js_string) option" where
  "receiver_answer clock secret req =
     (if in_method req \<noteq> js ''POST'' \<or> in_url req \<noteq> js ''/invoices'' then (404, None)
      else case receiveDelivery clock (receiver_options secret req) of
        Inr hook \<Rightarrow> (204, Some (hook, event_type_text (in_headers req), utf8_to_string (concat (in_chunks req))))
      | Inl (InvalidSignature _) \<Rightarrow> (401, None)
      | Inl (MissingHookId _) \<Rightarrow> (400, None))"

section \<open>The Kafka worker\<close>

definition routing_topics :: "js_string list" where
  "routing_topics = [js ''events.invoice.paid'', js ''events.other'']"

text \<open>
  \<open>eachMessage\<close>: nothing for a record without a value, otherwise the printed topic, id, event type
  and body; a message that does not decode is thrown to the client library.
\<close>

definition eachMessage ::
  "js_string \<Rightarrow> byte list option \<Rightarrow> (InvalidMessageError, (js_string \<times> js_string \<times> js_string \<times> js_string) option) result" where
  "eachMessage topic val =
     (case val of
        None \<Rightarrow> Inr None
      | Some bytes \<Rightarrow>
          result_bind (decodeMessage (Bytes bytes)) (\<lambda>hook.
            let body = (case msg_body hook of None \<Rightarrow> js ''(claim)'' | Some b \<Rightarrow> utf8_to_string b);
                ty = (case event_type hook of None \<Rightarrow> js ''null'' | Some t \<Rightarrow> t)
            in Inr (Some (topic, msg_id hook, ty, body))))"

section \<open>Properties\<close>

text \<open>
  C33. The receiver's answers: 404 exactly for another method or path; otherwise 401 exactly when the
  signature over the whole body does not verify under the configured secret, 400 exactly when it
  verifies but the delivery has no id, and 204 exactly when it verifies and has one. Only a 204
  hands a delivery on, and that delivery is verified.
\<close>

theorem receiver_verdict:
  "let routed = (in_method req = js ''POST'' \<and> in_url req = js ''/invoices'');
       sig = verifySignature clock
         \<lparr>vs_headers = Record (in_headers req), vs_body = Bytes (concat (in_chunks req)),
          vs_secrets = SecretList [secret], vs_toleranceSeconds = None, vs_now = None\<rparr>;
       parsed = parseHeaders (Record (in_headers req));
       (st, out) = receiver_answer clock secret req
   in (st = 404 \<longleftrightarrow> \<not> routed) \<and>
      (st = 401 \<longleftrightarrow> routed \<and> (\<exists>e. sig = Inl e)) \<and>
      (st = 400 \<longleftrightarrow> routed \<and> (\<exists>v e. sig = Inr v \<and> parsed = Inl e)) \<and>
      (st = 204 \<longleftrightarrow> routed \<and> (\<exists>v h. sig = Inr v \<and> parsed = Inr h)) \<and>
      (case out of
         None \<Rightarrow> st \<in> {400, 401, 404}
       | Some (hook, _, _) \<Rightarrow> st = 204 \<and> verified hook \<and> parsed = Inr (HookHeaders.truncate hook))"
  by (simp add: receiver_answer_def receiver_options_def receiveDelivery_def receive_secrets_def
      receive_verify_options_def Let_def split: sum.split) blast

end
