(* ===== verification/Admin.thy ===== *)
theory Admin
  imports Http
begin

text \<open>
  The operator API client, \<open>admin/client.ts\<close> and \<open>admin/errors.ts\<close>: every operation is one request
  and the common classification of its answer. The lemmas show that the retry bit depends on the
  status alone, that only a 2xx answer is returned as data, and what a refused request reports.
\<close>

section \<open>Errors\<close>

text \<open>
  The fields of an error body are passed on as they are (\<open>None\<close> is \<open>undefined\<close>); the scope is
  \<open>JNull\<close> when the body has none. The last is not of the hierarchy: the \<open>TypeError\<close> of a template whose
  value has no text.
\<close>

datatype AdminError =
    RoleNotEnabledError "json option"
  | AdminRejectedError int "json option" json
  | AdminUnavailableError "cause option"
  | AdminTypeError

fun admin_retryable :: "AdminError \<Rightarrow> bool" where
  "admin_retryable (RoleNotEnabledError _) = False"
| "admin_retryable (AdminRejectedError _ _ _) = False"
| "admin_retryable (AdminUnavailableError _) = True"
| "admin_retryable AdminTypeError = False"

section \<open>Requests\<close>

text \<open>\<open>value ?? null\<close>\<close>

definition or_JNull :: "json option \<Rightarrow> json" where
  "or_JNull v = (case v of None \<Rightarrow> JNull | Some x \<Rightarrow> x)"

text \<open>The status checks of \<open>request\<close>, in order; \<open>None\<close> for a 2xx.\<close>

definition admin_judge :: "int \<Rightarrow> json option \<Rightarrow> AdminError option" where
  "admin_judge st err =
     (if st \<ge> 200 \<and> st < 300 then None
      else
        (let body = error_body err
         in if st = 409 \<and> json_field body ''error'' = Some (JStr (js ''role_not_enabled''))
            then Some (if template_throws [json_field body ''role''] then AdminTypeError
                       else RoleNotEnabledError (json_field body ''role''))
            else if st \<ge> 400 \<and> st < 500
            then Some (AdminRejectedError st (json_field body ''error'') (or_JNull (json_field body ''scope'')))
            else Some (AdminUnavailableError None)))"

definition admin_request :: "json http \<Rightarrow> http_request \<Rightarrow> (AdminError, json option) call" where
  "admin_request http req =
     (sent req,
      case awaited http req of
        Rejects err \<Rightarrow> Inl (AdminUnavailableError (Some err))
      | Answers st data err \<Rightarrow>
          (case admin_judge st err of Some e \<Rightarrow> Inl e | None \<Rightarrow> Inr data))"

definition admin_health :: "json http \<Rightarrow> js_number option \<Rightarrow> (AdminError, json) call" where
  "admin_health http timeoutMs =
     (let req = http_get ''/health'' (timeout_of timeoutMs)
      in (sent req,
          case awaited http req of
            Rejects err \<Rightarrow> Inl (AdminUnavailableError (Some err))
          | Answers st data err \<Rightarrow>
              (if st \<noteq> 200 \<or> data = None then Inl (AdminUnavailableError None) else Inr (the data))))"

definition metrics :: "json http \<Rightarrow> js_number option \<Rightarrow> (AdminError, json option) call" where
  "metrics http timeoutMs = admin_request http ((http_get ''/metrics'' (timeout_of timeoutMs))\<lparr>rq_parseAs := AsText\<rparr>)"

definition config :: "json http \<Rightarrow> js_number option \<Rightarrow> (AdminError, json option) call" where
  "config http timeoutMs = admin_request http (http_get ''/v1/config'' (timeout_of timeoutMs))"

definition listDeadLetters :: "json http \<Rightarrow> js_number option \<Rightarrow> json_object option \<Rightarrow> (AdminError, json option) call" where
  "listDeadLetters http timeoutMs params =
     admin_request http ((http_get ''/v1/dlq'' (timeout_of timeoutMs))\<lparr>rq_query := params\<rparr>)"

definition createReplay :: "json http \<Rightarrow> js_number option \<Rightarrow> json \<Rightarrow> (AdminError, json option) call" where
  "createReplay http timeoutMs spec =
     admin_request http
       ((http_get ''/v1/replays'' (timeout_of timeoutMs))\<lparr>rq_method := POST, rq_body := Some spec\<rparr>)"

definition getReplay :: "json http \<Rightarrow> js_number option \<Rightarrow> js_string \<Rightarrow> (AdminError, json option) call" where
  "getReplay http timeoutMs i =
     admin_request http
       ((http_get ''/v1/replays/{id}'' (timeout_of timeoutMs))\<lparr>rq_params := [(js ''id'', i)]\<rparr>)"

definition listReplays :: "json http \<Rightarrow> js_number option \<Rightarrow> (AdminError, json option) call" where
  "listReplays http timeoutMs = admin_request http (http_get ''/v1/replays'' (timeout_of timeoutMs))"

definition updateReplay :: "json http \<Rightarrow> js_number option \<Rightarrow> js_string \<Rightarrow> json \<Rightarrow> (AdminError, json option) call" where
  "updateReplay http timeoutMs i patch =
     admin_request http
       ((http_get ''/v1/replays/{id}'' (timeout_of timeoutMs))
          \<lparr>rq_method := PATCH, rq_params := [(js ''id'', i)], rq_body := Some patch\<rparr>)"

definition listQuarantined :: "json http \<Rightarrow> js_number option \<Rightarrow> json_object option \<Rightarrow> (AdminError, json option) call" where
  "listQuarantined http timeoutMs params =
     admin_request http ((http_get ''/v1/quarantine'' (timeout_of timeoutMs))\<lparr>rq_query := params\<rparr>)"

definition listAudit :: "json http \<Rightarrow> js_number option \<Rightarrow> json_object option \<Rightarrow> (AdminError, json option) call" where
  "listAudit http timeoutMs params =
     admin_request http ((http_get ''/v1/audit'' (timeout_of timeoutMs))\<lparr>rq_query := params\<rparr>)"

section \<open>Lemmas\<close>

interpretation admin_errors: http_errors admin_judge admin_retryable "\<lambda>st. 200 \<le> st \<and> st < 300" "\<lambda>_. False"
  by unfold_locales (auto simp: admin_judge_def Let_def split: if_splits)

text \<open>
  The outcome of an admin request is decided by the transport and the status: a request that did
  not complete fails as retryable, a 2xx returns its data, and any other status fails, retryable
  exactly when it is not a 4xx (so 408 and 429 are final here, unlike in the claim-check client),
  as \<open>RoleNotEnabledError\<close>, or the \<open>TypeError\<close> of its message, exactly for a 409 whose body says so.
\<close>

lemma admin_request_retryable:
  "case awaited http req of
     Rejects _ \<Rightarrow> (\<exists>e. snd (admin_request http req) = Inl e \<and> admin_retryable e)
   | Answers st data err \<Rightarrow>
       if 200 \<le> st \<and> st < 300 then snd (admin_request http req) = Inr data
       else (\<exists>e. snd (admin_request http req) = Inl e \<and>
         (admin_retryable e \<longleftrightarrow> \<not> (400 \<le> st \<and> st < 500)) \<and>
         ((\<exists>r. e = RoleNotEnabledError r) \<or> e = AdminTypeError \<longleftrightarrow>
            st = 409 \<and> json_field (error_body err) ''error'' = Some (JStr (js ''role_not_enabled''))))"
proof (cases "awaited http req")
  case (Rejects msg)
  then show ?thesis by (simp add: admin_request_def)
next
  case (Answers st data err)
  have "(\<exists>r. admin_judge st err = Some (RoleNotEnabledError r)) \<or> admin_judge st err = Some AdminTypeError \<longleftrightarrow>
      st = 409 \<and> json_field (error_body err) ''error'' = Some (JStr (js ''role_not_enabled''))"
    by (auto simp: admin_judge_def Let_def)
  with Answers show ?thesis
    using admin_errors.judge_None [of st err] admin_errors.judge_retryable [of st err]
    by (cases "admin_judge st err") (auto simp: admin_request_def)
qed

text \<open>
  The admin client does not screen replay ids: for the id \<open>..\<close> (as for any id) \<open>getReplay\<close>
  sends its request, and the encoded segment is one a URL parser removes, so the request addresses
  another resource than a replay job.
\<close>

lemma getReplay_unscreened:
  "fst (getReplay http None (js ''..'')) =
     [\<lparr>rq_method = GET, rq_path = js ''/v1/replays/{id}'', rq_params = [(js ''id'', js ''..'')],
       rq_query = None, rq_body = None, rq_parseAs = AsJson, rq_timeoutMs = timeout_of None\<rparr>] \<and>
   map_option is_dot_segment (encodeURIComponent (js ''..'')) = Some True"
proof
  show "map_option is_dot_segment (encodeURIComponent (js ''..'')) = Some True"
    by (simp add: js_eval is_dot_segment_def dot_forms_def encodeURIComponent_def escaped_def utf8_encode_ascii is_high_surrogate_def is_low_surrogate_def is_ascii_def
        encode_byte_def is_unreserved_def)
qed (simp add: getReplay_def admin_request_def http_get_def)

end
