(* ===== verification/Routes.thy ===== *)
theory Routes
  imports Http
begin

text \<open>
  The route-management client, \<open>routes/client.ts\<close> and \<open>routes/errors.ts\<close>. The lemmas show that an
  id a URL parser would normalize away never reaches the wire and every other id addresses its own
  route, that the retry bit depends on the status alone, and what a rejection reports.
\<close>

section \<open>Errors\<close>

text \<open>The fields of a rejection's body, passed on as they are; \<open>None\<close> is \<open>undefined\<close>.\<close>

record rejection =
  rej_status :: int
  rej_code :: "json option"
  rej_field :: "json option"
  rej_message :: "json option"
  conflicting_id :: "json option"
  max_routes :: "json option"
  rej_scope :: json

text \<open>
  The id as the caller passed it: JSON data, \<open>undefined\<close>, a bigint, or any other value (a function, a
  symbol, an object that is no JSON data), of which only matters whether \<open>JSON.stringify\<close> throws on it.
\<close>

datatype route_id = Value json | Undefined | BigInt int | Foreign bool

fun stringify_throws :: "route_id \<Rightarrow> bool" where
  "stringify_throws (Value _) = False"
| "stringify_throws Undefined = False"
| "stringify_throws (BigInt _) = True"
| "stringify_throws (Foreign throws) = throws"

text \<open>
  The class hierarchy, and beside it the \<open>TypeError\<close> an error's constructor throws when the id, the
  message or the code it prints has no text.
\<close>

datatype RoutesError =
    RouteNotFoundError
  | InvalidRouteIdError route_id
  | RoutesRejectedError rejection
  | RoutesUnavailableError "cause option"
  | RoutesTypeError

fun routes_retryable :: "RoutesError \<Rightarrow> bool" where
  "routes_retryable RouteNotFoundError = False"
| "routes_retryable (InvalidRouteIdError _) = False"
| "routes_retryable (RoutesRejectedError _) = False"
| "routes_retryable (RoutesUnavailableError _) = True"
| "routes_retryable RoutesTypeError = False"

section \<open>Requests\<close>

definition INVALID_ROUTE_IDS :: "js_string list" where
  "INVALID_ROUTE_IDS = [[], js ''.'', js ''..'']"

text \<open>\<open>new InvalidRouteIdError(id)\<close>, whose message is \<open>JSON.stringify(id)\<close> in a template.\<close>

definition invalid_route_id :: "route_id \<Rightarrow> RoutesError" where
  "invalid_route_id i = (if stringify_throws i then RoutesTypeError else InvalidRouteIdError i)"

text \<open>The string the id is when it addresses a route.\<close>

fun assertRouteId :: "route_id \<Rightarrow> (RoutesError, js_string) result" where
  "assertRouteId (Value (JStr s)) =
     (if s \<in> set INVALID_ROUTE_IDS then Inl (invalid_route_id (Value (JStr s))) else Inr s)"
| "assertRouteId i = Inl (invalid_route_id i)"

text \<open>
  \<open>rejected(status, body)\<close>: an object's fields (an array has none of them); any other body only
  gives the status. The error's message is the body's, or a template with the code.
\<close>

definition rejection_throws :: "json \<Rightarrow> bool" where
  "rejection_throws body =
     template_throws [if nullish (json_field body ''message'') then json_field body ''error''
       else json_field body ''message'']"

definition rejected :: "int \<Rightarrow> json \<Rightarrow> RoutesError" where
  "rejected st body =
     (if rejection_throws body then RoutesTypeError else RoutesRejectedError
       \<lparr>rej_status = st, rej_code = json_field body ''error'', rej_field = json_field body ''field'',
        rej_message = json_field body ''message'', conflicting_id = json_field body ''conflicting_id'',
        max_routes = json_field body ''max_routes'',
        rej_scope = (case json_field body ''scope'' of None \<Rightarrow> JNull | Some v \<Rightarrow> v)\<rparr>)"

definition routes_judge :: "int \<Rightarrow> json option \<Rightarrow> RoutesError option" where
  "routes_judge st err =
     (if st \<ge> 200 \<and> st < 300 then None
      else if st = 404 then Some RouteNotFoundError
      else if st \<ge> 400 \<and> st < 500 then Some (rejected st (error_body err))
      else Some (RoutesUnavailableError None))"

definition routes_request :: "json http \<Rightarrow> http_request \<Rightarrow> (RoutesError, json option) call" where
  "routes_request http req =
     (sent req,
      case awaited http req of
        Rejects err \<Rightarrow> Inl (RoutesUnavailableError (Some err))
      | Answers st data err \<Rightarrow>
          (case routes_judge st err of Some e \<Rightarrow> Inl e | None \<Rightarrow> Inr data))"

text \<open>\<open>assertRouteId(id); return request(...)\<close>\<close>

definition with_route_id :: "route_id \<Rightarrow> (js_string \<Rightarrow> (RoutesError, 'a) call) \<Rightarrow> (RoutesError, 'a) call" where
  "with_route_id i k = (case assertRouteId i of Inl e \<Rightarrow> ([], Inl e) | Inr s \<Rightarrow> k s)"

definition routes_health :: "json http \<Rightarrow> js_number option \<Rightarrow> (RoutesError, json) call" where
  "routes_health http timeoutMs =
     (let req = http_get ''/health'' (timeout_of timeoutMs)
      in (sent req,
          case awaited http req of
            Rejects err \<Rightarrow> Inl (RoutesUnavailableError (Some err))
          | Answers st data err \<Rightarrow>
              (if st \<noteq> 200 \<or> data = None then Inl (RoutesUnavailableError None) else Inr (the data))))"

definition listRoutes :: "json http \<Rightarrow> js_number option \<Rightarrow> json_object option \<Rightarrow> (RoutesError, json option) call" where
  "listRoutes http timeoutMs params =
     routes_request http ((http_get ''/admin/routes'' (timeout_of timeoutMs))\<lparr>rq_query := params\<rparr>)"

definition createRoute :: "json http \<Rightarrow> js_number option \<Rightarrow> json \<Rightarrow> (RoutesError, json option) call" where
  "createRoute http timeoutMs input =
     routes_request http
       ((http_get ''/admin/routes'' (timeout_of timeoutMs))\<lparr>rq_method := POST, rq_body := Some input\<rparr>)"

definition getRoute :: "json http \<Rightarrow> js_number option \<Rightarrow> route_id \<Rightarrow> (RoutesError, json option) call" where
  "getRoute http timeoutMs i =
     with_route_id i (\<lambda>s. routes_request http
       ((http_get ''/admin/routes/{id}'' (timeout_of timeoutMs))\<lparr>rq_params := [(js ''id'', s)]\<rparr>))"

definition replaceRoute :: "json http \<Rightarrow> js_number option \<Rightarrow> route_id \<Rightarrow> json \<Rightarrow> (RoutesError, json option) call" where
  "replaceRoute http timeoutMs i input =
     with_route_id i (\<lambda>s. routes_request http
       ((http_get ''/admin/routes/{id}'' (timeout_of timeoutMs))
          \<lparr>rq_method := PUT, rq_params := [(js ''id'', s)], rq_body := Some input\<rparr>))"

definition updateRoute :: "json http \<Rightarrow> js_number option \<Rightarrow> route_id \<Rightarrow> json \<Rightarrow> (RoutesError, json option) call" where
  "updateRoute http timeoutMs i patch =
     with_route_id i (\<lambda>s. routes_request http
       ((http_get ''/admin/routes/{id}'' (timeout_of timeoutMs))
          \<lparr>rq_method := PATCH, rq_params := [(js ''id'', s)], rq_body := Some patch\<rparr>))"

definition deleteRoute :: "json http \<Rightarrow> js_number option \<Rightarrow> route_id \<Rightarrow> (RoutesError, unit) call" where
  "deleteRoute http timeoutMs i =
     with_route_id i (\<lambda>s.
       case routes_request http
         ((http_get ''/admin/routes/{id}'' (timeout_of timeoutMs))
            \<lparr>rq_method := DELETE, rq_params := [(js ''id'', s)]\<rparr>)
       of (reqs, res) \<Rightarrow> (reqs, result_bind res (\<lambda>_. Inr ())))"

definition getIpRules :: "json http \<Rightarrow> js_number option \<Rightarrow> (RoutesError, json option) call" where
  "getIpRules http timeoutMs = routes_request http (http_get ''/admin/ip-rules'' (timeout_of timeoutMs))"

definition putIpRules :: "json http \<Rightarrow> js_number option \<Rightarrow> json \<Rightarrow> (RoutesError, json option) call" where
  "putIpRules http timeoutMs rules =
     routes_request http
       ((http_get ''/admin/ip-rules'' (timeout_of timeoutMs))\<lparr>rq_method := PUT, rq_body := Some rules\<rparr>)"

definition testRoute :: "json http \<Rightarrow> js_number option \<Rightarrow> json \<Rightarrow> (RoutesError, json option) call" where
  "testRoute http timeoutMs req =
     routes_request http
       ((http_get ''/admin/routes/test'' (timeout_of timeoutMs))\<lparr>rq_method := POST, rq_body := Some req\<rparr>)"

section \<open>Lemmas\<close>

interpretation routes_errors: http_errors routes_judge routes_retryable "\<lambda>st. 200 \<le> st \<and> st < 300" "\<lambda>_. False"
  by unfold_locales (auto simp: routes_judge_def rejected_def split: if_splits)

lemma assertRouteId_Inr_iff:
  "assertRouteId i = Inr s \<longleftrightarrow> i = Value (JStr s) \<and> s \<noteq> [] \<and> s \<noteq> js ''.'' \<and> s \<noteq> js ''..''"
  by (cases i rule: assertRouteId.cases) (auto simp: INVALID_ROUTE_IDS_def)

lemma assertRouteId_Inl: "assertRouteId i = Inl e \<Longrightarrow> e = invalid_route_id i"
  by (cases i rule: assertRouteId.cases) (auto split: if_splits)

text \<open>The encoded segment of an id that passes, unless the library's encoding throws.\<close>

lemma accepted_segment:
  assumes "s \<noteq> []" "s \<noteq> js ''.''" "s \<noteq> js ''..''" "encodeURIComponent s = Some seg"
  shows "seg \<noteq> []" "0x2F \<notin> set seg" "\<not> is_dot_segment seg"
proof -
  have seg: "seg = escaped s" using assms(4) by (simp add: encodeURIComponent_def split: if_splits)
  show "seg \<noteq> []" using assms(1) by (simp add: seg encode_Nil_iff utf8_encode_Nil_iff)
  show "\<not> is_dot_segment seg" using assms(2,3) encode_dot_segment [of s] by (auto simp: seg)
  show "0x2F \<notin> set seg" by (simp add: seg encode_no_slash)
qed

text \<open>The calls of the four operations, by whether the id passes.\<close>

lemma route_id_passes:
  assumes "i = Value (JStr s)" "s \<noteq> []" "s \<noteq> js ''.''" "s \<noteq> js ''..''"
  shows "map (map rq_params) [fst (getRoute http t i), fst (replaceRoute http t i v), fst (updateRoute http t i v),
    fst (deleteRoute http t i)] = replicate 4 (if delay_ok (timeout_of t) then [[(js ''id'', s)]] else [])"
proof -
  have "assertRouteId i = Inr s" using assms by (simp only: assertRouteId_Inr_iff simp_thms)
  then show ?thesis
    by (simp add: getRoute_def replaceRoute_def updateRoute_def deleteRoute_def with_route_id_def
        routes_request_def http_get_def sent_def numeral_eq_Suc)
qed

lemma route_id_refused:
  assumes "\<nexists>s. i = Value (JStr s) \<and> s \<notin> {[], js ''.'', js ''..''}"
  shows "getRoute http t i = ([], Inl (invalid_route_id i))" "replaceRoute http t i v = ([], Inl (invalid_route_id i))"
    "updateRoute http t i v = ([], Inl (invalid_route_id i))" "deleteRoute http t i = ([], Inl (invalid_route_id i))"
proof -
  have "assertRouteId i = Inl (invalid_route_id i)"
    using assms assertRouteId_Inr_iff [of i] assertRouteId_Inl [of i] by (cases "assertRouteId i") auto
  then show "getRoute http t i = ([], Inl (invalid_route_id i))" "replaceRoute http t i v = ([], Inl (invalid_route_id i))"
    "updateRoute http t i v = ([], Inl (invalid_route_id i))" "deleteRoute http t i = ([], Inl (invalid_route_id i))"
    by (simp_all add: getRoute_def replaceRoute_def updateRoute_def deleteRoute_def with_route_id_def)
qed

text \<open>
  C35. Route ids are screened before any request. An id that is a string other than the empty one, \<open>.\<close>
  and \<open>..\<close> is accepted by each of the four per-route operations, which calls the client library once,
  with exactly that id (unless the configured deadline is none); its encoded path segment, where the
  encoding does not throw on a lone surrogate, is not empty, has no slash and is not a dot segment in
  any spelling, so a URL parser cannot turn it into the collection endpoint. Every other value makes
  all four fail without a request: with \<open>InvalidRouteIdError\<close>, or the \<open>TypeError\<close> of its message when
  the value (a bigint) cannot be written as JSON.
\<close>

theorem route_ids_screened:
  "if \<exists>s. i = Value (JStr s) \<and> s \<notin> {[], js ''.'', js ''..''}
   then \<exists>s. i = Value (JStr s) \<and>
     map (map rq_params) [fst (getRoute http t i), fst (replaceRoute http t i v), fst (updateRoute http t i v),
       fst (deleteRoute http t i)] = replicate 4 (if delay_ok (timeout_of t) then [[(js ''id'', s)]] else []) \<and>
     (case encodeURIComponent s of
        None \<Rightarrow> \<not> well_formed s
      | Some seg \<Rightarrow> seg \<noteq> [] \<and> 0x2F \<notin> set seg \<and> \<not> is_dot_segment seg)
   else
     (let e = (case i of BigInt _ \<Rightarrow> RoutesTypeError | Foreign True \<Rightarrow> RoutesTypeError | _ \<Rightarrow> InvalidRouteIdError i)
      in getRoute http t i = ([], Inl e) \<and> replaceRoute http t i v = ([], Inl e) \<and>
         updateRoute http t i v = ([], Inl e) \<and> deleteRoute http t i = ([], Inl e))"
proof (cases "\<exists>s. i = Value (JStr s) \<and> s \<notin> {[], js ''.'', js ''..''}")
  case True
  then obtain s where s: "i = Value (JStr s)" "s \<noteq> []" "s \<noteq> js ''.''" "s \<noteq> js ''..''" by auto
  have "case encodeURIComponent s of None \<Rightarrow> \<not> well_formed s
      | Some seg \<Rightarrow> seg \<noteq> [] \<and> 0x2F \<notin> set seg \<and> \<not> is_dot_segment seg"
    using accepted_segment [OF s(2-4)] by (auto simp: encodeURIComponent_def)
  with route_id_passes [OF s] s(1) True show ?thesis by (simp only: if_True) blast
next
  case False
  have "invalid_route_id i =
      (case i of BigInt _ \<Rightarrow> RoutesTypeError | Foreign True \<Rightarrow> RoutesTypeError | _ \<Rightarrow> InvalidRouteIdError i)"
    by (simp add: invalid_route_id_def split: route_id.split bool.split)
  with route_id_refused [OF False] False show ?thesis by (simp only: if_False Let_def simp_thms)
qed

text \<open>
  The outcome of a routes request is decided by the transport and the status: a request that did
  not complete fails as retryable, a 2xx returns its data, and any other status fails, retryable
  exactly when it is not a 4xx, and as \<open>RouteNotFoundError\<close> exactly for a 404.
\<close>

lemma routes_request_retryable:
  "case awaited http req of
     Rejects _ \<Rightarrow> (\<exists>e. snd (routes_request http req) = Inl e \<and> routes_retryable e)
   | Answers st data err \<Rightarrow>
       if 200 \<le> st \<and> st < 300 then snd (routes_request http req) = Inr data
       else (\<exists>e. snd (routes_request http req) = Inl e \<and>
         (routes_retryable e \<longleftrightarrow> \<not> (400 \<le> st \<and> st < 500)) \<and> (e = RouteNotFoundError \<longleftrightarrow> st = 404))"
proof (cases "awaited http req")
  case (Rejects msg)
  then show ?thesis by (simp add: routes_request_def)
next
  case (Answers st data err)
  have "routes_judge st err = Some RouteNotFoundError \<longleftrightarrow> st = 404"
    by (auto simp: routes_judge_def rejected_def)
  with Answers show ?thesis
    using routes_errors.judge_None [of st err] routes_errors.judge_retryable [of st err]
    by (cases "routes_judge st err") (auto simp: routes_request_def)
qed

end
