(* ===== verification/Clients.thy ===== *)
theory Clients
  imports Admin Routes Claim_Check Js_Types
begin

text \<open>
  The client objects: \<open>createAdminClient\<close>, \<open>createRoutesClient\<close> and \<open>createClaimCheckClient\<close>, their options,
  and the operations the generated schemas declare (\<open>admin-schema.d.ts\<close>, \<open>claim-check-schema.d.ts\<close>). The
  library's \<open>createClient\<close> is an argument: it turns a configuration into the function that performs
  requests. The lemmas show that whatever a client is asked, it makes at most one request, that this
  request is an operation of the schema and carries the configured deadline, that a redirect is
  reported as a retryable failure and never followed, and which failures are outside the clients'
  classes of errors.
\<close>

section \<open>Options and the library's client\<close>

text \<open>The options of the three clients, which are alike; \<open>None\<close> is an absent option.\<close>

record ('h, 'f) client_options =
  opt_baseUrl :: js_string
  opt_headers :: "'h option"
  opt_timeoutMs :: "js_number option"
  opt_fetch :: "'f option"

type_synonym ('h, 'f) AdminClientOptions = "('h, 'f) client_options"
type_synonym ('h, 'f) RoutesClientOptions = "('h, 'f) client_options"
type_synonym ('h, 'f) ClaimCheckClientOptions = "('h, 'f) client_options"

text \<open>What a client passes to \<open>createClient\<close>.\<close>

record ('h, 'f) http_config =
  cfg_baseUrl :: js_string
  cfg_headers :: "'h option"
  cfg_fetch :: "'f option"
  cfg_redirect :: js_string

text \<open>The library's client: requests whose answer is read as JSON or text, and as bytes.\<close>

record http_client =
  as_json :: "json http"
  as_bytes :: "byte list http"

definition http_config :: "('h, 'f) client_options \<Rightarrow> ('h, 'f) http_config" where
  "http_config options =
     \<lparr>cfg_baseUrl = opt_baseUrl options, cfg_headers = opt_headers options, cfg_fetch = opt_fetch options,
      cfg_redirect = js ''manual''\<rparr>"

section \<open>The admin client\<close>

record AdminClient =
  ac_health :: "(AdminError, json) call"
  ac_metrics :: "(AdminError, json option) call"
  ac_config :: "(AdminError, json option) call"
  ac_listDeadLetters :: "json_object option \<Rightarrow> (AdminError, json option) call"
  ac_createReplay :: "json \<Rightarrow> (AdminError, json option) call"
  ac_getReplay :: "js_string \<Rightarrow> (AdminError, json option) call"
  ac_listReplays :: "(AdminError, json option) call"
  ac_updateReplay :: "js_string \<Rightarrow> json \<Rightarrow> (AdminError, json option) call"
  ac_listQuarantined :: "json_object option \<Rightarrow> (AdminError, json option) call"
  ac_listAudit :: "json_object option \<Rightarrow> (AdminError, json option) call"

definition createAdminClient ::
  "(('h, 'f) http_config \<Rightarrow> http_client) \<Rightarrow> ('h, 'f) AdminClientOptions \<Rightarrow> AdminClient" where
  "createAdminClient createClient options =
     (let timeoutMs = opt_timeoutMs options; http = as_json (createClient (http_config options))
      in \<lparr>ac_health = admin_health http timeoutMs, ac_metrics = metrics http timeoutMs,
          ac_config = config http timeoutMs, ac_listDeadLetters = listDeadLetters http timeoutMs,
          ac_createReplay = createReplay http timeoutMs, ac_getReplay = getReplay http timeoutMs,
          ac_listReplays = listReplays http timeoutMs, ac_updateReplay = updateReplay http timeoutMs,
          ac_listQuarantined = listQuarantined http timeoutMs, ac_listAudit = listAudit http timeoutMs\<rparr>)"

section \<open>The routes client\<close>

record RoutesClient =
  rc_health :: "(RoutesError, json) call"
  rc_listRoutes :: "json_object option \<Rightarrow> (RoutesError, json option) call"
  rc_createRoute :: "json \<Rightarrow> (RoutesError, json option) call"
  rc_getRoute :: "route_id \<Rightarrow> (RoutesError, json option) call"
  rc_replaceRoute :: "route_id \<Rightarrow> json \<Rightarrow> (RoutesError, json option) call"
  rc_updateRoute :: "route_id \<Rightarrow> json \<Rightarrow> (RoutesError, json option) call"
  rc_deleteRoute :: "route_id \<Rightarrow> (RoutesError, unit) call"
  rc_getIpRules :: "(RoutesError, json option) call"
  rc_putIpRules :: "json \<Rightarrow> (RoutesError, json option) call"
  rc_testRoute :: "json \<Rightarrow> (RoutesError, json option) call"

definition createRoutesClient ::
  "(('h, 'f) http_config \<Rightarrow> http_client) \<Rightarrow> ('h, 'f) RoutesClientOptions \<Rightarrow> RoutesClient" where
  "createRoutesClient createClient options =
     (let timeoutMs = opt_timeoutMs options; http = as_json (createClient (http_config options))
      in \<lparr>rc_health = routes_health http timeoutMs, rc_listRoutes = listRoutes http timeoutMs,
          rc_createRoute = createRoute http timeoutMs, rc_getRoute = getRoute http timeoutMs,
          rc_replaceRoute = replaceRoute http timeoutMs, rc_updateRoute = updateRoute http timeoutMs,
          rc_deleteRoute = deleteRoute http timeoutMs, rc_getIpRules = getIpRules http timeoutMs,
          rc_putIpRules = putIpRules http timeoutMs, rc_testRoute = testRoute http timeoutMs\<rparr>)"

section \<open>The claim-check client\<close>

record ClaimCheckClient =
  cc_redeem :: "js_string \<Rightarrow> json \<Rightarrow> (ClaimCheckError, byte list) call"
  cc_health :: "(ClaimCheckError, json) call"

definition createClaimCheckClient ::
  "(('h, 'f) http_config \<Rightarrow> http_client) \<Rightarrow> ('h, 'f) ClaimCheckClientOptions \<Rightarrow> ClaimCheckClient" where
  "createClaimCheckClient createClient options =
     (let timeoutMs = opt_timeoutMs options; http = createClient (http_config options)
      in \<lparr>cc_redeem = redeem (as_bytes http) timeoutMs, cc_health = claim_health (as_json http) timeoutMs\<rparr>)"

section \<open>Error bodies\<close>

text \<open>The types the clients cast an error body to, without checking it.\<close>

definition ErrorBody :: ts_type where
  "ErrorBody = TObject [Field ''error'' False TString, Field ''role'' False TString, Field ''scope'' False TString]"

definition RejectedBody :: ts_type where
  "RejectedBody = TObject
     [Field ''error'' False TString, Field ''field'' False TString, Field ''message'' False TString,
      Field ''conflicting_id'' False TString, Field ''max_routes'' False TNumber, Field ''scope'' False TString]"

text \<open>A property read off an error body of the declared type is absent or of its type.\<close>

definition absent_or :: "ts_type \<Rightarrow> json option \<Rightarrow> bool" where
  "absent_or t v = (case v of None \<Rightarrow> True | Some w \<Rightarrow> has_type t w)"

lemma absent_or_field:
  assumes "has_type (TObject fs) b" "Field k required t \<in> set fs"
  shows "absent_or t (json_field b k)"
  using typed_field [OF assms] by (cases "json_field b k") (simp_all add: absent_or_def)

text \<open>So the error a route rejection raises holds strings, and a number for the route limit, when the
  server keeps its promise; the scope is \<open>null\<close> when it sent none.\<close>

lemma rejection_text:
  assumes "has_type RejectedBody b"
  shows "\<not> rejection_throws b"
  using absent_or_field [OF assms [unfolded RejectedBody_def], of "''message''" False TString]
    absent_or_field [OF assms [unfolded RejectedBody_def], of "''error''" False TString]
  by (cases "json_field b ''message''"; cases "json_field b ''error''")
    (auto simp: rejection_throws_def template_throws_def absent_or_def has_TString_iff nullish_def)

lemma rejected_typed:
  assumes "has_type RejectedBody b"
  shows "\<exists>r. rejected st b = RoutesRejectedError r \<and> rej_status r = st \<and>
    list_all (absent_or TString) [rej_code r, rej_field r, rej_message r, conflicting_id r] \<and>
    absent_or TNumber (max_routes r) \<and> has_type (TNullable TString) (rej_scope r)"
proof -
  note f = absent_or_field [OF assms [unfolded RejectedBody_def]]
  have "has_type (TNullable TString) (case json_field b ''scope'' of None \<Rightarrow> JNull | Some v \<Rightarrow> v)"
    using f [of "''scope''" False TString] by (cases "json_field b ''scope''") (simp_all add: absent_or_def)
  with f [of "''error''" False TString] f [of "''field''" False TString] f [of "''message''" False TString]
    f [of "''conflicting_id''" False TString] f [of "''max_routes''" False TNumber]
  show ?thesis by (simp add: rejected_def rejection_text [OF assms])
qed

section \<open>The declared operations\<close>

text \<open>
  An operation of a schema: method, path template, path parameters, and whether it takes a query and
  a body. A body is required where it is taken.
\<close>

record operation =
  op_method :: http_method
  op_path :: string
  op_params :: "string list"
  op_query :: bool
  op_body :: bool

definition endpoint :: "http_method \<Rightarrow> string \<Rightarrow> string list \<Rightarrow> bool \<Rightarrow> bool \<Rightarrow> operation" where
  "endpoint meth template params q b =
     \<lparr>op_method = meth, op_path = template, op_params = params, op_query = q, op_body = b\<rparr>"

definition admin_paths :: "operation list" where
  "admin_paths =
     [endpoint GET ''/health'' [] False False, endpoint GET ''/ready'' [] False False, endpoint GET ''/metrics'' [] False False,
      endpoint GET ''/v1/config'' [] False False, endpoint GET ''/asyncapi.json'' [] False False,
      endpoint GET ''/v1/wal'' [] False False, endpoint GET ''/v1/dlq'' [] True False,
      endpoint GET ''/v1/replays'' [] False False, endpoint POST ''/v1/replays'' [] False True,
      endpoint GET ''/v1/replays/{id}'' [''id''] False False, endpoint PATCH ''/v1/replays/{id}'' [''id''] False True,
      endpoint GET ''/v1/quarantine'' [] True False, endpoint DELETE ''/v1/quarantine'' [] True False,
      endpoint GET ''/v1/audit'' [] True False, endpoint GET ''/v1/rate-limits'' [] False False,
      endpoint GET ''/v1/tenants/{tenant}/rate-limit'' [''tenant''] False False,
      endpoint PUT ''/v1/tenants/{tenant}/rate-limit'' [''tenant''] False True,
      endpoint DELETE ''/v1/tenants/{tenant}/rate-limit'' [''tenant''] False False,
      endpoint DELETE ''/v1/tenants/{tenant}'' [''tenant''] True False,
      endpoint GET ''/v1/tenants/{tenant}/erase'' [''tenant''] False False,
      endpoint POST ''/admin/routes/test'' [] False True,
      endpoint GET ''/admin/routes'' [] True False, endpoint POST ''/admin/routes'' [] False True,
      endpoint GET ''/admin/routes/{id}'' [''id''] False False, endpoint PUT ''/admin/routes/{id}'' [''id''] False True,
      endpoint DELETE ''/admin/routes/{id}'' [''id''] False False, endpoint PATCH ''/admin/routes/{id}'' [''id''] False True,
      endpoint GET ''/v1/tenants/{tenant}/routes'' [''tenant''] True False,
      endpoint POST ''/v1/tenants/{tenant}/routes'' [''tenant''] False True,
      endpoint GET ''/v1/tenants/{tenant}/routes/{id}'' [''tenant'', ''id''] False False,
      endpoint PUT ''/v1/tenants/{tenant}/routes/{id}'' [''tenant'', ''id''] False True,
      endpoint DELETE ''/v1/tenants/{tenant}/routes/{id}'' [''tenant'', ''id''] False False,
      endpoint PATCH ''/v1/tenants/{tenant}/routes/{id}'' [''tenant'', ''id''] False True,
      endpoint GET ''/admin/ip-rules'' [] False False, endpoint PUT ''/admin/ip-rules'' [] False True]"

definition claim_paths :: "operation list" where
  "claim_paths =
     [endpoint GET ''/v1/claims/{tenant_id}/{claim_id}'' [''tenant_id'', ''claim_id''] True False,
      endpoint GET ''/health'' [] False False]"

text \<open>A request is a well-typed call of an operation.\<close>

definition conforms :: "http_request \<Rightarrow> operation \<Rightarrow> bool" where
  "conforms rq opn \<longleftrightarrow>
     rq_method rq = op_method opn \<and> rq_path rq = js (op_path opn) \<and>
     map fst (rq_params rq) = map js (op_params opn) \<and>
     (rq_query rq \<noteq> None \<longrightarrow> op_query opn) \<and> (rq_body rq \<noteq> None \<longleftrightarrow> op_body opn)"

section \<open>Calls of a client\<close>

text \<open>What was requested of a client, and what a call did, by its requests and its error.\<close>

definition outcome :: "('e, 'a) call \<Rightarrow> http_request list \<times> 'e option" where
  "outcome c = (fst c, case snd c of Inl e \<Rightarrow> Some e | Inr _ \<Rightarrow> None)"

datatype admin_op =
    AdminHealth | AdminMetrics | AdminConfig | ListReplays
  | ListDeadLetters "json_object option" | ListQuarantined "json_object option" | ListAudit "json_object option"
  | CreateReplay json | GetReplay js_string | UpdateReplay js_string json

fun admin_call :: "AdminClient \<Rightarrow> admin_op \<Rightarrow> http_request list \<times> AdminError option" where
  "admin_call c AdminHealth = outcome (ac_health c)"
| "admin_call c AdminMetrics = outcome (ac_metrics c)"
| "admin_call c AdminConfig = outcome (ac_config c)"
| "admin_call c ListReplays = outcome (ac_listReplays c)"
| "admin_call c (ListDeadLetters q) = outcome (ac_listDeadLetters c q)"
| "admin_call c (ListQuarantined q) = outcome (ac_listQuarantined c q)"
| "admin_call c (ListAudit q) = outcome (ac_listAudit c q)"
| "admin_call c (CreateReplay b) = outcome (ac_createReplay c b)"
| "admin_call c (GetReplay i) = outcome (ac_getReplay c i)"
| "admin_call c (UpdateReplay i b) = outcome (ac_updateReplay c i b)"

datatype routes_op =
    RoutesHealth | GetIpRules | ListRoutes "json_object option" | CreateRoute json | GetRoute route_id
  | ReplaceRoute route_id json | UpdateRoute route_id json | DeleteRoute route_id | PutIpRules json | TestRoute json

fun routes_call :: "RoutesClient \<Rightarrow> routes_op \<Rightarrow> http_request list \<times> RoutesError option" where
  "routes_call c RoutesHealth = outcome (rc_health c)"
| "routes_call c GetIpRules = outcome (rc_getIpRules c)"
| "routes_call c (ListRoutes q) = outcome (rc_listRoutes c q)"
| "routes_call c (CreateRoute b) = outcome (rc_createRoute c b)"
| "routes_call c (GetRoute i) = outcome (rc_getRoute c i)"
| "routes_call c (ReplaceRoute i b) = outcome (rc_replaceRoute c i b)"
| "routes_call c (UpdateRoute i b) = outcome (rc_updateRoute c i b)"
| "routes_call c (DeleteRoute i) = outcome (rc_deleteRoute c i)"
| "routes_call c (PutIpRules b) = outcome (rc_putIpRules c b)"
| "routes_call c (TestRoute b) = outcome (rc_testRoute c b)"

datatype claim_op = ClaimHealth | Redeem js_string json

fun claim_call :: "ClaimCheckClient \<Rightarrow> claim_op \<Rightarrow> http_request list \<times> ClaimCheckError option" where
  "claim_call c ClaimHealth = outcome (cc_health c)"
| "claim_call c (Redeem ref sha) = outcome (cc_redeem c ref sha)"

section \<open>The contract of a client\<close>

text \<open>Every request is an operation of the schema and carries the deadline.\<close>

definition typed_requests :: "operation list \<Rightarrow> js_number \<Rightarrow> http_request list \<Rightarrow> bool" where
  "typed_requests schema t rqs = list_all (\<lambda>rq. list_ex (conforms rq) schema \<and> rq_timeoutMs rq = t) rqs"

text \<open>The requests of a sequence of calls.\<close>

definition session :: "('op \<Rightarrow> http_request list \<times> 'e option) \<Rightarrow> 'op list \<Rightarrow> http_request list" where
  "session call xs = concat (map (\<lambda>x. fst (call x)) xs)"

text \<open>Every answer of the server is a redirect.\<close>

definition redirects :: "'d fetch_outcome \<Rightarrow> bool" where
  "redirects a = (case a of Answers st _ _ \<Rightarrow> 300 \<le> st \<and> st < 400 | Rejects _ \<Rightarrow> False)"

definition redirecting :: "http_client \<Rightarrow> bool" where
  "redirecting s \<longleftrightarrow> (\<forall>rq. redirects (as_json s rq) \<and> redirects (as_bytes s rq))"

locale schema_client =
  fixes invoke :: "(('h, 'f) http_config \<Rightarrow> http_client) \<Rightarrow> ('h, 'f) client_options \<Rightarrow> 'op \<Rightarrow>
      http_request list \<times> 'e option"
    and schema :: "operation list"
    and retry :: "'e \<Rightarrow> bool"
  assumes call_once: "length (fst (invoke cc options x)) \<le> 1"
    and call_typed: "typed_requests schema (timeout_of (opt_timeoutMs options)) (fst (invoke cc options x))"
    and call_redirect: "redirecting (cc (http_config options)) \<Longrightarrow> fst (invoke cc options x) \<noteq> [] \<Longrightarrow>
      \<exists>e. snd (invoke cc options x) = Some e \<and> retry e"
begin

text \<open>A sequence of calls makes at most one request each, every one of them of the schema.\<close>

lemma session_typed:
  "typed_requests schema (timeout_of (opt_timeoutMs options)) (session (invoke cc options) xs)"
  using call_typed by (induction xs) (simp_all add: session_def typed_requests_def)

lemma session_length: "length (session (invoke cc options) xs) \<le> length xs"
proof (induction xs)
  case (Cons x xs)
  with call_once [of cc options x] show ?case by (simp add: session_def)
qed (simp add: session_def)

lemma manual_redirect:
  assumes "\<forall>cfg. cfg_redirect cfg = js ''manual'' \<longrightarrow> cc cfg = server" "redirecting server"
    and "fst (invoke cc options x) \<noteq> []"
  shows "\<exists>e. snd (invoke cc options x) = Some e \<and> retry e"
proof -
  have "cc (http_config options) = server" using assms(1) by (simp add: http_config_def)
  with assms(2,3) show ?thesis by (intro call_redirect) simp_all
qed

end

section \<open>The clients satisfy it\<close>

lemma outcome_simps [simp]:
  "fst (outcome c) = fst c" "outcome (rqs, Inl e) = (rqs, Some e)" "outcome (rqs, Inr v) = (rqs, None)"
  by (simp_all add: outcome_def)

lemma redirects_cases:
  assumes "redirects a"
  obtains st data err where "a = Answers st data err" "300 \<le> st" "st < 400"
  using assms by (cases a) (auto simp: redirects_def)

text \<open>A result that is a failure worth a retry.\<close>

definition fails :: "('e \<Rightarrow> bool) \<Rightarrow> ('e, 'a) result \<Rightarrow> bool" where
  "fails retry r = (case r of Inl e \<Rightarrow> retry e | Inr _ \<Rightarrow> False)"

lemma outcome_fails: "(\<exists>e. snd (outcome c) = Some e \<and> retry e) \<longleftrightarrow> fails retry (snd c)"
  by (simp add: outcome_def fails_def split: sum.split)

lemma fails_bind: "fails retry r \<Longrightarrow> fails retry (result_bind r k)"
  by (simp add: fails_def split: sum.splits)

text \<open>The request of every operation of the admin client.\<close>

lemma fst_admin_request [simp]: "fst (admin_request http rq) = sent rq"
  by (simp add: admin_request_def)

lemma admin_request_redirect:
  assumes "redirects (http rq)" "delay_ok (rq_timeoutMs rq)"
  shows "fails admin_retryable (snd (admin_request http rq))"
proof -
  obtain st data err where a: "http rq = Answers st data err" "300 \<le> st" "st < 400"
    using assms(1) by (rule redirects_cases)
  then obtain e where "admin_judge st err = Some e" "admin_retryable e"
    using admin_errors.redirect_retryable by blast
  with a assms(2) show ?thesis by (simp add: admin_request_def fails_def)
qed

lemma admin_health_redirect:
  assumes "redirects (http (http_get ''/health'' (timeout_of t)))"
  shows "fails admin_retryable (snd (admin_health http t))"
  using assms by (auto elim!: redirects_cases simp: admin_health_def awaited_def Let_def fails_def)

lemmas admin_calls = createAdminClient_def metrics_def config_def listDeadLetters_def createReplay_def
  getReplay_def listReplays_def updateReplay_def listQuarantined_def listAudit_def

lemma request_timeout [simp]: "rq_timeoutMs (http_get p t) = t"
  by (simp add: http_get_def)

lemmas endpoint_simps = sent_def admin_paths_def claim_paths_def endpoint_def typed_requests_def conforms_def http_get_def

interpretation admin_client: schema_client
  "\<lambda>cc options. admin_call (createAdminClient cc options)" admin_paths admin_retryable
proof
  show "length (fst (admin_call (createAdminClient cc options) x)) \<le> 1" for options :: "('h, 'f) client_options" and cc x
    by (cases x) (simp_all add: admin_calls admin_health_def Let_def length_sent)
next
  show "typed_requests admin_paths (timeout_of (opt_timeoutMs options)) (fst (admin_call (createAdminClient cc options) x))"
    for options :: "('h, 'f) client_options" and cc x
    by (cases x) (simp_all add: admin_calls admin_health_def Let_def endpoint_simps)
next
  fix cc :: "('h, 'f) http_config \<Rightarrow> http_client" and options x
  assume "redirecting (cc (http_config options))" and made: "fst (admin_call (createAdminClient cc options) x) \<noteq> []"
  then have red: "redirects (as_json (cc (http_config options)) rq)" for rq by (simp add: redirecting_def)
  from made show "\<exists>e. snd (admin_call (createAdminClient cc options) x) = Some e \<and> admin_retryable e"
    by (cases x) (simp_all add: outcome_fails admin_calls Let_def red admin_request_redirect admin_health_redirect
        sent_not_Nil_iff)
qed

text \<open>The routes client: an operation with a refused id makes no request.\<close>

lemma fst_routes_request [simp]: "fst (routes_request http rq) = sent rq"
  by (simp add: routes_request_def)

lemma routes_request_redirect:
  assumes "redirects (http rq)" "delay_ok (rq_timeoutMs rq)"
  shows "fails routes_retryable (snd (routes_request http rq))"
proof -
  obtain st data err where a: "http rq = Answers st data err" "300 \<le> st" "st < 400"
    using assms(1) by (rule redirects_cases)
  then obtain e where "routes_judge st err = Some e" "routes_retryable e"
    using routes_errors.redirect_retryable by blast
  with a assms(2) show ?thesis by (simp add: routes_request_def fails_def)
qed

lemma routes_health_redirect:
  assumes "redirects (http (http_get ''/health'' (timeout_of t)))"
  shows "fails routes_retryable (snd (routes_health http t))"
  using assms by (auto elim!: redirects_cases simp: routes_health_def awaited_def Let_def fails_def)

lemma with_route_id_typed:
  assumes "\<And>s. typed_requests schema t (fst (k s))"
  shows "typed_requests schema t (fst (with_route_id i k))"
  using assms by (simp add: with_route_id_def typed_requests_def split: sum.split)

lemma with_route_id_once:
  assumes "\<And>s. length (fst (k s)) \<le> 1"
  shows "length (fst (with_route_id i k)) \<le> Suc 0"
  using assms by (simp add: with_route_id_def split: sum.split)

lemma with_route_id_redirect:
  assumes "fst (with_route_id i k) \<noteq> []" "\<And>s. fst (k s) \<noteq> [] \<Longrightarrow> fails routes_retryable (snd (k s))"
  shows "fails routes_retryable (snd (with_route_id i k))"
  using assms by (simp add: with_route_id_def split: sum.splits)

lemmas routes_calls = createRoutesClient_def listRoutes_def createRoute_def getRoute_def replaceRoute_def
  updateRoute_def deleteRoute_def getIpRules_def putIpRules_def testRoute_def

interpretation routes_client: schema_client
  "\<lambda>cc options. routes_call (createRoutesClient cc options)" admin_paths routes_retryable
proof
  show "length (fst (routes_call (createRoutesClient cc options) x)) \<le> 1" for options :: "('h, 'f) client_options" and cc x
    by (cases x) (simp_all add: routes_calls routes_health_def Let_def split_beta with_route_id_once length_sent)
next
  show "typed_requests admin_paths (timeout_of (opt_timeoutMs options)) (fst (routes_call (createRoutesClient cc options) x))"
    for options :: "('h, 'f) client_options" and cc x
    by (cases x; simp add: routes_calls routes_health_def Let_def split_beta)
      ((rule with_route_id_typed)?, simp add: endpoint_simps)+
next
  fix cc :: "('h, 'f) http_config \<Rightarrow> http_client" and options x
  assume "redirecting (cc (http_config options))" and made: "fst (routes_call (createRoutesClient cc options) x) \<noteq> []"
  then have red: "redirects (as_json (cc (http_config options)) rq)" for rq by (simp add: redirecting_def)
  have req: "fails routes_retryable (snd (routes_request (as_json (cc (http_config options))) rq))"
    if "delay_ok (rq_timeoutMs rq)" for rq
    using red that by (rule routes_request_redirect)
  from made show "\<exists>e. snd (routes_call (createRoutesClient cc options) x) = Some e \<and> routes_retryable e"
    by (cases x; simp add: outcome_fails routes_calls Let_def req routes_health_redirect red split_beta sent_not_Nil_iff)
      (erule with_route_id_redirect, simp add: req fails_bind sent_not_Nil_iff)+
qed

text \<open>The claim-check client: a malformed reference or digest makes no request.\<close>

lemma redeem_once: "length (fst (redeem http t ref sha)) \<le> Suc 0"
  by (simp add: redeem_def fetchBytes_def Let_def length_sent split: sum.split InvalidClaimRefError.split option.split)

lemma redeem_typed: "typed_requests claim_paths (timeout_of t) (fst (redeem http t ref sha))"
  by (auto simp: redeem_def fetchBytes_def claim_request_def Let_def endpoint_simps
      split: sum.split InvalidClaimRefError.split option.split)

lemma redeem_redirect:
  assumes "\<And>rq. redirects (http rq)" "fst (redeem http t ref sha) \<noteq> []"
  shows "fails claim_retryable (snd (redeem http t ref sha))"
proof -
  have "fails claim_retryable (snd (fetchBytes http u parsed))" if "fst (fetchBytes http u parsed) \<noteq> []" for u parsed
  proof -
    have u: "delay_ok u" using that by (simp add: fetchBytes_def Let_def sent_not_Nil_iff)
    obtain st data err where a: "http (claim_request u parsed) = Answers st data err" "300 \<le> st" "st < 400"
      using assms(1) by (rule redirects_cases)
    then obtain e where "claim_judge st err = Some e" "claim_retryable e"
      using claim_errors.redirect_retryable by blast
    with a u show ?thesis by (simp add: fetchBytes_def Let_def fails_def)
  qed
  with assms(2) show ?thesis
    by (simp add: redeem_def split_beta fails_bind split: sum.splits InvalidClaimRefError.splits option.splits)
qed

lemma claim_health_redirect:
  assumes "redirects (http (http_get ''/health'' (timeout_of t)))"
  shows "fails claim_retryable (snd (claim_health http t))"
  using assms by (auto elim!: redirects_cases simp: claim_health_def awaited_def Let_def fails_def)

interpretation claim_client: schema_client
  "\<lambda>cc options. claim_call (createClaimCheckClient cc options)" claim_paths claim_retryable
proof
  show "length (fst (claim_call (createClaimCheckClient cc options) x)) \<le> 1" for options :: "('h, 'f) client_options" and cc x
    by (cases x) (simp_all add: createClaimCheckClient_def claim_health_def redeem_once Let_def length_sent)
next
  show "typed_requests claim_paths (timeout_of (opt_timeoutMs options)) (fst (claim_call (createClaimCheckClient cc options) x))"
    for options :: "('h, 'f) client_options" and cc x
    by (cases x) (simp_all add: createClaimCheckClient_def claim_health_def redeem_typed Let_def, simp add: endpoint_simps)
next
  fix cc :: "('h, 'f) http_config \<Rightarrow> http_client" and options x
  assume "redirecting (cc (http_config options))" and made: "fst (claim_call (createClaimCheckClient cc options) x) \<noteq> []"
  then have "redirects (as_json (cc (http_config options)) rq)" "redirects (as_bytes (cc (http_config options)) rq)" for rq
    by (simp_all add: redirecting_def)
  with made show "\<exists>e. snd (claim_call (createClaimCheckClient cc options) x) = Some e \<and> claim_retryable e"
    by (cases x) (simp_all add: outcome_fails createClaimCheckClient_def Let_def redeem_redirect claim_health_redirect)
qed

section \<open>Failures beside the classes of errors\<close>

text \<open>
  A deadline that is none is reported as an unavailable gateway, a failure that is safe to retry, although
  no request was made and no retry can succeed.
\<close>

lemma bad_deadline_unavailable:
  assumes "\<not> delay_ok (timeout_of t)"
  shows "config http t = ([], Inl (AdminUnavailableError (Some (DelayOutOfRange (timeout_of t)))))"
    "getIpRules http t = ([], Inl (RoutesUnavailableError (Some (DelayOutOfRange (timeout_of t)))))"
    "claim_health http t = ([], Inl (ClaimCheckUnavailableError (Some (DelayOutOfRange (timeout_of t)))))"
  using assms
  by (simp_all add: config_def admin_request_def getIpRules_def routes_request_def claim_health_def sent_def awaited_def Let_def)

text \<open>
  A value without a text where an error prints one makes the client throw a \<open>TypeError\<close> instead: a role or
  a message of an error body that is an object with an own \<open>toString\<close>, such a digest, a bigint for an id.
\<close>

definition textless :: json where
  "textless = JObj [(js ''toString'', JNull)]"

lemma errors_without_text:
  "admin_judge 409 (Some (JObj [(js ''error'', JStr (js ''role_not_enabled'')), (js ''role'', textless)])) = Some AdminTypeError"
  "routes_judge 422 (Some (JObj [(js ''message'', textless)])) = Some RoutesTypeError"
  "redeem http2 t (claim_urn example_ref) textless = ([], Inl RedeemTypeError)"
  "getRoute http t (BigInt 7) = ([], Inl RoutesTypeError)"
  by (simp_all add: admin_judge_def routes_judge_def rejected_def rejection_throws_def redeem_def example_ref_parses
      error_body_def template_throws_def textless_def nullish_def getRoute_def with_route_id_def invalid_route_id_def js_eval)

section \<open>Properties\<close>

text \<open>
  C19. The clients only make well-typed requests: over any sequence of calls of the admin, the routes
  and the claim-check client, with any arguments and whatever is answered, every request is an
  operation the generated schema declares (its method, path template, exactly its path parameters, a
  query only where it takes one, a body exactly where it requires one), carries the configured
  deadline (10 seconds by default), and there are no more requests than calls.
\<close>

theorem client_requests_typed:
  fixes createClient :: "('h, 'f) http_config \<Rightarrow> http_client" and options :: "('h, 'f) client_options"
  shows "(let rqs = session (admin_call (createAdminClient createClient options)) xs
     in typed_requests admin_paths (timeout_of (opt_timeoutMs options)) rqs \<and> length rqs \<le> length xs) \<and>
    (let rqs = session (routes_call (createRoutesClient createClient options)) ys
     in typed_requests admin_paths (timeout_of (opt_timeoutMs options)) rqs \<and> length rqs \<le> length ys) \<and>
    (let rqs = session (claim_call (createClaimCheckClient createClient options)) zs
     in typed_requests claim_paths (timeout_of (opt_timeoutMs options)) rqs \<and> length rqs \<le> length zs)"
  by (simp only: Let_def admin_client.session_typed admin_client.session_length routes_client.session_typed
      routes_client.session_length claim_client.session_typed claim_client.session_length simp_thms)

text \<open>
  C38. A redirect is a failure to retry, never a hop. The library performs a request as the server
  answers it when the configuration says \<open>redirect: "manual"\<close> (its documented behaviour; with any other
  value it may do anything). Then, against a server that redirects everything, every call of the
  three clients that makes a request fails with a retryable error.
\<close>

theorem client_redirect_fails:
  fixes cc :: "('h, 'f) http_config \<Rightarrow> http_client" and options :: "('h, 'f) client_options"
  assumes "\<forall>cfg. cfg_redirect cfg = js ''manual'' \<longrightarrow> cc cfg = server" "redirecting server"
  shows "(fst (admin_call (createAdminClient cc options) a) \<noteq> [] \<longrightarrow>
       (\<exists>e. snd (admin_call (createAdminClient cc options) a) = Some e \<and> admin_retryable e)) \<and>
    (fst (routes_call (createRoutesClient cc options) r) \<noteq> [] \<longrightarrow>
       (\<exists>e. snd (routes_call (createRoutesClient cc options) r) = Some e \<and> routes_retryable e)) \<and>
    (fst (claim_call (createClaimCheckClient cc options) c) \<noteq> [] \<longrightarrow>
       (\<exists>e. snd (claim_call (createClaimCheckClient cc options) c) = Some e \<and> claim_retryable e))"
  using admin_client.manual_redirect [OF assms] routes_client.manual_redirect [OF assms]
    claim_client.manual_redirect [OF assms] by blast

text \<open>A server that redirects everything, and a library that follows unless told not to.\<close>

definition moved :: http_client where
  "moved = \<lparr>as_json = \<lambda>_. Answers 302 None None, as_bytes = \<lambda>_. Answers 302 None None\<rparr>"

definition following :: "(unit, unit) http_config \<Rightarrow> http_client" where
  "following cfg = (if cfg_redirect cfg = js ''manual'' then moved
     else \<lparr>as_json = \<lambda>_. Answers 200 (Some JNull) None, as_bytes = \<lambda>_. Answers 200 (Some []) None\<rparr>)"

definition plain_options :: "(unit, unit) client_options" where
  "plain_options = \<lparr>opt_baseUrl = js ''http://localhost:4002'', opt_headers = None, opt_timeoutMs = None, opt_fetch = None\<rparr>"

theorem client_redirect_fails_witness:
  "\<exists>e. snd (admin_call (createAdminClient following plain_options) AdminConfig) = Some e \<and> admin_retryable e"
  using client_redirect_fails [where cc = following and server = moved and options = plain_options and a = AdminConfig]
  by (simp add: following_def moved_def redirecting_def redirects_def createAdminClient_def config_def Let_def plain_options_def)

end
