(* ===== verification/Schemas.thy ===== *)
theory Schemas
  imports Clients
begin

text \<open>
  The generated schemas, \<open>admin-schema.d.ts\<close> and \<open>claim-check-schema.d.ts\<close>, as types: the component
  schemas, and for each operation its query, its body and its responses. The clients cast what
  they receive to these types and what they send from their own, and the compiler checks neither.
  The lemmas show which of the casts are justified: against a server that answers as the schema
  declares, every method returns a value of its declared type or throws an error whose fields have
  theirs, and for arguments of the declared types every request is of the operation's types,
  except for a route without the fields the client makes optional.
\<close>

abbreviation fld :: "string \<Rightarrow> ts_type \<Rightarrow> ts_field" where
  "fld k t \<equiv> Field k True t"

abbreviation opt :: "string \<Rightarrow> ts_type \<Rightarrow> ts_field" where
  "opt k t \<equiv> Field k False t"

section \<open>Components of the admin schema\<close>

definition Health :: ts_type where
  "Health = TObject [fld ''status'' (TEnum [''ok'']), fld ''instance'' TString,
     fld ''roles'' (TArray (TEnum [''claim_check'', ''dispatch'', ''edge'', ''storage'']))]"

definition CheckState :: ts_type where
  "CheckState = TEnum [''ok'', ''failing'', ''draining'']"

definition Readiness :: ts_type where
  "Readiness = TObject
     [fld ''status'' (TEnum [''ready'', ''unavailable'', ''draining'']), fld ''instance'' TString,
      opt ''store'' CheckState, opt ''intake'' CheckState, opt ''sinks'' CheckState, opt ''disk'' CheckState,
      opt ''backlog'' CheckState, opt ''backup'' CheckState, opt ''drain'' CheckState,
      opt ''reasons'' (TObject
        [opt ''store'' (TEnum [''no_space'', ''io_error'', ''read_only'', ''corruption'', ''busy'', ''timeout'',
           ''not_running'', ''other'', ''error'']),
         opt ''intake'' (TEnum [''down'', ''recovering'', ''error'']),
         opt ''sinks'' (TEnum [''publish_failed'', ''error'']),
         opt ''disk'' (TEnum [''below_floor'', ''unmeasured'', ''error'']),
         opt ''backlog'' (TEnum [''over_threshold'', ''unavailable'', ''error'']),
         opt ''backup'' (TEnum [''stale'', ''error'']),
         opt ''drain'' (TEnum [''shutting_down''])])]"

definition Wal :: ts_type where
  "Wal = TObject [fld ''instance'' TString, fld ''wal'' (TRecord TNever)]"

definition DlqEntry :: ts_type where
  "DlqEntry = TObject
     [fld ''id'' TString, fld ''source_id'' TString, fld ''tenant_id'' (TNullable TString),
      fld ''seq'' (TNullable TNumber), fld ''received_at'' TNumber, fld ''dead_lettered_at'' TNumber,
      fld ''size'' TNumber, fld ''content_type'' (TNullable TString), fld ''reason'' TString,
      fld ''sink'' (TNullable TNumber),
      fld ''error_class'' (TNullable (TEnum [''permanent'', ''throttled'', ''transient'']))]"

definition DlqPage :: ts_type where
  "DlqPage = TObject [fld ''total'' (TNullable TNumber), fld ''entries'' (TArray DlqEntry),
     fld ''next_cursor'' (TNullable TString)]"

definition QuarantineEntry :: ts_type where
  "QuarantineEntry = TObject
     [fld ''id'' TString, fld ''source_id'' TString, opt ''tenant_id'' (TNullable TString),
      fld ''received_at'' TNumber, fld ''reason'' TString, opt ''size'' (TNullable TNumber)]"

definition QuarantinePage :: ts_type where
  "QuarantinePage = TObject [fld ''entries'' (TArray QuarantineEntry)]"

definition QuarantinePurge :: ts_type where
  "QuarantinePurge = TObject [fld ''deleted'' TNumber, fld ''bytes'' TNumber]"

definition AuditEntry :: ts_type where
  "AuditEntry = TObject
     [fld ''seq'' TNumber, fld ''at'' TString, fld ''actor'' TString, fld ''remote_ip'' (TNullable TString),
      fld ''action'' TString, fld ''tenant'' (TNullable TString), fld ''resource'' (TNullable TString),
      fld ''before_hash'' (TNullable TString), fld ''after_hash'' (TNullable TString),
      fld ''request_id'' (TNullable TString), fld ''result'' (TEnum [''ok'', ''failed'', ''interrupted'']),
      fld ''revision'' (TNullable TNumber), fld ''detail'' (TNullable (TRecord TUnknown))]"

definition AuditPage :: ts_type where
  "AuditPage = TObject [fld ''entries'' (TArray AuditEntry), fld ''next_cursor'' (TNullable TString)]"

definition ReplaySpec :: ts_type where
  "ReplaySpec = TObject
     [fld ''kind'' (TEnum [''dlq'', ''archive'', ''quarantine'']), opt ''source_id'' TString, opt ''id'' TString,
      opt ''since'' TNumber, opt ''until'' TNumber, opt ''from'' TNumber, opt ''to'' TNumber,
      opt ''sinks'' (TArray TNumber), fld ''rate'' TNumber, fld ''max_lag_ms'' TNumber, opt ''tenant'' TString,
      opt ''sink'' TNumber, opt ''error_class'' (TEnum [''permanent'', ''throttled'', ''transient'']),
      opt ''job_id'' TString]"

definition ReplayPatch :: ts_type where
  "ReplayPatch = TObject
     [opt ''state'' (TEnum [''running'', ''paused'', ''cancelled'']), opt ''rate'' TNumber, opt ''max_lag_ms'' TNumber]"

definition Replay :: ts_type where
  "Replay = TObject
     [fld ''id'' TString, fld ''kind'' (TEnum [''dlq'', ''archive'', ''quarantine'']),
      fld ''state'' (TEnum [''running'', ''paused'', ''done'', ''cancelled'', ''failed'']),
      fld ''filter'' (TRecord TNever), fld ''rate'' TNumber, fld ''max_lag_ms'' TNumber, fld ''created_at'' TNumber,
      fld ''updated_at'' TNumber, fld ''finished_at'' (TNullable TNumber), fld ''moved'' TNumber,
      fld ''scanned'' TNumber, fld ''skipped'' TNumber, fld ''delivered'' TNumber, fld ''dead'' TNumber,
      fld ''error'' (TNullable TString)]"

definition ReplayList :: ts_type where
  "ReplayList = TObject [fld ''replays'' (TArray Replay)]"

definition RateLimit :: ts_type where
  "RateLimit = TObject
     [fld ''rate'' TNumber, fld ''burst'' TNumber, opt ''bytes_per_second'' TNumber, opt ''burst_bytes'' TNumber,
      opt ''max_body_bytes'' TNumber, opt ''max_queue'' TNumber, opt ''max_queue_bytes'' TNumber]"

definition TenantErase :: ts_type where
  "TenantErase = TObject
     [fld ''tenant'' TString, fld ''state'' (TEnum [''erasing'', ''erased'']),
      opt ''stage'' (TEnum [''sources'', ''routes'', ''rate_limit'', ''queue'', ''archive'', ''quarantine'', ''claims'',
        ''dedupe'', ''entities'', ''commit'']),
      opt ''started_at'' TString, opt ''erased_at'' TString]"

definition TenantRateLimit :: ts_type where
  "TenantRateLimit = TObject
     [fld ''tenant'' TString, fld ''rate'' (TNullable TNumber), fld ''burst'' (TNullable TNumber),
      opt ''bytes_per_second'' TNumber, opt ''burst_bytes'' TNumber, opt ''max_body_bytes'' TNumber,
      opt ''max_queue'' TNumber, opt ''max_queue_bytes'' TNumber,
      fld ''source'' (TEnum [''override'', ''config'', ''default'', ''none''])]"

definition RateLimits :: ts_type where
  "RateLimits = TObject [fld ''default'' (TNullable RateLimit), fld ''tenants'' (TArray TenantRateLimit)]"

definition schema_RoutesHealth :: ts_type where
  "schema_RoutesHealth = TObject [fld ''status'' (TEnum [''ok'']), fld ''routes'' TNumber]"

definition IpRule :: ts_type where
  "IpRule = TObject [fld ''action'' (TEnum [''allow'', ''deny'']), fld ''cidr'' TString]"

definition IpRules :: ts_type where
  "IpRules = TObject [fld ''default'' (TEnum [''allow'', ''deny'']), fld ''rules'' (TArray IpRule)]"

definition Route :: ts_type where
  "Route = TObject
     [fld ''id'' TString, fld ''tenant_id'' TString, fld ''source_id'' (TNullable TString), fld ''path'' TString,
      fld ''methods'' (TArray TString), fld ''enabled'' TBoolean, fld ''ip_rules'' (TArray IpRule),
      fld ''metadata'' (TRecord TUnknown), fld ''revision'' TNumber, fld ''inserted_at'' TString,
      fld ''updated_at'' TString]"

text \<open>The fields of the schema's \<open>RouteInput\<close>, from which the client derives its own.\<close>

definition route_input_fields :: "ts_field list" where
  "route_input_fields =
     [opt ''id'' TString, fld ''tenant_id'' TString, fld ''source_id'' (TNullable TString), fld ''path'' TString,
      fld ''methods'' (TArray TString), fld ''enabled'' TBoolean, fld ''ip_rules'' (TArray IpRule),
      fld ''metadata'' (TRecord TUnknown)]"

definition RoutePatch :: ts_type where
  "RoutePatch = TObject
     [opt ''enabled'' TBoolean, opt ''methods'' (TArray TString), opt ''ip_rules'' (TArray IpRule),
      opt ''metadata'' (TRecord TUnknown)]"

definition RoutePage :: ts_type where
  "RoutePage = TObject [fld ''routes'' (TArray Route), fld ''next_cursor'' (TNullable TString)]"

definition DryRunRequest :: ts_type where
  "DryRunRequest = TObject [fld ''method'' TString, fld ''path'' TString, fld ''ip'' TString]"

definition DryRunIpRule :: ts_type where
  "DryRunIpRule = TObject
     [fld ''action'' (TEnum [''allow'', ''deny'']), fld ''cidr'' TString, fld ''scope'' (TEnum [''global'', ''route''])]"

definition DryRunResult :: ts_type where
  "DryRunResult = TObject
     [fld ''decision'' (TEnum [''allow'', ''deny'']),
      fld ''reason'' (TEnum [''matched'', ''no_route'', ''method'', ''ip_denied'']),
      fld ''route_id'' (TNullable TString), fld ''ip_rule'' (TNullable DryRunIpRule)]"

definition Error :: ts_type where
  "Error = TObject
     [fld ''error'' (TEnum [''not_found'', ''invalid_filter'', ''role_not_enabled'', ''invalid_route'', ''duplicate_route'',
        ''too_many_routes'', ''invalid_query'', ''invalid_ip_rules'', ''invalid_request'', ''invalid_body'',
        ''invalid_tenant'', ''invalid_rate_limit'', ''rate_limit_not_found'', ''store_unavailable'', ''wal_disabled'',
        ''unauthenticated'', ''forbidden'']),
      opt ''field'' TString, opt ''message'' TString, opt ''role'' TString, opt ''conflicting_id'' TString,
      opt ''max_routes'' TNumber, opt ''scope'' TString]"

section \<open>Components of the claim-check schema\<close>

definition claim_Error :: ts_type where
  "claim_Error = TObject
     [fld ''error'' (TEnum [''invalid_tenant'', ''invalid_id'', ''bad_signature'', ''unsigned_ref'', ''ref_expired'',
        ''not_found'', ''store_unavailable'', ''store_forbidden'', ''overloaded'', ''integrity_mismatch'',
        ''unauthenticated'', ''forbidden'']),
      opt ''scope'' TString]"

definition claim_Health :: ts_type where
  "claim_Health = TObject [fld ''status'' (TEnum [''ok''])]"

section \<open>Types of the clients\<close>

text \<open>The schema's \<open>RouteInput\<close>, and the client's own, which makes four of its fields optional.\<close>

definition schema_RouteInput :: ts_type where
  "schema_RouteInput = TObject route_input_fields"

definition defaulted_keys :: "string list" where
  "defaulted_keys = [''methods'', ''enabled'', ''ip_rules'', ''metadata'']"

definition RouteInput :: ts_type where
  "RouteInput = TInter (TObject (Omit defaulted_keys route_input_fields))
     (TObject (Partial (Pick defaulted_keys route_input_fields)))"

text \<open>The query parameters of the four lists.\<close>

definition ListDeadLettersParams :: ts_type where
  "ListDeadLettersParams = TObject
     [opt ''source_id'' TString, opt ''tenant'' TString, opt ''sink'' TNumber,
      opt ''error_class'' (TEnum [''permanent'', ''throttled'', ''transient'']), opt ''since'' TNumber,
      opt ''limit'' TNumber, opt ''cursor'' TString]"

definition ListQuarantinedParams :: ts_type where
  "ListQuarantinedParams = TObject [opt ''limit'' TNumber]"

definition ListAuditParams :: ts_type where
  "ListAuditParams = TObject
     [opt ''since'' TNumber, opt ''until'' TNumber, opt ''actor'' TString, opt ''action'' TString,
      opt ''tenant'' TString, opt ''cursor'' TNumber, opt ''limit'' TNumber]"

definition ListRoutesParams :: ts_type where
  "ListRoutesParams = TObject [opt ''enabled'' (TEnum [''true'', ''false'']), opt ''limit'' TNumber, opt ''cursor'' TString]"

section \<open>Signatures of the operations\<close>

text \<open>
  The types of an operation: of its query and its body, \<open>None\<close> where it takes none, and of the content of
  each response it declares, \<open>None\<close> where the response has no content.
\<close>

record signature =
  sg_query :: "ts_type option"
  sg_body :: "ts_type option"
  sg_responses :: "(int \<times> ts_type option) list"

definition sig_of :: "ts_type option \<Rightarrow> ts_type option \<Rightarrow> (int \<times> ts_type option) list \<Rightarrow> int list \<Rightarrow> signature" where
  "sig_of q b accepted refused =
     \<lparr>sg_query = q, sg_body = b, sg_responses = accepted @ map (\<lambda>st. (st, Some Error)) refused\<rparr>"

definition reads :: "ts_type \<Rightarrow> int list \<Rightarrow> signature" where
  "reads t refused = sig_of None None [(200, Some t)] refused"

text \<open>The operations of the admin schema in the order of its paths.\<close>

definition admin_signatures :: "signature list" where
  "admin_signatures =
     [reads (TUnion Health schema_RoutesHealth) [],
      sig_of None None [(200, Some Readiness), (503, Some Readiness)] [],
      reads TString [401, 403],
      reads (TRecord TUnknown) [401, 403],
      reads (TInter (TObject [fld ''asyncapi'' (TEnum [''3.0.0'']), fld ''info'' (TRecord TNever)]) (TRecord TUnknown)) [401, 403],
      reads Wal [401, 403, 409],
      sig_of (Some ListDeadLettersParams) None [(200, Some DlqPage)] [400, 401, 403, 409, 503],
      reads ReplayList [401, 403, 409, 503],
      sig_of None (Some ReplaySpec) [(200, Some Replay), (202, Some Replay)] [400, 401, 403, 409, 503],
      reads Replay [401, 403, 404, 409, 503],
      sig_of None (Some ReplayPatch) [(200, Some Replay)] [400, 401, 403, 404, 409, 503],
      sig_of (Some ListQuarantinedParams) None [(200, Some QuarantinePage)] [400, 401, 403, 409, 503],
      sig_of (Some (TObject [opt ''source_id'' TString, opt ''id'' TString, opt ''since'' TNumber, opt ''until'' TNumber,
        opt ''limit'' TNumber])) None [(200, Some QuarantinePurge)] [400, 401, 403, 409, 503],
      sig_of (Some ListAuditParams) None [(200, Some AuditPage)] [400, 401, 403, 503],
      reads RateLimits [401, 403, 409],
      reads TenantRateLimit [400, 401, 403, 409],
      sig_of None (Some RateLimit) [(200, Some TenantRateLimit)] [400, 401, 403, 409, 503],
      sig_of None None [(204, None)] [400, 401, 403, 404, 409, 503],
      sig_of (Some (TObject [fld ''confirm'' TString])) None [(200, Some TenantErase), (202, Some TenantErase)]
        [400, 401, 403, 409, 503],
      reads TenantErase [400, 401, 403, 404, 503],
      sig_of None (Some DryRunRequest) [(200, Some DryRunResult)] [400, 401, 403],
      sig_of (Some ListRoutesParams) None [(200, Some RoutePage)] [400, 401, 403],
      sig_of None (Some schema_RouteInput) [(201, Some Route)] [400, 401, 403, 409, 503],
      reads Route [401, 403, 404],
      sig_of None (Some schema_RouteInput) [(200, Some Route)] [400, 401, 403, 409, 503],
      sig_of None None [(204, None)] [401, 403, 404, 503],
      sig_of None (Some RoutePatch) [(200, Some Route)] [400, 401, 403, 404, 409, 503],
      sig_of (Some ListRoutesParams) None [(200, Some RoutePage)] [400, 401, 403],
      sig_of None (Some schema_RouteInput) [(201, Some Route)] [400, 401, 403, 409, 503],
      reads Route [400, 401, 403, 404],
      sig_of None (Some schema_RouteInput) [(200, Some Route)] [400, 401, 403, 409, 503],
      sig_of None None [(204, None)] [400, 401, 403, 404, 503],
      sig_of None (Some RoutePatch) [(200, Some Route)] [400, 401, 403, 404, 409, 503],
      reads IpRules [401, 403],
      sig_of None (Some IpRules) [(200, Some IpRules)] [400, 401, 403, 503]]"

text \<open>The operations with their signatures; a query is taken, and a body, exactly where a type is declared.\<close>

type_synonym api = "(operation \<times> signature) list"

definition admin_api :: api where
  "admin_api = zip admin_paths admin_signatures"

lemma admin_api_complete:
  "map fst admin_api = admin_paths"
  "list_all (\<lambda>(opn, sg). (op_query opn \<longleftrightarrow> sg_query sg \<noteq> None) \<and> (op_body opn \<longleftrightarrow> sg_body sg \<noteq> None)) admin_api"
  by (simp_all add: admin_api_def admin_paths_def admin_signatures_def endpoint_def reads_def sig_of_def)

section \<open>Servers that keep the schema\<close>

text \<open>A value of a declared content: of its type, or \<open>undefined\<close> where there is none.\<close>

definition typed_value :: "ts_type option \<Rightarrow> json option \<Rightarrow> bool" where
  "typed_value t v = (case (t, v) of (None, None) \<Rightarrow> True | (Some ty, Some w) \<Rightarrow> has_type ty w | _ \<Rightarrow> False)"

text \<open>
  An answer that keeps a signature: a 2xx or 4xx is a declared response with its content. Any other status
  (of a proxy, or a 5xx) is left open, since the clients never look at its content.
\<close>

definition keeps :: "signature \<Rightarrow> json fetch_outcome \<Rightarrow> bool" where
  "keeps sg a =
     (case a of
        Rejects _ \<Rightarrow> True
      | Answers st data err \<Rightarrow>
          (if 200 \<le> st \<and> st < 300 then list_ex (\<lambda>(s, t). s = st \<and> typed_value t data) (sg_responses sg)
           else if 400 \<le> st \<and> st < 500 then list_ex (\<lambda>(s, t). s = st \<and> typed_value t err) (sg_responses sg)
           else True))"

definition serves :: "api \<Rightarrow> json http \<Rightarrow> bool" where
  "serves api http \<longleftrightarrow> (\<forall>rq. list_all (\<lambda>(opn, sg). conforms rq opn \<longrightarrow> keeps sg (http rq)) api)"

lemma servesD: "serves api http \<Longrightarrow> (opn, sg) \<in> set api \<Longrightarrow> conforms rq opn \<Longrightarrow> keeps sg (http rq)"
  unfolding serves_def list_all_iff by fastforce

text \<open>What a call may do: return a value of its type, or throw an error whose fields have their types.\<close>

definition typed_result :: "('e \<Rightarrow> bool) \<Rightarrow> ts_type option \<Rightarrow> ('e, json option) result \<Rightarrow> bool" where
  "typed_result error_typed t r = (case r of Inl e \<Rightarrow> error_typed e | Inr v \<Rightarrow> typed_value t v)"

text \<open>A signature whose accepted responses all have one type, and whose refusals are errors.\<close>

definition answers_with :: "ts_type option \<Rightarrow> signature \<Rightarrow> bool" where
  "answers_with t sg =
     list_all (\<lambda>(st, u). (200 \<le> st \<and> st < 300 \<longrightarrow> u = t) \<and> (400 \<le> st \<and> st < 500 \<longrightarrow> u = Some Error)) (sg_responses sg)"

text \<open>
  The contract of a client's \<open>request\<close>: it returns the data of a 2xx, and an error is typed unless it was
  made from the body of a 4xx that is not an \<open>Error\<close>.
\<close>

locale typed_client =
  fixes request :: "json http \<Rightarrow> http_request \<Rightarrow> ('e, json option) call"
    and error_typed :: "'e \<Rightarrow> bool"
  assumes value_from: "snd (request http rq) = Inr v \<Longrightarrow> \<exists>st err. http rq = Answers st v err \<and> 200 \<le> st \<and> st < 300"
    and error_from: "snd (request http rq) = Inl e \<Longrightarrow>
      error_typed e \<or> (\<exists>st data err. http rq = Answers st data err \<and> 400 \<le> st \<and> st < 500 \<and>
        (typed_value (Some Error) err \<longrightarrow> error_typed e))"
begin

lemma exchange_typed:
  assumes "serves api http" "(opn, sg) \<in> set api" "conforms rq opn" "answers_with t sg"
  shows "typed_result error_typed t (snd (request http rq))"
proof (cases "snd (request http rq)")
  case (Inr v)
  with value_from obtain st err where a: "http rq = Answers st v err" "200 \<le> st" "st < 300" by blast
  then obtain u where "(st, u) \<in> set (sg_responses sg)" "typed_value u v"
    using servesD [OF assms(1-3)] by (auto simp: keeps_def list_ex_iff)
  with a assms(4) Inr show ?thesis by (auto simp: typed_result_def answers_with_def list_all_iff)
next
  case (Inl e)
  show ?thesis
  proof (cases "error_typed e")
    case False
    with Inl error_from obtain st data err where a: "http rq = Answers st data err" "400 \<le> st" "st < 500"
      "typed_value (Some Error) err \<longrightarrow> error_typed e" by blast
    then obtain u where "(st, u) \<in> set (sg_responses sg)" "typed_value u err"
      using servesD [OF assms(1-3)] by (auto simp: keeps_def list_ex_iff)
    with a assms(4) have "typed_value (Some Error) err" by (auto simp: answers_with_def list_all_iff)
    with a False show ?thesis by simp
  qed (simp add: Inl typed_result_def)
qed

end

section \<open>The casts of error bodies\<close>

text \<open>An \<open>Error\<close> has the types the clients cast error bodies to.\<close>

lemma Error_is_ErrorBody: "has_type Error b \<Longrightarrow> has_type ErrorBody b"
  unfolding ErrorBody_def Error_def by (erule has_TObject_sub [rotated]) (auto simp: has_TString_iff)

lemma Error_is_RejectedBody: "has_type Error b \<Longrightarrow> has_type RejectedBody b"
  unfolding RejectedBody_def Error_def by (erule has_TObject_sub [rotated]) (auto simp: has_TString_iff)

text \<open>The declared types of the fields of the error classes; a \<open>TypeError\<close> is none of them.\<close>

fun admin_error_typed :: "AdminError \<Rightarrow> bool" where
  "admin_error_typed (RoleNotEnabledError role) = absent_or TString role"
| "admin_error_typed (AdminRejectedError _ code scope) = (absent_or TString code \<and> has_type (TNullable TString) scope)"
| "admin_error_typed (AdminUnavailableError _) = True"
| "admin_error_typed AdminTypeError = False"

fun routes_error_typed :: "RoutesError \<Rightarrow> bool" where
  "routes_error_typed (RoutesRejectedError r) =
     (list_all (absent_or TString) [rej_code r, rej_field r, rej_message r, conflicting_id r] \<and>
      absent_or TNumber (max_routes r) \<and> has_type (TNullable TString) (rej_scope r))"
| "routes_error_typed RoutesTypeError = False"
| "routes_error_typed _ = True"

lemma admin_judge_typed:
  assumes "has_type Error b" "admin_judge st (Some b) = Some e"
  shows "admin_error_typed e"
proof -
  note f = absent_or_field [OF Error_is_ErrorBody [OF assms(1), unfolded ErrorBody_def]]
  have "has_type (TNullable TString) (or_JNull (json_field b ''scope''))"
    using f [of "''scope''" False TString] by (cases "json_field b ''scope''") (simp_all add: absent_or_def or_JNull_def)
  moreover have "\<not> template_throws [json_field b ''role'']"
    using f [of "''role''" False TString]
    by (cases "json_field b ''role''") (auto simp: template_throws_def absent_or_def has_TString_iff)
  ultimately show ?thesis
    using assms(2) f [of "''error''" False TString] f [of "''role''" False TString]
    by (auto simp: admin_judge_def error_body_def Let_def split: if_splits)
qed

lemma routes_judge_typed:
  assumes "has_type Error b" "routes_judge st (Some b) = Some e"
  shows "routes_error_typed e"
proof -
  obtain r where "rejected st b = RoutesRejectedError r" "routes_error_typed (RoutesRejectedError r)"
    using rejected_typed [OF Error_is_RejectedBody [OF assms(1)], of st] by (auto simp del: has_type.simps)
  then have "routes_error_typed (rejected st b)" by (simp only:)
  with assms(2) show ?thesis by (auto simp: routes_judge_def error_body_def split: if_splits)
qed

interpretation admin_typed: typed_client admin_request admin_error_typed
proof
  show "\<exists>st err. http rq = Answers st v err \<and> 200 \<le> st \<and> st < 300" if "snd (admin_request http rq) = Inr v" for http rq v
    using that admin_errors.judge_None
    by (fastforce simp: admin_request_def awaited_Answers_iff split: fetch_outcome.splits option.splits)
next
  fix http rq e
  assume e: "snd (admin_request http rq) = Inl e"
  show "admin_error_typed e \<or> (\<exists>st data err. http rq = Answers st data err \<and> 400 \<le> st \<and> st < 500 \<and>
      (typed_value (Some Error) err \<longrightarrow> admin_error_typed e))"
  proof (cases "awaited http rq")
    case (Answers st data err)
    with e have j: "admin_judge st err = Some e" by (simp add: admin_request_def split: option.splits)
    moreover from j have "400 \<le> st \<and> st < 500 \<or> admin_error_typed e"
      by (auto simp: admin_judge_def Let_def split: if_splits)
    ultimately show ?thesis using Answers admin_judge_typed
      by (cases err) (auto simp: typed_value_def awaited_Answers_iff)
  qed (use e in \<open>auto simp: admin_request_def\<close>)
qed

interpretation routes_typed: typed_client routes_request routes_error_typed
proof
  show "\<exists>st err. http rq = Answers st v err \<and> 200 \<le> st \<and> st < 300" if "snd (routes_request http rq) = Inr v" for http rq v
    using that routes_errors.judge_None
    by (fastforce simp: routes_request_def awaited_Answers_iff split: fetch_outcome.splits option.splits)
next
  fix http rq e
  assume e: "snd (routes_request http rq) = Inl e"
  show "routes_error_typed e \<or> (\<exists>st data err. http rq = Answers st data err \<and> 400 \<le> st \<and> st < 500 \<and>
      (typed_value (Some Error) err \<longrightarrow> routes_error_typed e))"
  proof (cases "awaited http rq")
    case (Answers st data err)
    with e have j: "routes_judge st err = Some e" by (simp add: routes_request_def split: option.splits)
    moreover from j have "400 \<le> st \<and> st < 500 \<or> routes_error_typed e"
      by (auto simp: routes_judge_def split: if_splits)
    ultimately show ?thesis using Answers routes_judge_typed
      by (cases err) (auto simp: typed_value_def awaited_Answers_iff)
  qed (use e in \<open>auto simp: routes_request_def\<close>)
qed

section \<open>Methods and their declared types\<close>

text \<open>A call of each client with its result; \<open>None\<close> is \<open>undefined\<close>, as for \<open>void\<close>.\<close>

definition returning :: "('a \<Rightarrow> json option) \<Rightarrow> ('e, 'a) call \<Rightarrow> ('e, json option) call" where
  "returning f c = (fst c, result_bind (snd c) (\<lambda>v. Inr (f v)))"

fun admin_run :: "AdminClient \<Rightarrow> admin_op \<Rightarrow> (AdminError, json option) call" where
  "admin_run c AdminHealth = returning Some (ac_health c)"
| "admin_run c AdminMetrics = ac_metrics c"
| "admin_run c AdminConfig = ac_config c"
| "admin_run c ListReplays = ac_listReplays c"
| "admin_run c (ListDeadLetters q) = ac_listDeadLetters c q"
| "admin_run c (ListQuarantined q) = ac_listQuarantined c q"
| "admin_run c (ListAudit q) = ac_listAudit c q"
| "admin_run c (CreateReplay b) = ac_createReplay c b"
| "admin_run c (GetReplay i) = ac_getReplay c i"
| "admin_run c (UpdateReplay i b) = ac_updateReplay c i b"

fun routes_run :: "RoutesClient \<Rightarrow> routes_op \<Rightarrow> (RoutesError, json option) call" where
  "routes_run c RoutesHealth = returning Some (rc_health c)"
| "routes_run c GetIpRules = rc_getIpRules c"
| "routes_run c (ListRoutes q) = rc_listRoutes c q"
| "routes_run c (CreateRoute b) = rc_createRoute c b"
| "routes_run c (GetRoute i) = rc_getRoute c i"
| "routes_run c (ReplaceRoute i b) = rc_replaceRoute c i b"
| "routes_run c (UpdateRoute i b) = rc_updateRoute c i b"
| "routes_run c (DeleteRoute i) = returning (\<lambda>_. None) (rc_deleteRoute c i)"
| "routes_run c (PutIpRules b) = rc_putIpRules c b"
| "routes_run c (TestRoute b) = rc_testRoute c b"

lemma run_outcome: "outcome (admin_run a x) = admin_call a x" "outcome (routes_run r y) = routes_call r y"
  by (cases x; simp add: returning_def outcome_def split: sum.split)
    (cases y; simp add: returning_def outcome_def split: sum.split)

text \<open>The type each method of \<open>AdminClient\<close> and \<open>RoutesClient\<close> promises; \<open>None\<close> is \<open>void\<close>.\<close>

fun admin_returns :: "admin_op \<Rightarrow> ts_type option" where
  "admin_returns AdminHealth = Some Health"
| "admin_returns AdminMetrics = Some TString"
| "admin_returns AdminConfig = Some (TRecord TUnknown)"
| "admin_returns ListReplays = Some ReplayList"
| "admin_returns (ListDeadLetters _) = Some DlqPage"
| "admin_returns (ListQuarantined _) = Some QuarantinePage"
| "admin_returns (ListAudit _) = Some AuditPage"
| "admin_returns (CreateReplay _) = Some Replay"
| "admin_returns (GetReplay _) = Some Replay"
| "admin_returns (UpdateReplay _ _) = Some Replay"

fun routes_returns :: "routes_op \<Rightarrow> ts_type option" where
  "routes_returns RoutesHealth = Some schema_RoutesHealth"
| "routes_returns GetIpRules = Some IpRules"
| "routes_returns (ListRoutes _) = Some RoutePage"
| "routes_returns (DeleteRoute _) = None"
| "routes_returns (PutIpRules _) = Some IpRules"
| "routes_returns (TestRoute _) = Some DryRunResult"
| "routes_returns _ = Some Route"

text \<open>The types of their arguments; an absent query is an empty one.\<close>

definition query_typed :: "ts_type \<Rightarrow> json_object option \<Rightarrow> bool" where
  "query_typed t q = has_type t (JObj (case q of None \<Rightarrow> [] | Some ps \<Rightarrow> ps))"

fun id_typed :: "route_id \<Rightarrow> bool" where
  "id_typed (Value v) = has_type TString v"
| "id_typed _ = False"

fun admin_takes :: "admin_op \<Rightarrow> bool" where
  "admin_takes (ListDeadLetters q) = query_typed ListDeadLettersParams q"
| "admin_takes (ListQuarantined q) = query_typed ListQuarantinedParams q"
| "admin_takes (ListAudit q) = query_typed ListAuditParams q"
| "admin_takes (CreateReplay b) = has_type ReplaySpec b"
| "admin_takes (UpdateReplay _ b) = has_type ReplayPatch b"
| "admin_takes _ = True"

fun routes_takes :: "routes_op \<Rightarrow> bool" where
  "routes_takes (ListRoutes q) = query_typed ListRoutesParams q"
| "routes_takes (CreateRoute b) = has_type RouteInput b"
| "routes_takes (GetRoute i) = id_typed i"
| "routes_takes (ReplaceRoute i b) = (id_typed i \<and> has_type RouteInput b)"
| "routes_takes (UpdateRoute i b) = (id_typed i \<and> has_type RoutePatch b)"
| "routes_takes (DeleteRoute i) = id_typed i"
| "routes_takes (PutIpRules b) = has_type IpRules b"
| "routes_takes (TestRoute b) = has_type DryRunRequest b"
| "routes_takes _ = True"

section \<open>The values the clients return\<close>

text \<open>
  Both listeners answer \<open>/health\<close> under one schema, so its answer has one of two types; which of them
  is whose only its description says.
\<close>

lemma health_typed:
  assumes "serves admin_api http"
  shows "typed_result admin_error_typed (Some (TUnion Health schema_RoutesHealth)) (snd (returning Some (admin_health http u)))"
    "typed_result routes_error_typed (Some (TUnion Health schema_RoutesHealth)) (snd (returning Some (routes_health http u)))"
proof -
  have "keeps (admin_signatures ! 0) (http (http_get ''/health'' (timeout_of u)))"
    using servesD [OF assms, of "admin_paths ! 0" "admin_signatures ! 0"]
    by (simp add: admin_api_def admin_paths_def admin_signatures_def endpoint_def conforms_def http_get_def)
  then show "typed_result admin_error_typed (Some (TUnion Health schema_RoutesHealth)) (snd (returning Some (admin_health http u)))"
    "typed_result routes_error_typed (Some (TUnion Health schema_RoutesHealth)) (snd (returning Some (routes_health http u)))"
    by (auto simp: keeps_def admin_signatures_def reads_def sig_of_def returning_def admin_health_def routes_health_def awaited_def
        Let_def typed_result_def typed_value_def split: fetch_outcome.split)
qed

text \<open>An operation of the schema with one type of answer, found by evaluation.\<close>

definition declared :: "api \<Rightarrow> http_request \<Rightarrow> ts_type option \<Rightarrow> bool" where
  "declared api rq t = list_ex (\<lambda>(opn, sg). conforms rq opn \<and> answers_with t sg) api"

lemma declared_typed:
  assumes "serves admin_api http" "declared admin_api rq t"
  shows "typed_result admin_error_typed t (snd (admin_request http rq))"
    "typed_result routes_error_typed t (snd (routes_request http rq))"
proof -
  obtain opn sg where "(opn, sg) \<in> set admin_api" "conforms rq opn" "answers_with t sg"
    using assms(2) by (auto simp: declared_def list_ex_iff)
  from admin_typed.exchange_typed [OF assms(1) this] routes_typed.exchange_typed [OF assms(1) this]
  show "typed_result admin_error_typed t (snd (admin_request http rq))"
    "typed_result routes_error_typed t (snd (routes_request http rq))" .
qed

lemmas api_simps = declared_def admin_api_def admin_paths_def admin_signatures_def endpoint_def reads_def sig_of_def
  answers_with_def conforms_def http_get_def

lemma admin_values:
  assumes "serves admin_api http" "as_json (cc (http_config options)) = http"
  shows "typed_result admin_error_typed (if x = AdminHealth then Some (TUnion Health schema_RoutesHealth) else admin_returns x)
    (snd (admin_run (createAdminClient cc options) x))"
proof (cases "x = AdminHealth")
  case True
  then show ?thesis using health_typed(1) [OF assms(1)] by (simp add: createAdminClient_def Let_def assms(2))
next
  case False
  then show ?thesis
    by (cases x; simp add: admin_calls Let_def assms(2))
      (rule declared_typed(1) [OF assms(1)], simp add: api_simps)+
qed

lemma invalid_id_typed: "id_typed i \<Longrightarrow> routes_error_typed (invalid_route_id i)"
  by (cases i) (simp_all add: invalid_route_id_def)

lemma with_route_id_result:
  assumes "id_typed i" "\<And>s. typed_result routes_error_typed t (snd (k s))"
  shows "typed_result routes_error_typed t (snd (with_route_id i k))"
proof (cases "assertRouteId i")
  case (Inl e)
  with assertRouteId_Inl [OF Inl] invalid_id_typed [OF assms(1)] show ?thesis
    by (simp add: with_route_id_def typed_result_def)
qed (simp add: with_route_id_def assms(2))

lemma with_route_id_void:
  assumes "id_typed i" "\<And>s. typed_result routes_error_typed None (snd (k s))"
  shows "typed_result routes_error_typed None (snd (returning (\<lambda>_. None)
    (with_route_id i (\<lambda>s. case k s of (reqs, res) \<Rightarrow> (reqs, result_bind res (\<lambda>_. Inr ()))))))"
proof (cases "assertRouteId i")
  case (Inl e)
  with assertRouteId_Inl [OF Inl] invalid_id_typed [OF assms(1)] show ?thesis
    by (simp add: with_route_id_def returning_def typed_result_def)
next
  case (Inr s)
  with assms(2) [of s] show ?thesis
    by (cases "snd (k s)") (auto simp: with_route_id_def returning_def typed_result_def typed_value_def split_beta)
qed

lemma routes_values:
  assumes "serves admin_api http" "routes_takes x" "as_json (cc (http_config options)) = http"
  shows "typed_result routes_error_typed (if x = RoutesHealth then Some (TUnion Health schema_RoutesHealth) else routes_returns x)
    (snd (routes_run (createRoutesClient cc options) x))"
proof (cases "x = RoutesHealth")
  case True
  then show ?thesis using health_typed(2) [OF assms(1)] by (simp add: createRoutesClient_def Let_def assms(3))
next
  case False
  with assms(2) show ?thesis
    by (cases x; simp add: routes_calls Let_def assms(3))
      ((((rule with_route_id_result | rule with_route_id_void), (simp; fail))?, rule declared_typed(2) [OF assms(1)],
          simp add: api_simps)+)
qed

text \<open>The claim-check schema: a claim is read as bytes, so only \<open>/health\<close> has JSON content.\<close>

definition claim_signatures :: "signature list" where
  "claim_signatures =
     [\<lparr>sg_query = Some (TObject [opt ''exp'' TString, opt ''sig'' TString]), sg_body = None,
       sg_responses = [(200, Some TString), (206, Some TString), (400, Some claim_Error), (401, Some claim_Error),
         (403, Some claim_Error), (404, Some claim_Error), (410, Some claim_Error), (416, None),
         (502, Some claim_Error), (503, Some claim_Error)]\<rparr>,
      \<lparr>sg_query = None, sg_body = None, sg_responses = [(200, Some claim_Health)]\<rparr>]"

definition claim_api :: api where
  "claim_api = zip claim_paths claim_signatures"

lemma claim_health_value:
  assumes "serves claim_api http"
  shows "typed_result (\<lambda>_. True) (Some claim_Health) (snd (returning Some (claim_health http u)))"
proof -
  have "keeps (claim_signatures ! 1) (http (http_get ''/health'' (timeout_of u)))"
    using servesD [OF assms, of "claim_paths ! 1" "claim_signatures ! 1"] by
      (simp add: claim_api_def claim_paths_def claim_signatures_def endpoint_def conforms_def http_get_def)
  then show ?thesis
    by (auto simp: keeps_def claim_signatures_def returning_def claim_health_def awaited_def Let_def typed_result_def typed_value_def
        split: fetch_outcome.split)
qed

section \<open>The requests the clients make\<close>

text \<open>A request whose query and body are of the types of its operation.\<close>

definition fits :: "signature \<Rightarrow> http_request \<Rightarrow> bool" where
  "fits sg rq \<longleftrightarrow>
     (case sg_query sg of None \<Rightarrow> rq_query rq = None | Some t \<Rightarrow> query_typed t (rq_query rq)) \<and>
     typed_value (sg_body sg) (rq_body rq)"

definition schema_typed :: "api \<Rightarrow> http_request list \<Rightarrow> bool" where
  "schema_typed api rqs = list_all (\<lambda>rq. list_ex (\<lambda>(opn, sg). conforms rq opn \<and> fits sg rq) api) rqs"

text \<open>The cast of a route: the client's type is the schema's without the presence of four fields.\<close>

definition input_complete :: "json \<Rightarrow> bool" where
  "input_complete b = list_all (\<lambda>k. json_field b k \<noteq> None) defaulted_keys"

lemma schema_RouteInput_iff: "has_type schema_RouteInput b \<longleftrightarrow> has_type RouteInput b \<and> input_complete b"
proof (cases b)
  case (JObj ob)
  have "list_all (\<lambda>f. field_required f \<longrightarrow> map_of ob (js (field_name f)) \<noteq> None) (Pick defaulted_keys route_input_fields) \<longleftrightarrow>
      input_complete b"
    by (simp add: Pick_def route_input_fields_def defaulted_keys_def input_complete_def JObj)
  with has_fields_Partial [of route_input_fields ob defaulted_keys] JObj show ?thesis
    by (simp add: schema_RouteInput_def RouteInput_def has_TObject_iff)
qed (simp_all add: schema_RouteInput_def RouteInput_def has_TObject_iff)

fun sends_complete :: "routes_op \<Rightarrow> bool" where
  "sends_complete (CreateRoute b) = input_complete b"
| "sends_complete (ReplaceRoute _ b) = input_complete b"
| "sends_complete _ = True"

lemmas fit_simps = sent_def schema_typed_def fits_def typed_value_def api_simps

lemma admin_requests_fit:
  assumes "admin_takes x"
  shows "schema_typed admin_api (fst (admin_run (createAdminClient cc options) x))"
  using assms by (cases x; simp add: admin_calls admin_health_def returning_def Let_def) (simp add: fit_simps)+

lemma with_route_id_fit:
  assumes "\<And>s. schema_typed api (fst (k s)) \<longleftrightarrow> fst (k s) = [] \<or> c"
  shows "schema_typed api (fst (with_route_id i k)) \<longleftrightarrow> fst (with_route_id i k) = [] \<or> c"
  using assms by (simp add: with_route_id_def schema_typed_def split: sum.split)

lemma with_route_id_fits:
  assumes "\<And>s. schema_typed api (fst (k s))"
  shows "schema_typed api (fst (with_route_id i k))"
  using assms by (simp add: with_route_id_def schema_typed_def split: sum.split)

lemma routes_requests_fit:
  assumes "routes_takes x"
  shows "schema_typed admin_api (fst (routes_run (createRoutesClient cc options) x)) \<longleftrightarrow>
    fst (routes_run (createRoutesClient cc options) x) = [] \<or> sends_complete x"
  using assms
  by (cases x; simp add: routes_calls routes_health_def returning_def Let_def split_beta)
    ((rule with_route_id_fits | rule with_route_id_fit)?, simp add: fit_simps schema_RouteInput_iff)+

section \<open>Properties\<close>

text \<open>
  C20. What the clients' casts of answers are worth. Against a server that answers as the admin schema
  declares (a 2xx and a 4xx is a declared response with content of its type), every method of the
  admin client, and every method of the routes client called with arguments of its declared types,
  returns a value of the type it promises (\<open>undefined\<close> for \<open>void\<close>) or throws an error of its hierarchy
  whose fields have their declared types, and never a \<open>TypeError\<close>. The exception is \<open>health\<close> of these two
  clients: the schema gives its value only the union of the types of the two listeners, of which the
  cast takes one. \<open>health\<close> of the claim-check client returns its type under the claim-check schema.
\<close>

theorem client_values_typed:
  "let http = as_json (cc (http_config options)); health = Some (TUnion Health schema_RoutesHealth)
   in (serves admin_api http \<longrightarrow>
         typed_result admin_error_typed (if x = AdminHealth then health else admin_returns x)
           (snd (admin_run (createAdminClient cc options) x))) \<and>
      (serves admin_api http \<and> routes_takes y \<longrightarrow>
         typed_result routes_error_typed (if y = RoutesHealth then health else routes_returns y)
           (snd (routes_run (createRoutesClient cc options) y))) \<and>
      (serves claim_api http \<longrightarrow>
         typed_result (\<lambda>_. True) (Some claim_Health) (snd (returning Some (cc_health (createClaimCheckClient cc options)))))"
  using admin_values [OF _ refl, where cc = cc and options = options and x = x] routes_values [OF _ _ refl, where cc = cc and options = options and x = y] claim_health_value
  by (simp add: Let_def createClaimCheckClient_def)

text \<open>A routes listener that answers two operations and refuses every other with an \<open>Error\<close> of its own.\<close>

definition example_server :: "json http" where
  "example_server rq =
     (if rq_method rq = GET \<and> rq_path rq = js ''/admin/ip-rules''
      then Answers 200 (Some (JObj [(js ''default'', JStr (js ''allow'')), (js ''rules'', JArr [])])) None
      else if rq_method rq = GET \<and> rq_path rq = js ''/health''
      then Answers 200 (Some (JObj [(js ''status'', JStr (js ''ok'')), (js ''routes'', JNum (Fin 2))])) None
      else if rq_path rq = js ''/ready'' then Rejects (Failure [])
      else Answers 401 None (Some (JObj [(js ''error'', JStr (js ''unauthenticated''))])))"

lemma example_server_serves: "serves admin_api example_server"
  unfolding serves_def
  by (simp add: admin_api_def admin_paths_def admin_signatures_def endpoint_def reads_def sig_of_def conforms_def
      example_server_def keeps_def typed_value_def IpRules_def schema_RoutesHealth_def Error_def has_object_simps)

definition example_library :: "(unit, unit) http_config \<Rightarrow> http_client" where
  "example_library cfg = \<lparr>as_json = example_server, as_bytes = \<lambda>_. Rejects (Failure [])\<rparr>"

theorem client_values_typed_witness:
  "snd (routes_run (createRoutesClient example_library plain_options) GetIpRules) =
     Inr (Some (JObj [(js ''default'', JStr (js ''allow'')), (js ''rules'', JArr [])])) \<and>
   typed_result routes_error_typed (Some IpRules) (snd (routes_run (createRoutesClient example_library plain_options) GetIpRules)) \<and>
   typed_result admin_error_typed (Some (TUnion Health schema_RoutesHealth))
     (snd (admin_run (createAdminClient example_library plain_options) AdminHealth)) \<and>
   typed_result routes_error_typed (Some Route)
     (snd (routes_run (createRoutesClient example_library plain_options) (GetRoute (Value (JStr (js ''stripe''))))))"
  using client_values_typed [of example_library plain_options AdminHealth GetIpRules]
    client_values_typed [of example_library plain_options AdminHealth "GetRoute (Value (JStr (js ''stripe'')))"]
  by (simp add: example_library_def example_server_serves routes_calls Let_def routes_request_def routes_judge_def
      example_server_def http_get_def plain_options_def has_TString_iff)

text \<open>
  The schema alone does not justify the cast of \<open>health\<close>: a server that keeps it may answer the admin
  client with the body of the routes listener.
\<close>

lemma health_cast_needs_listener:
  "serves admin_api example_server \<and>
   \<not> typed_result admin_error_typed (admin_returns AdminHealth)
       (snd (admin_run (createAdminClient example_library plain_options) AdminHealth))"
  by (simp add: example_server_serves example_library_def createAdminClient_def Let_def admin_health_def returning_def
      example_server_def http_get_def plain_options_def typed_result_def typed_value_def Health_def has_object_simps)

text \<open>
  C21. The clients send what the schema declares. With arguments of the types of its parameters, the query
  and the body of every request of a method of the admin client are of the types of its operation. So
  are those of the routes client, except that a route is sent with the type of the schema exactly when
  the four fields the client's type makes optional are all there.
\<close>

theorem client_requests_fit:
  "(admin_takes x \<longrightarrow> schema_typed admin_api (fst (admin_run (createAdminClient cc options) x))) \<and>
   (routes_takes y \<longrightarrow>
      (schema_typed admin_api (fst (routes_run (createRoutesClient cc options) y)) \<longleftrightarrow>
         fst (routes_run (createRoutesClient cc options) y) = [] \<or> sends_complete y))"
  using admin_requests_fit routes_requests_fit by blast

definition example_route :: json where
  "example_route = JObj [(js ''path'', JStr (js ''/webhooks/stripe'')), (js ''tenant_id'', JStr (js ''acme'')),
     (js ''source_id'', JNull)]"

lemma example_route_typed: "has_type RouteInput example_route" "\<not> input_complete example_route"
  by (simp_all add: RouteInput_def example_route_def Omit_def Pick_def Partial_def route_input_fields_def
      defaulted_keys_def input_complete_def has_object_simps)

theorem client_requests_fit_witness:
  "schema_typed admin_api (fst (admin_run (createAdminClient example_library plain_options)
     (UpdateReplay (js ''7'') (JObj [(js ''state'', JStr (js ''paused''))])))) \<and>
   \<not> schema_typed admin_api (fst (routes_run (createRoutesClient example_library plain_options) (CreateRoute example_route)))"
  using client_requests_fit [of "UpdateReplay (js ''7'') (JObj [(js ''state'', JStr (js ''paused''))])" example_library
      plain_options "CreateRoute example_route"] example_route_typed
  by (simp add: ReplayPatch_def has_object_simps routes_calls Let_def routes_request_def plain_options_def)

text \<open>
  What the routes client takes for a route. A value has the client's type exactly when it is an object
  with a string \<open>tenant_id\<close>, a string or null \<open>source_id\<close> and a string \<open>path\<close>, and each of the other fields
  absent or of its type; and it has the schema's type exactly when, besides, the four defaulted fields
  are present. So \<open>path\<close> is not the only required field, and the route of the README is not of the type.
\<close>

lemma route_input_cast:
  "(has_type RouteInput b \<longleftrightarrow>
      (\<exists>ob. b = JObj ob) \<and>
      list_all (\<lambda>(k, t). json_field b k \<noteq> None \<and> absent_or t (json_field b k))
        [(''tenant_id'', TString), (''source_id'', TNullable TString), (''path'', TString)] \<and>
      list_all (\<lambda>(k, t). absent_or t (json_field b k))
        [(''id'', TString), (''methods'', TArray TString), (''enabled'', TBoolean), (''ip_rules'', TArray IpRule),
         (''metadata'', TRecord TUnknown)]) \<and>
   (has_type schema_RouteInput b \<longleftrightarrow> has_type RouteInput b \<and> input_complete b) \<and>
   \<not> has_type RouteInput (JObj [(js ''id'', JStr (js ''stripe'')), (js ''path'', JStr (js ''/webhooks/stripe''))])"
proof (intro conjI)
  show "has_type schema_RouteInput b \<longleftrightarrow> has_type RouteInput b \<and> input_complete b" by (rule schema_RouteInput_iff)
  show "\<not> has_type RouteInput (JObj [(js ''id'', JStr (js ''stripe'')), (js ''path'', JStr (js ''/webhooks/stripe''))])"
    by (simp add: RouteInput_def Omit_def route_input_fields_def defaulted_keys_def has_object_simps)
qed (cases b; auto simp: RouteInput_def Omit_def Pick_def Partial_def route_input_fields_def defaulted_keys_def
    has_TObject_iff absent_or_def split: option.splits)

text \<open>
  The type of a replay's filter, a record of \<open>never\<close>, admits only the empty object, although the schema
  documents it as the filter keys given at creation; so with the store of \<open>Wal\<close>.
\<close>

lemma replay_filter_empty:
  "has_type Replay v \<Longrightarrow> json_field v ''filter'' = Some (JObj [])"
  "has_type Wal w \<Longrightarrow> json_field w ''wal'' = Some (JObj [])"
proof -
  have never: "has_type (TRecord TNever) u \<longleftrightarrow> u = JObj []" for u
  proof (cases u)
    case (JObj ob)
    then show ?thesis by (cases ob) simp_all
  qed simp_all
  show "json_field v ''filter'' = Some (JObj [])" if "has_type Replay v"
    using typed_field [OF that [unfolded Replay_def], of "''filter''" True "TRecord TNever"]
    by (simp add: never split: option.splits del: has_type.simps)
  show "json_field w ''wal'' = Some (JObj [])" if "has_type Wal w"
    using typed_field [OF that [unfolded Wal_def], of "''wal''" True "TRecord TNever"]
    by (simp add: never split: option.splits del: has_type.simps)
qed

end
