(* ===== verification/Message_Fate.thy ===== *)
theory Message_Fate
  imports Rabbitmq Sqs Jetstream
begin

text \<open>
  One claim message on four brokers: what the RabbitMQ worker, the fleet consumer, the SQS worker and the
  JetStream consumer do with the same message and the same gateway. The lemmas show that they agree,
  that the redeemed bytes or the retry bit of the one claim-check error decide in each of them, at which
  of the documented answers that is what the gateway's schema asks for, and that an outage of the
  gateway or of the ledger only delays a message of the JetStream consumer.
\<close>

section \<open>The message on the wire\<close>

text \<open>The text of a message, as \<open>JSON.stringify\<close> writes it.\<close>

definition wire_text :: "(js_number \<Rightarrow> js_string) \<Rightarrow> Message \<Rightarrow> js_string" where
  "wire_text num m = JSON_stringify num (JObj (message_json m))"

lemma wire_text_parses:
  assumes "number_law num" "message_wf m" "message_printable m"
  shows "JSON_parse (wire_text num m) = Some (JObj (message_json m))"
    "parse_content (utf8_encode (wire_text num m)) = Inr (JObj (message_json m))"
  using JSON_parse_stringify [OF assms(1) message_json_printable [OF assms(2,3)]]
    parse_stringified [OF assms(1) message_json_printable [OF assms(2,3)]]
  by (simp_all add: wire_text_def)

lemma wire_bytes_decode:
  assumes "number_law num" "message_wf m" "message_printable m" "msg_sha256 m \<noteq> None"
  shows "decodeMessage (Bytes (utf8_encode (wire_text num m))) = Inr m"
  using stringified_object_text(2) [OF assms(1) message_json_printable [OF assms(2,3)]] redecode [OF assms(2,4)]
  by (simp add: decodeMessage_def wire_text_def del: payload_text.simps)

lemma message_json_field: "json_field (JObj (message_json m)) k = raw_field (message_json m) k"
  by (simp add: raw_field_def)

lemma string_json_text: "\<not> text_throws (string_json v)"
  by (cases v) simp_all

lemma message_json_handled: "handleHook (JObj (message_json m)) = Inr ()"
  by (simp add: handleHook_def template_throws_def message_json_field message_json_fields string_json_text del: json_field.simps)

section \<open>A message with a claim\<close>

text \<open>A well-formed message whose body is behind the reference \<open>p\<close>, written \<open>c\<close>, with the digest \<open>s\<close>.\<close>

definition claims :: "Message \<Rightarrow> js_string \<Rightarrow> ParsedClaimRef \<Rightarrow> js_string \<Rightarrow> bool" where
  "claims m c p s \<longleftrightarrow> message_wf m \<and> message_printable m \<and> msg_claim m = Some c \<and> msg_sha256 m = Some s \<and>
     parseClaimRef c = Inr p"

lemma claimsD:
  assumes "claims m c p s"
  shows "message_wf m" "message_printable m" "msg_body m = None" "c \<noteq> []" "s \<noteq> []" "sha256_pattern s"
    "parseClaimRef c = Inr p"
  using assms by (auto simp: claims_def message_wf_def sha256_pattern_def parseClaimRef_iff claim_urn_def js_eval
      split: option.splits sum.splits)

text \<open>What redeeming it gives to a worker.\<close>

definition redeemed :: "byte list http \<Rightarrow> js_string \<Rightarrow> js_string \<Rightarrow> (ClaimCheckError, byte list) result" where
  "redeemed http c s = snd (redeem http None c (JStr s))"

text \<open>The three ways to resolve the body are one redeem.\<close>

lemma claim_resolves:
  assumes "claims m c p s"
  shows "resolveBody other http (JObj (message_json m)) =
      (case redeemed http c s of Inl e \<Rightarrow> Inl (ClaimError e) | Inr body \<Rightarrow> Inr (body, ViaClaim (claimId p)))"
    "sqs_resolveBody other http (JObj (message_json m)) =
      (case redeemed http c s of Inl e \<Rightarrow> Inl (ClaimError e) | Inr body \<Rightarrow> Inr (body, ViaClaim (claimId p)))"
    "js_resolveBody http m = (case redeemed http c s of Inl e \<Rightarrow> Inl (ClaimError e) | Inr _ \<Rightarrow> Inr ''claim'')"
proof -
  note p = claimsD(7) [OF assms]
  have f: "raw_field (message_json m) ''claim'' = Some (JStr c)" "raw_field (message_json m) ''sha256'' = Some (JStr s)"
    using assms by (simp_all add: claims_def message_json_fields)
  have red: "redeem_claim http (JStr c) (JStr s) =
      (case redeemed http c s of Inl e \<Rightarrow> Inl (ClaimError e) | Inr body \<Rightarrow> Inr (body, ViaClaim (claimId p)))"
    by (auto simp: redeem_claim_def p redeemed_def redeem_text_error split: sum.split)
  show "js_resolveBody http m = (case redeemed http c s of Inl e \<Rightarrow> Inl (ClaimError e) | Inr _ \<Rightarrow> Inr ''claim'')"
    using assms claimsD(3-5) [OF assms] by (simp add: js_resolveBody_def claims_def redeemed_def)
  show "resolveBody other http (JObj (message_json m)) =
      (case redeemed http c s of Inl e \<Rightarrow> Inl (ClaimError e) | Inr body \<Rightarrow> Inr (body, ViaClaim (claimId p)))"
    "sqs_resolveBody other http (JObj (message_json m)) =
      (case redeemed http c s of Inl e \<Rightarrow> Inl (ClaimError e) | Inr body \<Rightarrow> Inr (body, ViaClaim (claimId p)))"
    using red f claimsD(4,5) [OF assms]
    by (simp_all add: resolveBody_def sqs_resolveBody_def js_get_def message_json_field del: json_field.simps)
qed

lemma redeemed_digest:
  assumes "redeemed http c s = Inr body"
  shows "sha256_hex body = s"
  using assms by (cases rule: redeem_cases [of c "JStr s"])
    (auto simp: redeemed_def redeem_wf Let_def split: fetch_outcome.splits option.splits if_splits)

section \<open>The four consumers\<close>

text \<open>Each consumer's actions on the message, by the result of the redeem.\<close>

lemma rabbit_fate:
  assumes "number_law num" "claims m c p s" "content d = utf8_encode (wire_text num m)"
  shows "rabbit_handle other http d =
    (case redeemed http c s of
       Inr body \<Rightarrow> [Handle (JObj (message_json m)) (routingKey d) body (ViaClaim (claimId p)), Ack]
     | Inl e \<Rightarrow> [Nack (claim_retryable e)])"
  using claim_resolves(1) [OF assms(2), of other http] wire_text_parses(2) [OF assms(1) claimsD(1,2) [OF assms(2)]] assms(3)
  by (cases "redeemed http c s") (simp_all add: rabbit_handle_def message_json_handled settle_error_def)

lemma message_row:
  assumes "\<forall>v. db v = None"
  shows "\<exists>row. hook_row shown db (JObj (message_json m)) body via = Inr row"
proof -
  have "pg_text shown (row_key (JObj (message_json m))) \<noteq> None"
    by (cases "idempotency_key m") (simp_all add: row_key_def nullish_def message_json_field message_json_fields del: json_field.simps)
  with assms show ?thesis
    by (auto simp: hook_row_def message_json_field message_json_fields simp del: json_field.simps)
qed

lemma fleet_fate:
  assumes "number_law num" "claims m c p s" "content d = utf8_encode (wire_text num m)" "\<forall>v. db v = None"
  shows "case redeemed http c s of
      Inr body \<Rightarrow> snd (fleet_handle other http shown db t d) = [Ack]
    | Inl e \<Rightarrow> fleet_handle other http shown db t d = (t, [Nack (claim_retryable e)])"
proof -
  note p = claim_resolves(1) [OF assms(2), of other http]
  note parsed = wire_text_parses(2) [OF assms(1) claimsD(1,2) [OF assms(2)]]
  show ?thesis
  proof (cases "redeemed http c s")
    case (Inr body)
    obtain row where "hook_row shown db (JObj (message_json m)) body (ViaClaim (claimId p)) = Inr row"
      using message_row [OF assms(4)] by blast
    with Inr p parsed assms(3) show ?thesis by (simp add: fleet_handle_def record_hook_def split_beta)
  qed (simp add: fleet_handle_def p parsed assms(3) settle_error_def)
qed

lemma sqs_fate:
  assumes "number_law num" "claims m c p s" "msg_v m = Fin 1" "Body q = Some (wire_text num m)"
    and "\<forall>h cmd. aws h cmd = None" "message_group q \<notin> set blocked" "gw (trace st) = http"
    and "\<not> set_has (processed st) (Some (JStr (msg_id m)))"
  shows "trace (fst (snd (sqs_step pow other gw aws blocked q st))) = trace st @
    (case redeemed http c s of
       Inr body \<Rightarrow> [Hooked q (JObj (message_json m)) body (ViaClaim (claimId p)), Command q (DeleteMessage (ReceiptHandle q)) None]
     | Inl e \<Rightarrow>
         if claim_retryable e
         then [Command q (ChangeMessageVisibility (ReceiptHandle q) (backOff_seconds pow q)) None]
         else [Command q (SendMessage (Body q) (MessageGroupId q) (MessageId q) (ClaimError e)) None,
               Command q (DeleteMessage (ReceiptHandle q)) None])"
proof -
  have "sqs_parse (Body q) = Inr (JObj (message_json m))"
    using wire_text_parses(1) [OF assms(1) claimsD(1,2) [OF assms(2)]] claimsD(5) [OF assms(2)] assms(2-4)
    by (simp add: sqs_parse_def js_get_def message_json_field message_json_fields claims_def del: json_field.simps)
  with claim_resolves(2) [OF assms(2), of other http] assms(5-8) show ?thesis
    by (cases "redeemed http c s") (simp_all add: sqs_step_def sqs_process_def sqs_deadLetter_def sqs_remove_def sqs_backOff_def sqs_send_def Let_def
        message_json_handled message_json_field message_json_fields del: json_field.simps)
qed

lemma jets_fate:
  assumes "number_law num" "claims m c p s" "data jm = utf8_encode (wire_text num m)" "\<forall>h cl. nats w h cl = None"
    and "js_gateway w (events st) = http" "idempotencyKey no_options (AMessage m) \<notin> set (seen st)"
  shows "case redeemed http c s of
      Inr _ \<Rightarrow> \<exists>a. snd (js_handle w st jm) = [Announced jm a None, Acked jm] \<and> an_hook_id a = msg_id m
    | Inl e \<Rightarrow> snd (js_handle w st jm) =
        (if claim_retryable e then [Naked jm (nak_delay jm)]
         else [DlqPublished jm (ClaimError e) None, Termed jm (ClaimError e)])"
proof -
  have dec: "decodeMessage (Bytes (data jm)) = Inr m"
    using wire_bytes_decode [OF assms(1) claimsD(1,2) [OF assms(2)]] assms(2,3) by (simp add: claims_def)
  have res: "js_resolveBody http m = (case redeemed http c s of Inl e \<Rightarrow> Inl (ClaimError e) | Inr _ \<Rightarrow> Inr ''claim'')"
    by (rule claim_resolves(3) [OF assms(2)])
  have perm: "js_permanent (ClaimError e) \<longleftrightarrow> \<not> claim_retryable e" for e by (cases e) simp_all
  show ?thesis
    using dec res assms(4-6) perm
    by (cases "redeemed http c s")
      (simp_all add: js_handle_def js_try_def js_fail_def js_deadLetter_def announce_def announcement_of_def Let_def)
qed

section \<open>The fate of a message\<close>

text \<open>
  What becomes of a message: processed and settled, given back to be retried, or given up (dropped or
  dead-lettered). \<open>None\<close> is a run that settles nothing.
\<close>

datatype fate = Processed | Retried | GivenUp

definition channel_fate :: "channel_action list \<Rightarrow> fate option" where
  "channel_fate acts =
     (if Ack \<in> set acts then Some Processed else if Nack True \<in> set acts then Some Retried
      else if Nack False \<in> set acts then Some GivenUp else None)"

fun is_hooked :: "sqs_event \<Rightarrow> bool" where
  "is_hooked (Hooked _ _ _ _) = True"
| "is_hooked _ = False"

fun accepted_command :: "(sqs_command \<Rightarrow> bool) \<Rightarrow> sqs_event \<Rightarrow> bool" where
  "accepted_command P (Command _ cmd None) = P cmd"
| "accepted_command P _ = False"

fun is_delete :: "sqs_command \<Rightarrow> bool" where
  "is_delete (DeleteMessage _) = True"
| "is_delete _ = False"

fun is_dead_letter :: "sqs_command \<Rightarrow> bool" where
  "is_dead_letter (SendMessage _ _ _ _) = True"
| "is_dead_letter _ = False"

definition queue_fate :: "sqs_event list \<Rightarrow> fate option" where
  "queue_fate es =
     (if list_ex (accepted_command is_delete) es
      then (if list_ex is_hooked es then Some Processed
            else if list_ex (accepted_command is_dead_letter) es then Some GivenUp else None)
      else if list_ex (accepted_command (\<lambda>cmd. \<not> is_delete cmd \<and> \<not> is_dead_letter cmd)) es then Some Retried else None)"

definition stream_fate :: "js_event list \<Rightarrow> fate option" where
  "stream_fate es =
     (if list_ex (\<lambda>e. case e of Acked _ \<Rightarrow> True | _ \<Rightarrow> False) es then Some Processed
      else if list_ex (\<lambda>e. case e of Termed _ _ \<Rightarrow> True | _ \<Rightarrow> False) es then Some GivenUp
      else if list_ex (\<lambda>e. case e of Naked _ _ \<Rightarrow> True | _ \<Rightarrow> False) es then Some Retried else None)"

text \<open>
  The fate for an answer of the gateway, as the consumer failure policy of \<open>docs/delivery.md\<close> has it: a
  refused claim and bytes with another digest are permanent, an unreachable gateway, 408, 429 and 5xx
  are not.
\<close>

definition gateway_fate :: "js_string \<Rightarrow> byte list fetch_outcome \<Rightarrow> fate" where
  "gateway_fate s a =
     (case a of
        Rejects _ \<Rightarrow> Retried
      | Answers st bs err \<Rightarrow>
          (if st = 200 then (if sha256_hex (case bs of None \<Rightarrow> [] | Some bytes \<Rightarrow> bytes) = s then Processed else GivenUp)
           else if 400 \<le> st \<and> st < 500 \<and> st \<noteq> 408 \<and> st \<noteq> 429 then GivenUp else Retried))"

text \<open>
  The fate the descriptions of the claim-check schema ask for, where they name one: 400, 404, 410 and 502
  are permanent, 503 is to be retried, and 401 and 403 are to be retried and not dead-lettered.
\<close>

definition schema_fate :: "int \<Rightarrow> fate option" where
  "schema_fate st =
     (if st \<in> {400, 404, 410, 502} then Some GivenUp else if st \<in> {401, 403, 503} then Some Retried else None)"

lemma schema_fate_met:
  "schema_fate st = Some f \<Longrightarrow> gateway_fate s (Answers st bs err) = f \<longleftrightarrow> st \<notin> {401, 403, 502}"
  by (auto simp: schema_fate_def gateway_fate_def split: if_splits)

definition result_fate :: "(ClaimCheckError, byte list) result \<Rightarrow> fate" where
  "result_fate r = (case r of Inr _ \<Rightarrow> Processed | Inl e \<Rightarrow> if claim_retryable e then Retried else GivenUp)"

lemma redeemed_fate:
  assumes "claims m c p s"
  shows "result_fate (redeemed http c s) = gateway_fate s (http (claim_request (timeout_of None) p))"
proof (cases "http (claim_request (timeout_of None) p)")
  case (Answers st bs err)
  show ?thesis
  proof (cases "claim_judge st err")
    case None
    then have "st = 200" by (simp add: claim_errors.judge_None)
    with None Answers show ?thesis
      by (simp add: redeemed_def redeem_wf [OF claimsD(7,6) [OF assms]] result_fate_def gateway_fate_def Let_def)
  next
    case (Some e)
    with Answers claim_errors.judge_None [of st err] claim_errors.judge_retryable [of st err e] show ?thesis
      by (simp add: redeemed_def redeem_wf [OF claimsD(7,6) [OF assms]] result_fate_def gateway_fate_def)
  qed
qed (simp add: redeemed_def redeem_wf [OF claimsD(7,6) [OF assms]] result_fate_def gateway_fate_def)

lemma fates_by_result:
  assumes "number_law num" "claims m c p s" "msg_v m = Fin 1"
    and "content d = utf8_encode (wire_text num m)" "\<forall>v. db v = None"
    and "Body q = Some (wire_text num m)" "\<forall>h cmd. aws h cmd = None" "message_group q \<notin> set blocked"
    and "gw (trace st) = http" "\<not> set_has (processed st) (Some (JStr (msg_id m)))"
    and "data jm = utf8_encode (wire_text num m)" "\<forall>h cl. nats w h cl = None" "js_gateway w (events mem) = http"
    and "idempotencyKey no_options (AMessage m) \<notin> set (seen mem)"
  shows "channel_fate (rabbit_handle other http d) = Some (result_fate (redeemed http c s))"
    "channel_fate (snd (fleet_handle other http shown db t d)) = Some (result_fate (redeemed http c s))"
    "queue_fate (drop (length (trace st)) (trace (fst (snd (sqs_step pow other gw aws blocked q st))))) =
      Some (result_fate (redeemed http c s))"
    "stream_fate (snd (js_handle w mem jm)) = Some (result_fate (redeemed http c s))"
proof -
  show "channel_fate (rabbit_handle other http d) = Some (result_fate (redeemed http c s))"
    unfolding rabbit_fate [OF assms(1,2,4)] by (simp add: channel_fate_def result_fate_def split: sum.split)
  show "channel_fate (snd (fleet_handle other http shown db t d)) = Some (result_fate (redeemed http c s))"
    using fleet_fate [OF assms(1,2,4,5), where http = http and other = other and shown = shown and t = t]
    by (simp add: channel_fate_def result_fate_def split: sum.splits)
  show "queue_fate (drop (length (trace st)) (trace (fst (snd (sqs_step pow other gw aws blocked q st))))) =
      Some (result_fate (redeemed http c s))"
    unfolding sqs_fate [where gw = gw, OF assms(1-3,6-10)] by (simp add: queue_fate_def result_fate_def split: sum.split)
  show "stream_fate (snd (js_handle w mem jm)) = Some (result_fate (redeemed http c s))"
    using jets_fate [OF assms(1,2,11-14)] by (auto simp: stream_fate_def result_fate_def split: sum.splits)
qed

section \<open>Properties\<close>

text \<open>
  C5. Four consumers, one fate. Take a well-formed version 1 message with a claim, as \<open>JSON.stringify\<close>
  writes it, that the SQS worker and the JetStream consumer have not processed before and whose SQS
  group is not blocked, and let the brokers, NATS and the database accept every call. Then, whatever
  the claim-check gateway answers, the RabbitMQ worker, the fleet consumer, the SQS worker and the
  JetStream consumer do the same with it, as the consumer failure policy has it: all process it exactly
  for a 200 with the bytes of the announced digest, all give it up for other bytes and for a 4xx except
  408 and 429, and all put it back otherwise. Of the answers for which the gateway's schema names a
  fate this is that fate exactly except for 401, 403 (given up, where the schema asks for a retry) and
  502 (retried, where the schema calls it permanent).
\<close>

theorem consumers_agree:
  assumes "number_law num" "claims m c p s" "msg_v m = Fin 1"
    and "content d = utf8_encode (wire_text num m)" "\<forall>v. db v = None"
    and "Body q = Some (wire_text num m)" "\<forall>h cmd. aws h cmd = None" "message_group q \<notin> set blocked"
    and "gw (trace st) = http" "\<not> set_has (processed st) (Some (JStr (msg_id m)))"
    and "data jm = utf8_encode (wire_text num m)" "\<forall>h cl. nats w h cl = None" "js_gateway w (events mem) = http"
    and "idempotencyKey no_options (AMessage m) \<notin> set (seen mem)"
  shows "[channel_fate (rabbit_handle other http d),
      channel_fate (snd (fleet_handle other http shown db t d)),
      queue_fate (drop (length (trace st)) (trace (fst (snd (sqs_step pow other gw aws blocked q st))))),
      stream_fate (snd (js_handle w mem jm))] =
    replicate 4 (Some (gateway_fate s (http (claim_request (timeout_of None) p)))) \<and>
    (\<forall>code bs err f. schema_fate code = Some f \<longrightarrow>
      (gateway_fate s (Answers code bs err) = f \<longleftrightarrow> code \<notin> {401, 403, 502}))"
  unfolding fates_by_result [where gw = gw, OF assms] redeemed_fate [OF assms(2)]
  using schema_fate_met by (simp add: numeral_eq_Suc)

text \<open>A message with a claim, on each of the brokers, and a gateway that refuses the reader's credential.\<close>

definition claim_message :: Message where
  "claim_message = (example_message (Some (sha256_hex [1, 2])))
     \<lparr>tenant_id := Some (tenantId example_ref), body_base64 := None, msg_claim := Some (claim_urn example_ref), msg_body := None\<rparr>"

lemma claim_message_claims: "claims claim_message (claim_urn example_ref) example_ref (sha256_hex [1, 2])"
  by (simp add: claims_def message_wf_def message_printable_def claim_message_def example_message_def example_ref_parses
      num_of_int_safe sha.hex_pattern)

definition refused :: "byte list http" where
  "refused rq = Answers 401 None (Some (JObj [(js ''error'', JStr (js ''unauthenticated''))]))"

definition claim_text :: js_string where
  "claim_text = wire_text whole_text claim_message"

definition queued_claim :: sqs_message where
  "queued_claim = \<lparr>Body = Some claim_text, MessageId = Some (js ''m''), ReceiptHandle = Some (js ''r''),
     MessageGroupId = Some (js ''g''), ApproximateReceiveCount = None\<rparr>"

definition nats_up :: js_world where
  "nats_up = \<lparr>pod = js ''p'', nats = \<lambda>_ _. None, js_gateway = \<lambda>_. refused, js_clock = \<lambda>_. Fin 0\<rparr>"

theorem consumers_agree_witness:
  "[channel_fate (rabbit_handle (\<lambda>_. None) refused \<lparr>content = utf8_encode claim_text, routingKey = []\<rparr>),
    channel_fate (snd (fleet_handle (\<lambda>_. None) refused (\<lambda>_. []) (\<lambda>_. None) (\<lambda>_. None)
      \<lparr>content = utf8_encode claim_text, routingKey = []\<rparr>)),
    queue_fate (drop 0 (trace (fst (snd (sqs_step (\<lambda>_. NaN) (\<lambda>_. None) (\<lambda>_. refused) (\<lambda>_ _. None) [] queued_claim
      \<lparr>processed = [], trace = []\<rparr>))))),
    stream_fate (snd (js_handle nats_up \<lparr>seen = [], events = []\<rparr> \<lparr>data = utf8_encode claim_text, seq = 7, deliveryCount = 1\<rparr>))] =
   replicate 4 (Some GivenUp)"
proof -
  have "msg_v claim_message = Fin 1" by (simp add: claim_message_def example_message_def)
  note agree = consumers_agree [OF whole_text_law claim_message_claims this, folded claim_text_def]
  have "gateway_fate (sha256_hex [1, 2]) (refused (claim_request (timeout_of None) example_ref)) = GivenUp"
    by (simp add: gateway_fate_def refused_def)
  with agree [where d = "\<lparr>content = utf8_encode claim_text, routingKey = []\<rparr>" and db = "\<lambda>_. None" and q = queued_claim
      and aws = "\<lambda>_ _. None" and blocked = "[]" and gw = "\<lambda>_. refused" and st = "\<lparr>processed = [], trace = []\<rparr>"
      and jm = "\<lparr>data = utf8_encode claim_text, seq = 7, deliveryCount = 1\<rparr>" and w = nats_up and http = refused
      and mem = "\<lparr>seen = [], events = []\<rparr>" and other = "\<lambda>_. None" and shown = "\<lambda>_. []" and t = "\<lambda>_. None"
      and pow = "\<lambda>_. NaN"]
  show ?thesis by (simp add: queued_claim_def nats_up_def set_has_def message_group_def del: replicate.simps)
qed

section \<open>An outage\<close>

text \<open>The deliveries of a message put back so far.\<close>

definition naks :: "js_event list \<Rightarrow> nat" where
  "naks es = length (filter (\<lambda>e. case e of Naked _ _ \<Rightarrow> True | _ \<Rightarrow> False) es)"

text \<open>The \<open>n\<close>-th delivery of a message, as NATS numbers them.\<close>

definition delivered :: "js_msg \<Rightarrow> nat \<Rightarrow> js_msg" where
  "delivered jm n = jm\<lparr>deliveryCount := n\<rparr>"

lemma js_handle_events: "events (fst (js_handle w st jm)) = events st @ snd (js_handle w st jm)"
  by (simp add: js_handle_def split_beta Let_def)

lemma failed_no_nak: "list_all failed_attempt es \<Longrightarrow> naks es = 0"
  by (induction es) (auto simp: naks_def split: js_event.split)

lemma naks_append: "naks (es @ fs) = naks es + naks fs"
  by (simp add: naks_def)

text \<open>
  The events of the \<open>n\<close>-th delivery of a message that was put back: failed attempts at most (a request to
  the ledger that was not answered), and then the message is naked for \<open>n\<close> seconds, at most 10.
\<close>

definition put_back :: "js_msg \<Rightarrow> nat \<Rightarrow> js_event list \<Rightarrow> bool" where
  "put_back jm n es \<longleftrightarrow>
     es \<noteq> [] \<and> list_all failed_attempt (butlast es) \<and> last es = Naked (delivered jm n) (min 10000 (1000 * n))"

lemma js_handle_nak:
  assumes "put_back jm n (snd (js_handle w st (delivered jm n)))"
  shows "seen (fst (js_handle w st (delivered jm n))) = seen st"
    "naks (events (fst (js_handle w st (delivered jm n)))) = Suc (naks (events st))"
proof -
  let ?r = "js_handle w st (delivered jm n)"
  obtain pre where pre: "snd ?r = pre @ [Naked (delivered jm n) (min 10000 (1000 * n))]" "list_all failed_attempt pre"
    using assms by (metis append_butlast_last_id put_back_def)
  have h: "?r = (fst ?r, snd ?r)" by simp
  from js_handle_cases [OF h] show "seen (fst ?r) = seen st"
    by cases (auto simp: pre acked_events_def append_eq_Cons_conv append_eq_append_conv2)
  show "naks (events (fst ?r)) = Suc (naks (events st))"
    using failed_no_nak [OF pre(2)] by (simp add: js_handle_events pre(1) naks_append) (simp add: naks_def)
qed

text \<open>What one delivery of the message does while the gateway and the ledger are up, and while one is down.\<close>

lemma delivery_up:
  assumes "number_law num" "claims m c p s" "data jm = utf8_encode (wire_text num m)"
    and "idempotencyKey no_options (AMessage m) \<notin> set (seen st)"
    and "gateway_fate s (js_gateway w (events st) (claim_request (timeout_of None) p)) = Processed"
    and "\<forall>a. nats w (events st) (Request a) = None"
  shows "\<exists>a. snd (js_handle w st jm) = [Announced jm a None, Acked jm] \<and> an_hook_id a = msg_id m"
proof -
  have dec: "decodeMessage (Bytes (data jm)) = Inr m"
    using wire_bytes_decode [OF assms(1) claimsD(1,2) [OF assms(2)]] assms(2,3) by (simp add: claims_def)
  have "result_fate (redeemed (js_gateway w (events st)) c s) = Processed"
    using assms(5) by (simp add: redeemed_fate [OF assms(2)])
  then have "js_resolveBody (js_gateway w (events st)) m = Inr ''claim''"
    by (auto simp: claim_resolves(3) [OF assms(2)] result_fate_def split: sum.splits if_splits)
  with dec assms(4,6) show ?thesis
    by (simp add: js_handle_def js_try_def announce_def announcement_of_def Let_def)
qed

lemma delivery_down:
  assumes "number_law num" "claims m c p s" "data jm = utf8_encode (wire_text num m)"
    and "idempotencyKey no_options (AMessage m) \<notin> set (seen st)"
    and "gateway_fate s (js_gateway w (events st) (claim_request (timeout_of None) p)) = Retried \<or>
      gateway_fate s (js_gateway w (events st) (claim_request (timeout_of None) p)) = Processed \<and>
      (\<forall>a. nats w (events st) (Request a) \<noteq> None)"
  shows "put_back jm n (snd (js_handle w st (delivered jm n)))"
proof -
  have dec: "decodeMessage (Bytes (data jm)) = Inr m"
    using wire_bytes_decode [OF assms(1) claimsD(1,2) [OF assms(2)]] assms(2,3) by (simp add: claims_def)
  let ?r = "redeemed (js_gateway w (events st)) c s"
  note fate = redeemed_fate [OF assms(2), of "js_gateway w (events st)"]
  have perm: "js_permanent (ClaimError e) \<longleftrightarrow> \<not> claim_retryable e" for e by (cases e) simp_all
  consider e where "?r = Inl e" "claim_retryable e" | body where "?r = Inr body" "\<forall>a. nats w (events st) (Request a) \<noteq> None"
    using assms(5) by (auto simp: fate [symmetric] result_fate_def split: sum.splits if_splits)
  then show ?thesis
  proof cases
    case 1
    with dec assms(4) perm show ?thesis
      by (simp add: put_back_def delivered_def js_handle_def js_try_def js_fail_def nak_delay_def Let_def
          claim_resolves(3) [OF assms(2)])
  next
    case 2
    with dec assms(4) show ?thesis
      by (auto simp: put_back_def delivered_def js_handle_def js_try_def js_fail_def nak_delay_def announce_def Let_def
          claim_resolves(3) [OF assms(2)] split: option.split)
  qed
qed

lemma outage_steps:
  assumes "number_law num" "claims m c p s" "data jm = utf8_encode (wire_text num m)"
    and "\<forall>h. let f = gateway_fate s (js_gateway w h (claim_request (timeout_of None) p))
      in if naks h < k then f = Retried \<or> f = Processed \<and> (\<forall>a. nats w h (Request a) \<noteq> None)
         else f = Processed \<and> (\<forall>a. nats w h (Request a) = None)"
    and "idempotencyKey no_options (AMessage m) \<notin> set (seen st)" "naks (events st) = n" "n + j = k"
  shows "\<exists>ess a. snd (run_consumer (js_handle w) st (map (delivered jm) [Suc n..<k + 2])) =
      ess @ [[Announced (delivered jm (Suc k)) a None, Acked (delivered jm (Suc k))]] \<and>
      list_all2 (put_back jm) [Suc n..<Suc k] ess \<and> an_hook_id a = msg_id m"
  using assms(5-7)
proof (induction j arbitrary: st n)
  case 0
  have d: "data (delivered jm (Suc k)) = utf8_encode (wire_text num m)" using assms(3) by (simp add: delivered_def)
  have "\<exists>a. snd (js_handle w st (delivered jm (Suc k))) = [Announced (delivered jm (Suc k)) a None, Acked (delivered jm (Suc k))] \<and>
      an_hook_id a = msg_id m"
    using assms(4) 0 by (intro delivery_up [OF assms(1,2) d]) (simp_all add: Let_def)
  with 0 show ?case by (auto simp: split_beta)
next
  case (Suc j)
  let ?jm = "delivered jm (Suc n)"
  have "naks (events st) < k" using Suc.prems by simp
  with spec [OF assms(4), of "events st"] have nak: "put_back jm (Suc n) (snd (js_handle w st ?jm))"
    by (intro delivery_down [OF assms(1-3) Suc.prems(1)]) (simp add: Let_def)
  from Suc.IH [of "fst (js_handle w st ?jm)" "Suc n"] Suc.prems js_handle_nak [OF nak]
  obtain ess a where a: "snd (run_consumer (js_handle w) (fst (js_handle w st ?jm)) (map (delivered jm) [Suc (Suc n)..<k + 2])) =
      ess @ [[Announced (delivered jm (Suc k)) a None, Acked (delivered jm (Suc k))]]"
    "list_all2 (put_back jm) [Suc (Suc n)..<Suc k] ess" "an_hook_id a = msg_id m"
    by auto
  have "[Suc n..<k + 2] = Suc n # [Suc (Suc n)..<k + 2]" "[Suc n..<Suc k] = Suc n # [Suc (Suc n)..<Suc k]"
    using Suc.prems(3) by (simp_all add: upt_conv_Cons)
  with a nak show ?case
    by (intro exI [of _ "snd (js_handle w st ?jm) # ess"] exI [of _ a]) (simp add: split_beta)
qed

text \<open>
  C12. An outage of the gateway or of the ledger only delays a message. Take a message with a claim that is
  delivered again and again, and suppose that at each of the first \<open>k\<close> deliveries the gateway is
  unreachable or answers so that a retry is due, or the gateway holds the bytes and the request to the
  ledger over NATS fails, and that after \<open>k\<close> deliveries put back the gateway holds the bytes and NATS
  accepts the request. Then the JetStream consumer puts the message back \<open>k\<close> times, after 1, 2, 3 and so
  on up to 10 seconds, with nothing but failed requests in between, and processes it at the next
  delivery, announcing it and acking it once.
\<close>

theorem outage_recovers:
  assumes "number_law num" "claims m c p s" "data jm = utf8_encode (wire_text num m)"
    and "\<forall>h. let f = gateway_fate s (js_gateway w h (claim_request (timeout_of None) p))
      in if naks h < k then f = Retried \<or> f = Processed \<and> (\<forall>a. nats w h (Request a) \<noteq> None)
         else f = Processed \<and> (\<forall>a. nats w h (Request a) = None)"
  shows "\<exists>ess a. snd (js_main w (map (delivered jm) [1..<k + 2])) =
      ess @ [[Announced (delivered jm (k + 1)) a None, Acked (delivered jm (k + 1))]] \<and>
      list_all2 (put_back jm) [1..<k + 1] ess \<and> an_hook_id a = msg_id m"
  using outage_steps [OF assms, of "\<lparr>seen = [], events = []\<rparr>" 0 k] by (simp add: js_main_def naks_def)

text \<open>A gateway that is down for the first delivery, and a ledger that is down for the second.\<close>

definition recovering :: js_world where
  "recovering = \<lparr>pod = js ''p'', nats = \<lambda>h _. if naks h = 1 then Some (js ''timeout'') else None,
     js_gateway = \<lambda>h rq. if naks h = 0 then Answers 503 None None else Answers 200 (Some [1, 2]) None,
     js_clock = \<lambda>_. Fin 0\<rparr>"

theorem outage_recovers_witness:
  "\<exists>ess a. snd (js_main recovering (map (delivered \<lparr>data = utf8_encode claim_text, seq = 7, deliveryCount = 0\<rparr>) [1, 2, 3])) =
     ess @ [[Announced \<lparr>data = utf8_encode claim_text, seq = 7, deliveryCount = 3\<rparr> a None,
       Acked \<lparr>data = utf8_encode claim_text, seq = 7, deliveryCount = 3\<rparr>]] \<and>
     map last ess =
      [Naked \<lparr>data = utf8_encode claim_text, seq = 7, deliveryCount = 1\<rparr> 1000,
       Naked \<lparr>data = utf8_encode claim_text, seq = 7, deliveryCount = 2\<rparr> 2000] \<and> an_hook_id a = js ''01J9''"
proof -
  let ?jm = "\<lparr>data = utf8_encode claim_text, seq = 7, deliveryCount = 0\<rparr>"
  have world: "\<forall>h. let f = gateway_fate (sha256_hex [1, 2]) (js_gateway recovering h (claim_request (timeout_of None) example_ref))
      in if naks h < 2 then f = Retried \<or> f = Processed \<and> (\<forall>a. nats recovering h (Request a) \<noteq> None)
         else f = Processed \<and> (\<forall>a. nats recovering h (Request a) = None)"
    by (auto simp: recovering_def gateway_fate_def Let_def less_2_cases_iff)
  have i: "msg_id claim_message = js ''01J9''" by (simp add: claim_message_def example_message_def)
  have steps: "[1..<2 + 2] = [1, 2, 3 :: nat]" "[1..<2 + 1] = [1, 2 :: nat]" "(2 :: nat) + 1 = 3" by (simp_all add: upt_rec)
  have "data ?jm = utf8_encode (wire_text whole_text claim_message)" by (simp add: claim_text_def)
  from outage_recovers [OF whole_text_law claim_message_claims this world] show ?thesis
    unfolding steps(1,2) i unfolding steps(3) by (auto simp: delivered_def put_back_def list_all2_Cons1)
qed

end
