(* ===== verification/Conformance_Vectors.thy ===== *)
theory Conformance_Vectors
  imports Js_Coerce Http
begin

text \<open>
  The first half of \<open>conformance/check.mjs\<close>: validating the shared conformance vectors before any
  SDK runs against them. The files are read already (their arrays are the arguments); the checks,
  the problems they report and the places where the script itself would throw are modelled. The
  theorem is that no problem is reported exactly when the vectors satisfy a declarative description
  of a valid set.
\<close>

section \<open>Problems\<close>

datatype check_error =
    DuplicateFeature "json option"
  | MissingField nat js_string string
  | DuplicateCase json js_string
  | UnknownFeature json js_string json
  | UnknownOperation json js_string json
  | ExpectForm json js_string
  | ErrorClass json js_string
  | MustNotRetry json js_string js_string
  | NoCases "json option"
  | NotRegistered js_string
  | NoPackage js_string

text \<open>A problem whose text interpolates the values; \<open>None\<close> when that throws.\<close>

definition report :: "json option list \<Rightarrow> check_error \<Rightarrow> check_error list option" where
  "report shown e = (if template_throws shown then None else Some [e])"

text \<open>Checks in sequence: all their problems, or the throw of the first that throws.\<close>

fun checks :: "check_error list option list \<Rightarrow> check_error list option" where
  "checks [] = Some []"
| "checks (c # cs) = (case c of None \<Rightarrow> None | Some es \<Rightarrow> map_option (append es) (checks cs))"

section \<open>Features\<close>

fun check_features :: "json option list \<Rightarrow> json list \<Rightarrow> check_error list option" where
  "check_features ids [] = Some []"
| "check_features ids (f # fs) =
     (if f = JNull then None
      else checks
        [if set_has ids (json_field f ''id'') then report [json_field f ''id''] (DuplicateFeature (json_field f ''id''))
         else Some [],
         check_features (ids @ [json_field f ''id'']) fs])"

section \<open>Cases\<close>

definition case_fields :: "string list" where
  "case_fields = [''id'', ''feature'', ''operation'', ''input'', ''expect'']"

definition PERMANENT_ERRORS :: "js_string list" where
  "PERMANENT_ERRORS = [js ''InvalidMessageError'', js ''InvalidSignatureError'']"

text \<open>\<open>raw !== null && typeof raw === "object" ? raw : {}\<close>, by its own properties.\<close>

fun case_object :: "json \<Rightarrow> json_object" where
  "case_object (JObj ob) = ob"
| "case_object _ = []"

text \<open>\<open>expect.error?.class\<close>, and \<open>expect.error.retryable\<close> after it is known to be an object.\<close>

definition expect_class :: "json_object \<Rightarrow> js_string option" where
  "expect_class ob =
     (case map_of ob (js ''error'') of
        Some e \<Rightarrow> (case json_field e ''class'' of Some (JStr s) \<Rightarrow> Some s | _ \<Rightarrow> None)
      | None \<Rightarrow> None)"

definition expect_retryable :: "json_object \<Rightarrow> json option" where
  "expect_retryable ob = Option.bind (map_of ob (js ''error'')) (\<lambda>e. json_field e ''retryable'')"

definition check_expect_object :: "json \<Rightarrow> js_string \<Rightarrow> json_object \<Rightarrow> check_error list option" where
  "check_expect_object cid file ob =
     (let hasOk = (map_of ob (js ''ok'') \<noteq> None); hasError = (map_of ob (js ''error'') \<noteq> None)
      in if hasOk = hasError then report [Some cid] (ExpectForm cid file)
         else if hasError then
           (case expect_class ob of
              None \<Rightarrow> report [Some cid] (ErrorClass cid file)
            | Some cls \<Rightarrow>
                (if cls \<in> set PERMANENT_ERRORS \<and> expect_retryable ob \<noteq> Some (JBool False)
                 then report [Some cid] (MustNotRetry cid file cls) else Some []))
         else Some [])"

text \<open>\<open>"ok" in expect\<close> throws when \<open>expect\<close> is neither an object nor nullish.\<close>

fun check_expect :: "json \<Rightarrow> js_string \<Rightarrow> json \<Rightarrow> check_error list option" where
  "check_expect cid file JNull = check_expect_object cid file []"
| "check_expect cid file (JObj ob) = check_expect_object cid file ob"
| "check_expect cid file (JArr _) = check_expect_object cid file []"
| "check_expect cid file _ = None"

definition check_optional_field :: "json_object \<Rightarrow> string \<Rightarrow> (json \<Rightarrow> check_error list option) \<Rightarrow> check_error list option" where
  "check_optional_field c field f = (case map_of c (js field) of None \<Rightarrow> Some [] | Some v \<Rightarrow> f v)"

definition check_case ::
  "json option list \<Rightarrow> json option list \<Rightarrow> json option list \<Rightarrow> js_string \<Rightarrow> nat \<Rightarrow> json \<Rightarrow> check_error list option" where
  "check_case featureIds operations seen file i raw =
     (let c = case_object raw
      in checks
           [Some (map (MissingField i file) (filter (\<lambda>field. map_of c (js field) = None) case_fields)),
            check_optional_field c ''id'' (\<lambda>cid. checks
              [if set_has seen (Some cid) then report [Some cid] (DuplicateCase cid file) else Some [],
               check_optional_field c ''feature'' (\<lambda>f.
                 if \<not> set_has featureIds (Some f) then report [Some cid, Some f] (UnknownFeature cid file f) else Some []),
               check_optional_field c ''operation'' (\<lambda>o1.
                 if \<not> set_has operations (Some o1) then report [Some cid, Some o1] (UnknownOperation cid file o1) else Some []),
               check_optional_field c ''expect'' (check_expect cid file)])])"

text \<open>The loop over the cases of all files, in order, with the case ids seen so far.\<close>

definition case_id :: "json \<Rightarrow> json option" where
  "case_id raw = map_of (case_object raw) (js ''id'')"

fun check_cases ::
  "json option list \<Rightarrow> json option list \<Rightarrow> json option list \<Rightarrow> (js_string \<times> nat \<times> json) list \<Rightarrow> check_error list option" where
  "check_cases featureIds operations seen [] = Some []"
| "check_cases featureIds operations seen ((file, i, raw) # cs) =
     checks
       [check_case featureIds operations seen file i raw,
        check_cases featureIds operations (case case_id raw of None \<Rightarrow> seen | v \<Rightarrow> seen @ [v]) cs]"

text \<open>The features counted, one for each case with an id and a known feature.\<close>

definition counted :: "json option list \<Rightarrow> (js_string \<times> nat \<times> json) list \<Rightarrow> json option list" where
  "counted featureIds cs =
     filter (set_has featureIds) (map (\<lambda>(file, i, raw). map_of (case_object raw) (js ''feature''))
       (filter (\<lambda>(file, i, raw). case_id raw \<noteq> None \<and> map_of (case_object raw) (js ''feature'') \<noteq> None) cs))"

section \<open>The whole validation\<close>

text \<open>The cases of a file with their index in it.\<close>

definition indexed :: "(js_string \<times> json list) list \<Rightarrow> (js_string \<times> nat \<times> json) list" where
  "indexed files = concat (map (\<lambda>(file, cs). map (\<lambda>(i, raw). (file, i, raw)) (zip [0..<length cs] cs)) files)"

definition check_conformance ::
  "json list \<Rightarrow> json list \<Rightarrow> (js_string \<times> json list) list \<Rightarrow> js_string list \<Rightarrow> json_object \<Rightarrow> check_error list option" where
  "check_conformance features operations files packageNames sdks =
     (let featureIds = map (\<lambda>f. json_field f ''id'') features; cs = indexed files
      in checks
           ([check_features [] features,
             check_cases featureIds (map Some operations) [] cs] @
            map (\<lambda>f. if set_has (counted featureIds cs) (json_field f ''id'') then Some []
                     else report [json_field f ''id''] (NoCases (json_field f ''id''))) features @
            [Some (map NotRegistered (filter (\<lambda>name. map_of sdks name = None) packageNames)),
             Some (map (NoPackage \<circ> fst) (filter (\<lambda>(name, _). name \<notin> set packageNames) sdks))]))"

section \<open>A valid set of vectors\<close>

text \<open>What a case expects: a result, or an error with a class, which a permanent class must call final.\<close>

definition valid_expect :: "json \<Rightarrow> bool" where
  "valid_expect v =
     (case v of
        JObj ob \<Rightarrow>
          (if map_of ob (js ''error'') = None then map_of ob (js ''ok'') \<noteq> None
           else map_of ob (js ''ok'') = None \<and>
             (case expect_class ob of
                None \<Rightarrow> False
              | Some cls \<Rightarrow> cls \<notin> set PERMANENT_ERRORS \<or> expect_retryable ob = Some (JBool False)))
      | _ \<Rightarrow> False)"

definition valid_case :: "json option list \<Rightarrow> json option list \<Rightarrow> json \<Rightarrow> bool" where
  "valid_case featureIds operations raw =
     (list_all (\<lambda>field. json_field raw field \<noteq> None) case_fields \<and>
      set_has featureIds (json_field raw ''feature'') \<and> set_has operations (json_field raw ''operation'') \<and>
      (case json_field raw ''expect'' of None \<Rightarrow> False | Some v \<Rightarrow> valid_expect v))"

declare checks.simps [simp del]

lemma checks_Nil: "checks cs = Some [] \<longleftrightarrow> list_all (\<lambda>c. c = Some []) cs"
  by (induction cs) (auto simp: checks.simps split: option.split)

lemma report_not_Nil [simp]: "report shown e \<noteq> Some []"
  by (simp add: report_def)

lemma check_expect_Nil: "check_expect cid file v = Some [] \<longleftrightarrow> valid_expect v"
  by (cases v) (auto simp: valid_expect_def check_expect_object_def Let_def split: option.split)

lemma case_object_field: "map_of (case_object raw) (js k) = json_field raw k"
  by (cases raw) simp_all

lemma check_case_Nil:
  "check_case featureIds operations seen file i raw = Some [] \<longleftrightarrow>
     valid_case featureIds operations raw \<and> \<not> set_has seen (case_id raw)"
proof (cases "list_all (\<lambda>field. json_field raw field \<noteq> None) case_fields")
  case True
  then obtain a b c d e where "json_field raw ''id'' = Some a" "json_field raw ''feature'' = Some b"
    "json_field raw ''operation'' = Some c" "json_field raw ''expect'' = Some e"
    by (auto simp: case_fields_def)
  with True show ?thesis
    by (auto simp: check_case_def checks_Nil check_optional_field_def case_object_field case_id_def valid_case_def
        check_expect_Nil filter_empty_conv list_all_iff Let_def)
next
  case False
  then have "filter (\<lambda>field. json_field raw field = None) case_fields \<noteq> []"
    by (auto simp: filter_empty_conv list_all_iff)
  with False show ?thesis
    by (simp add: check_case_def checks_Nil case_object_field valid_case_def Let_def)
qed

lemma valid_case_id: "valid_case featureIds operations raw \<Longrightarrow> \<exists>v. case_id raw = Some v"
  by (simp add: valid_case_def case_fields_def case_id_def case_object_field)

lemma check_features_Nil:
  assumes "distinct (filter (\<lambda>v. \<not> is_reference v) ids)"
  shows "check_features ids fs = Some [] \<longleftrightarrow>
    list_all (\<lambda>f. f \<noteq> JNull) fs \<and> distinct (filter (\<lambda>v. \<not> is_reference v) (ids @ map (\<lambda>f. json_field f ''id'') fs))"
  using assms
proof (induction fs arbitrary: ids)
  case (Cons f fs)
  show ?case
  proof (cases "set_has ids (json_field f ''id'')")
    case True
    then show ?thesis by (simp add: checks_Nil) (auto simp: set_has_def)
  next
    case False
    with Cons.prems have "distinct (filter (\<lambda>v. \<not> is_reference v) (ids @ [json_field f ''id'']))"
      by (auto simp: set_has_def)
    from Cons.IH [OF this] False show ?thesis by (auto simp: checks_Nil)
  qed
qed simp

lemma check_cases_Nil:
  assumes "distinct (filter (\<lambda>v. \<not> is_reference v) seen)"
  shows "check_cases featureIds operations seen cs = Some [] \<longleftrightarrow>
    list_all (\<lambda>(file, i, raw). valid_case featureIds operations raw) cs \<and>
    distinct (filter (\<lambda>v. \<not> is_reference v) (seen @ map (\<lambda>(file, i, raw). case_id raw) cs))"
  using assms
proof (induction cs arbitrary: seen)
  case (Cons c cs)
  obtain name i raw where c: "c = (name, i, raw)" by (cases c)
  show ?case
  proof (cases "valid_case featureIds operations raw \<and> \<not> set_has seen (case_id raw)")
    case True
    then obtain v where v: "case_id raw = Some v" using valid_case_id by blast
    with True Cons.prems have "distinct (filter (\<lambda>v. \<not> is_reference v) (seen @ [Some v]))"
      by (auto simp: set_has_def)
    from Cons.IH [OF this] True v show ?thesis by (auto simp: c checks_Nil check_case_Nil)
  next
    case False
    then show ?thesis by (auto simp: c checks_Nil check_case_Nil) (auto simp: set_has_def)
  qed
qed simp

text \<open>The checks that report nothing, as a description of the vectors.\<close>

lemma check_conformance_valid:
  "check_conformance features operations files packageNames sdks = Some [] \<longleftrightarrow>
     (let ids = map (\<lambda>f. json_field f ''id'') features;
          cases = map (\<lambda>(file, i, raw). raw) (indexed files)
      in list_all (\<lambda>f. f \<noteq> JNull) features \<and> distinct ids \<and> list_all (\<lambda>v. \<not> is_reference v) ids \<and>
         list_all (\<lambda>v. list_ex (\<lambda>raw. json_field raw ''feature'' = v) cases) ids \<and>
         list_all (valid_case ids (map Some operations)) cases \<and>
         distinct (filter (\<lambda>v. \<not> is_reference v) (map case_id cases)) \<and>
         list_all (\<lambda>name. map_of sdks name \<noteq> None) packageNames \<and> set (map fst sdks) \<subseteq> set packageNames)"
proof -
  let ?ids = "map (\<lambda>f. json_field f ''id'') features"
  let ?cs = "indexed files"
  let ?cases = "map (\<lambda>(file, i, raw). raw) ?cs"
  have has: "list_all (\<lambda>f. set_has (counted ?ids ?cs) (json_field f ''id'')) features \<longleftrightarrow>
      list_all (\<lambda>v. \<not> is_reference v) ?ids \<and> list_all (\<lambda>v. list_ex (\<lambda>raw. json_field raw ''feature'' = v) ?cases) ?ids"
    if "list_all (valid_case ?ids (map Some operations)) ?cases"
  proof -
    have eq: "set (counted ?ids ?cs) = (\<lambda>raw. json_field raw ''feature'') ` set ?cases"
      using that unfolding counted_def case_id_def case_object_field
      by (force simp: list_all_iff valid_case_def case_fields_def)
    have "set_has (counted ?ids ?cs) v \<longleftrightarrow> \<not> is_reference v \<and> list_ex (\<lambda>raw. json_field raw ''feature'' = v) ?cases" for v
      unfolding set_has_def list_ex_iff eq by blast
    then show ?thesis unfolding list.pred_map comp_def by (auto simp: list_all_iff)
  qed
  have ids: "filter (\<lambda>v. \<not> is_reference v) ?ids = ?ids" if "list_all (\<lambda>v. \<not> is_reference v) ?ids"
    using that by (auto simp: filter_id_conv list_all_iff)
  have fs: "check_features [] features = Some [] \<longleftrightarrow>
      list_all (\<lambda>f. f \<noteq> JNull) features \<and> distinct (filter (\<lambda>v. \<not> is_reference v) ?ids)"
    by (simp add: check_features_Nil)
  have cases: "check_cases ?ids (map Some operations) [] ?cs = Some [] \<longleftrightarrow>
      list_all (valid_case ?ids (map Some operations)) ?cases \<and>
      distinct (filter (\<lambda>v. \<not> is_reference v) (map case_id ?cases))"
    by (simp add: check_cases_Nil list.pred_map comp_def split_def)
  have nocases: "list_all (\<lambda>c. c = Some []) (map (\<lambda>f. if P f then Some [] else report (g f) (h f)) xs) \<longleftrightarrow> list_all P xs"
    for P :: "json \<Rightarrow> bool" and g h xs
    by (induction xs) auto
  have regs: "Some (map NotRegistered (filter (\<lambda>name. map_of sdks name = None) packageNames)) = Some [] \<longleftrightarrow>
      list_all (\<lambda>name. map_of sdks name \<noteq> None) packageNames"
    "Some (map (NoPackage \<circ> fst) (filter (\<lambda>(name, _). name \<notin> set packageNames) sdks)) = Some [] \<longleftrightarrow>
      set (map fst sdks) \<subseteq> set packageNames"
    by (auto simp: filter_empty_conv list_all_iff)
  have "check_conformance features operations files packageNames sdks = Some [] \<longleftrightarrow>
      (list_all (\<lambda>f. f \<noteq> JNull) features \<and> distinct (filter (\<lambda>v. \<not> is_reference v) ?ids)) \<and>
      (list_all (valid_case ?ids (map Some operations)) ?cases \<and>
       distinct (filter (\<lambda>v. \<not> is_reference v) (map case_id ?cases))) \<and>
      list_all (\<lambda>f. set_has (counted ?ids ?cs) (json_field f ''id'')) features \<and>
      list_all (\<lambda>name. map_of sdks name \<noteq> None) packageNames \<and> set (map fst sdks) \<subseteq> set packageNames"
    unfolding check_conformance_def Let_def checks_Nil list.pred_inject list_all_append fs cases nocases regs
    by simp
  then show ?thesis unfolding Let_def using has ids by metis
qed


section \<open>Properties\<close>

text \<open>
  C34. The validation reports nothing exactly for a valid set of vectors: every feature is declared
  once, under an id that can be compared, and has at least one case; every case has its five fields,
  a known feature, a known operation and a well-formed expectation in which a permanent error is
  never retryable; no two cases share an id; and the registered SDKs are exactly the packages.
\<close>

theorem check_conformance_iff:
  "check_conformance features operations files packageNames sdks = Some [] \<longleftrightarrow>
     (let ids = map (\<lambda>f. json_field f ''id'') features;
          cases = map (\<lambda>(file, i, raw). raw) (indexed files)
      in list_all (\<lambda>f. f \<noteq> JNull) features \<and> distinct ids \<and> list_all (\<lambda>v. \<not> is_reference v) ids \<and>
         list_all (\<lambda>v. list_ex (\<lambda>raw. json_field raw ''feature'' = v) cases) ids \<and>
         list_all (valid_case ids (map Some operations)) cases \<and>
         distinct (filter (\<lambda>v. \<not> is_reference v) (map case_id cases)) \<and>
         list_all (\<lambda>name. map_of sdks name \<noteq> None) packageNames \<and> set (map fst sdks) \<subseteq> set packageNames)"
  by (rule check_conformance_valid)

end
