(* ===== verification/Conformance_Pool.thy ===== *)
theory Conformance_Pool
  imports Js_Coerce "HOL-Library.List_Lexorder" "HOL-Library.Multiset"
begin

text \<open>
  How \<open>conformance/check.mjs\<close> runs the registered SDKs: a bounded pool of asynchronous workers that
  share one queue. The pool is a step relation, so that the workers take SDKs and finish them in
  any order. The lemmas show that, whatever the interleaving, the pool ends, every SDK has run
  exactly once and to completion, and the exit code is the verdict over all of them.
\<close>

section \<open>One SDK\<close>

text \<open>How a spawned command ends: it could not start, or it closed with a status or a signal.\<close>

datatype child_end = SpawnError | Closed "int option" bool

fun child_code :: "child_end \<Rightarrow> int" where
  "child_code SpawnError = 1"
| "child_code (Closed (Some status) _) = status"
| "child_code (Closed None signalled) = (if signalled then 1 else 0)"

text \<open>\<open>runSdk(name)\<close> on how its setup commands and its run command end; the first failure ends it.\<close>

fun runSdk :: "child_end list \<Rightarrow> int" where
  "runSdk [] = 0"
| "runSdk (e # es) = (let code = child_code e in if code \<noteq> 0 then code else runSdk es)"

lemma runSdk_fails: "runSdk es \<noteq> 0 \<longleftrightarrow> (\<exists>e\<in>set es. child_code e \<noteq> 0)"
  by (induction es) (auto simp: Let_def)

section \<open>The pool\<close>

text \<open>\<open>a || b\<close> on a number, \<open>Math.max(1, n)\<close>, and the length of \<open>Array.from({length: n})\<close>.\<close>

definition num_or :: "js_number \<Rightarrow> js_number \<Rightarrow> js_number" where
  "num_or a b = (if a = NaN \<or> a = Fin 0 then b else a)"

definition num_max :: "js_number \<Rightarrow> js_number \<Rightarrow> js_number" where
  "num_max a b = (if a = NaN \<or> b = NaN then NaN else if num_less a b then b else a)"

fun to_length :: "js_number \<Rightarrow> nat" where
  "to_length (Fin q) = min (nat (floor q)) (2 ^ 53 - 1)"
| "to_length PosInf = 2 ^ 53 - 1"
| "to_length _ = 0"

definition CONCURRENCY :: "js_string option \<Rightarrow> nat \<Rightarrow> js_number" where
  "CONCURRENCY jobs parallelism =
     num_max (Fin 1)
       (num_min (num_or (case jobs of None \<Rightarrow> NaN | Some s \<Rightarrow> num_of_string s) (Fin 4)) (Fin (of_nat parallelism)))"

definition pool_size :: "js_string option \<Rightarrow> nat \<Rightarrow> js_string list \<Rightarrow> nat" where
  "pool_size jobs parallelism names =
     to_length (num_min (CONCURRENCY jobs parallelism) (Fin (of_nat (length names))))"

text \<open>The shared queue, what each worker runs (\<open>None\<close> between two SDKs), and the results.\<close>

record pool =
  queue :: "js_string list"
  workers :: "js_string option list"
  results :: "js_string \<Rightarrow> int option"

definition pool_init :: "nat \<Rightarrow> js_string list \<Rightarrow> pool" where
  "pool_init n names = \<lparr>queue = names, workers = replicate n None, results = (\<lambda>_. None)\<rparr>"

text \<open>A worker shifts the next SDK off the queue, or its SDK ends and the result is recorded.\<close>

inductive pool_step :: "(js_string \<Rightarrow> int) \<Rightarrow> pool \<Rightarrow> pool \<Rightarrow> bool" for code where
  take: "i < length (workers p) \<Longrightarrow> workers p ! i = None \<Longrightarrow> queue p = name # rest \<Longrightarrow>
     pool_step code p (p\<lparr>queue := rest, workers := (workers p)[i := Some name]\<rparr>)"
| finish: "i < length (workers p) \<Longrightarrow> workers p ! i = Some name \<Longrightarrow>
     pool_step code p (p\<lparr>workers := (workers p)[i := None], results := (results p)(name \<mapsto> code name)\<rparr>)"

inductive_cases pool_stepE: "pool_step code p q"

text \<open>The promise of the pool resolves when no worker can go on.\<close>

definition pool_done :: "pool \<Rightarrow> bool" where
  "pool_done p \<longleftrightarrow> queue p = [] \<and> list_all (\<lambda>w. w = None) (workers p)"

text \<open>The names of the registered SDKs, in the order of the queue, and the process's exit code.\<close>

definition sdk_queue :: "json_object \<Rightarrow> js_string list" where
  "sdk_queue sdks = sort (map fst sdks)"

definition exit_code :: "js_string list \<Rightarrow> pool \<Rightarrow> int" where
  "exit_code names p =
     (if list_ex (\<lambda>name. case results p name of Some c \<Rightarrow> c \<noteq> 0 | None \<Rightarrow> False) names then 1 else 0)"

section \<open>The invariant\<close>

definition running :: "pool \<Rightarrow> js_string list" where
  "running p = List.map_filter id (workers p)"

definition finished :: "js_string list \<Rightarrow> pool \<Rightarrow> js_string list" where
  "finished names p = filter (\<lambda>name. results p name \<noteq> None) names"

text \<open>Every SDK is in exactly one place: the queue, a worker or the results, with its own code.\<close>

definition pool_ok :: "(js_string \<Rightarrow> int) \<Rightarrow> nat \<Rightarrow> js_string list \<Rightarrow> pool \<Rightarrow> bool" where
  "pool_ok code n names p \<longleftrightarrow>
     length (workers p) = n \<and>
     mset (queue p) + mset (running p) + mset (finished names p) = mset names \<and>
     (\<forall>name c. results p name = Some c \<longrightarrow> name \<in> set names \<and> c = code name)"

lemma mset_running_update:
  assumes "i < length ws" "ws ! i = None"
  shows "mset (List.map_filter id (ws[i := Some x])) = add_mset x (mset (List.map_filter id ws))"
  using assms
proof (induction ws arbitrary: i)
  case (Cons w ws)
  then show ?case by (cases i) (auto simp: map_filter_simps split: option.split)
qed simp

lemma mset_running_clear:
  assumes "i < length ws" "ws ! i = Some x"
  shows "mset (List.map_filter id ws) = add_mset x (mset (List.map_filter id (ws[i := None])))"
  using assms
proof (induction ws arbitrary: i)
  case (Cons w ws)
  then show ?case by (cases i) (auto simp: map_filter_simps split: option.split)
qed simp

lemma running_le: "length (running p) \<le> length (workers p)"
proof -
  have "length (List.map_filter id ws) \<le> length ws" for ws :: "'a option list"
    by (induction ws) (auto simp: map_filter_simps split: option.split)
  then show ?thesis by (simp add: running_def)
qed

lemma finished_add:
  assumes "distinct names" "name \<in> set names" "results p name = None"
  shows "mset (finished names (p\<lparr>results := (results p)(name \<mapsto> c)\<rparr>)) = add_mset name (mset (finished names p))"
  using assms
proof (induction names)
  case (Cons x names)
  show ?case
  proof (cases "x = name")
    case True
    with Cons.prems have "name \<notin> set names" by simp
    then have "filter (\<lambda>m. ((results p)(name \<mapsto> c)) m \<noteq> None) names = filter (\<lambda>m. results p m \<noteq> None) names"
      by (intro filter_cong) auto
    with True Cons.prems show ?thesis by (simp add: finished_def)
  next
    case False
    with Cons show ?thesis by (auto simp: finished_def)
  qed
qed simp

lemma pool_ok_unfinished:
  assumes "pool_ok code n names p" "distinct names" "name \<in> set (running p)"
  shows "name \<in> set names" "results p name = None"
proof -
  have eq: "mset (queue p @ running p @ finished names p) = mset names"
    using assms(1) by (simp add: pool_ok_def add.assoc)
  have "distinct (queue p @ running p @ finished names p)"
    using mset_eq_imp_distinct_iff [OF eq] assms(2) by blast
  with assms(3) have "name \<notin> set (finished names p)" by auto
  moreover show "name \<in> set names" using assms(3) mset_eq_setD [OF eq] by auto
  ultimately show "results p name = None" by (simp add: finished_def)
qed

lemma pool_step_ok:
  assumes "pool_step code p q" "pool_ok code n names p" "distinct names"
  shows "pool_ok code n names q \<and> 2 * length (queue p) + length (running p) = Suc (2 * length (queue q) + length (running q))"
  using assms(1)
proof (cases rule: pool_step.cases)
  case (take i name rest)
  have "mset (running q) = add_mset name (mset (running p))"
    using mset_running_update [OF take(2,3)] by (simp add: running_def take(1))
  moreover from this have "length (running q) = Suc (length (running p))" by (metis size_add_mset size_mset)
  ultimately show ?thesis using take assms(2) by (auto simp: pool_ok_def finished_def)
next
  case (finish i name)
  have run: "mset (running p) = add_mset name (mset (running q))"
    using mset_running_clear [OF finish(2,3)] by (simp add: running_def finish(1))
  then have len: "length (running p) = Suc (length (running q))" by (metis size_add_mset size_mset)
  have "name \<in> set (running p)" using run by (metis set_mset_mset union_single_eq_member)
  from pool_ok_unfinished [OF assms(2,3) this] have name: "name \<in> set names" "results p name = None" .
  have "mset (finished names q) = add_mset name (mset (finished names p))"
    using finished_add [OF assms(3) name, of "code name"] by (simp add: finish(1) finished_def)
  with run len name finish(1) assms(2) show ?thesis by (auto simp: pool_ok_def split: if_splits)
qed

lemma pool_init_ok: "pool_ok code n names (pool_init n names)"
proof -
  have "List.map_filter id (replicate n (None :: js_string option)) = []"
    by (induction n) (simp_all add: map_filter_simps)
  then show ?thesis by (simp add: pool_ok_def pool_init_def running_def finished_def)
qed

lemma pool_run_ok:
  assumes "(pool_step code ^^ k) (pool_init n names) p" "distinct names"
  shows "pool_ok code n names p \<and> k + (2 * length (queue p) + length (running p)) = 2 * length names"
  using assms(1)
proof (induction k arbitrary: p)
  case 0
  have "List.map_filter id (replicate n (None :: js_string option)) = []"
    by (induction n) (simp_all add: map_filter_simps)
  moreover from 0 have "p = pool_init n names" by simp
  ultimately show ?case using pool_init_ok by (simp add: pool_init_def running_def)
next
  case (Suc k)
  then obtain q where q: "(pool_step code ^^ k) (pool_init n names) q" "pool_step code q p" by auto
  from pool_step_ok [OF q(2) _ assms(2)] Suc.IH [OF q(1)] show ?case by fastforce
qed

lemma pool_done_iff: "pool_done p \<longleftrightarrow> queue p = [] \<and> running p = []"
proof -
  have "list_all (\<lambda>w. w = None) ws \<longleftrightarrow> List.map_filter id ws = []" for ws :: "js_string option list"
    by (induction ws) (auto simp: map_filter_simps split: option.split)
  then show ?thesis by (simp add: pool_done_def running_def)
qed

text \<open>A pool that is not done can go on, as long as it has a worker for a queue that is not empty.\<close>

lemma pool_progress:
  assumes "\<not> pool_done p" "queue p \<noteq> [] \<Longrightarrow> workers p \<noteq> []"
  shows "\<exists>q. pool_step code p q"
proof (cases "list_all (\<lambda>w. w = None) (workers p)")
  case True
  with assms(1) obtain name rest where "queue p = name # rest" by (cases "queue p") (auto simp: pool_done_def)
  moreover from this assms(2) True have "0 < length (workers p)" "workers p ! 0 = None"
    by (auto simp: list_all_length)
  ultimately show ?thesis by (blast intro: pool_step.take)
next
  case False
  then obtain i name where "i < length (workers p)" "workers p ! i = Some name" by (auto simp: list_all_length)
  then show ?thesis by (blast intro: pool_step.finish)
qed

section \<open>The size of the pool\<close>

lemma CONCURRENCY_bounds: "\<exists>c. CONCURRENCY jobs par = Fin c \<and> 1 \<le> c \<and> c \<le> max 1 (of_nat par)"
proof -
  define x where "x = num_or (case jobs of None \<Rightarrow> NaN | Some s \<Rightarrow> num_of_string s) (Fin 4)"
  have "x \<noteq> NaN" by (simp add: x_def num_or_def)
  then show ?thesis
    by (cases x) (auto simp: CONCURRENCY_def x_def [symmetric] num_min_def num_max_def)
qed

lemma pool_size_bounds:
  "pool_size jobs par names \<le> length names" "pool_size jobs par names \<le> max 1 par"
  "names \<noteq> [] \<Longrightarrow> 1 \<le> pool_size jobs par names"
proof -
  obtain c where c: "CONCURRENCY jobs par = Fin c" "1 \<le> c" "c \<le> max 1 (of_nat par)"
    using CONCURRENCY_bounds by blast
  let ?m = "min c (of_nat (length names))"
  have size: "pool_size jobs par names = min (nat (floor ?m)) (2 ^ 53 - 1)"
    by (simp add: pool_size_def c(1) num_min_def min_def)
  have "floor ?m \<le> floor (of_nat (length names) :: rat)" by (rule floor_mono) simp
  then show "pool_size jobs par names \<le> length names" unfolding size by simp
  have "floor ?m \<le> floor (of_nat (max 1 par) :: rat)" using c(3) by (intro floor_mono) (simp add: of_nat_max)
  then show "pool_size jobs par names \<le> max 1 par" unfolding size by simp
  assume "names \<noteq> []"
  then have "1 \<le> ?m" using c(2) by (cases names) auto
  then have "1 \<le> floor ?m" by simp
  then have "1 \<le> nat (floor ?m)" by linarith
  then show "1 \<le> pool_size jobs par names" unfolding size by (intro min.boundedI) simp_all
qed

section \<open>Properties\<close>

lemma pool_done_results:
  assumes "pool_ok code n names p" "pool_done p"
  shows "results p = (\<lambda>name. if name \<in> set names then Some (code name) else None)"
proof
  fix name
  from assms have "mset (finished names p) = mset names" by (simp add: pool_ok_def pool_done_iff)
  then have "set (finished names p) = set names" by (rule mset_eq_setD)
  then have "name \<in> set names \<Longrightarrow> results p name \<noteq> None" by (auto simp: finished_def)
  with assms(1) show "results p name = (if name \<in> set names then Some (code name) else None)"
    by (cases "results p name") (auto simp: pool_ok_def)
qed

text \<open>
  C13. Every registered SDK runs, whatever the interleaving: for any number of jobs asked for and any
  machine, after any \<open>k\<close> steps of the workers no more than the pool's size run at once, the pool
  is done exactly after two steps for each SDK (so every schedule ends), and until then some worker
  can go on; when it is done each SDK has exactly the result of its own commands, and the exit code
  is 1 exactly if one of the commands of one of them failed.
\<close>

theorem pool_runs_every_sdk:
  fixes sdks jobs parallelism ends
  defines "names \<equiv> sdk_queue sdks"
    and "n \<equiv> pool_size jobs parallelism (sdk_queue sdks)"
    and "code \<equiv> \<lambda>name. runSdk (ends name)"
  assumes "distinct (map fst sdks)" "(pool_step code ^^ k) (pool_init n names) p"
  shows "length (running p) \<le> n \<and> n \<le> max 1 parallelism \<and> k \<le> 2 * length names \<and>
    (pool_done p \<longleftrightarrow> k = 2 * length names) \<and> (\<not> pool_done p \<longleftrightarrow> (\<exists>q. pool_step code p q)) \<and>
    (pool_done p \<longrightarrow>
      results p = (\<lambda>name. if name \<in> set names then Some (code name) else None) \<and>
      exit_code names p = (if \<exists>name\<in>set names. \<exists>e\<in>set (ends name). child_code e \<noteq> 0 then 1 else 0))"
proof -
  have dist: "distinct names" using assms(4) by (simp add: names_def sdk_queue_def)
  note ok = pool_run_ok [OF assms(5) dist]
  have workers: "length (workers p) = n" using ok by (simp add: pool_ok_def)
  have len: "k + (2 * length (queue p) + length (running p)) = 2 * length names" using ok by blast
  then have done_iff: "pool_done p \<longleftrightarrow> k = 2 * length names" by (auto simp: pool_done_iff)
  have "workers p \<noteq> []" if "queue p \<noteq> []"
  proof -
    have "names \<noteq> []" using that len by (cases names) auto
    then have "1 \<le> n" unfolding n_def names_def by (rule pool_size_bounds(3))
    with workers show ?thesis by auto
  qed
  moreover have "\<not> pool_step code p q" if "pool_done p" for q
    using that by (auto simp: pool_done_def list_all_length elim!: pool_stepE)
  ultimately have go: "\<not> pool_done p \<longleftrightarrow> (\<exists>q. pool_step code p q)" using pool_progress by metis
  have res: "results p = (\<lambda>name. if name \<in> set names then Some (code name) else None)" if "pool_done p"
    using pool_done_results [OF _ that] ok by blast
  then have "exit_code names p = (if \<exists>name\<in>set names. \<exists>e\<in>set (ends name). child_code e \<noteq> 0 then 1 else 0)"
    if "pool_done p"
    using that by (auto simp: exit_code_def list_ex_iff code_def runSdk_fails)
  with res go done_iff len workers running_le [of p] pool_size_bounds(2) [of jobs parallelism names]
  show ?thesis by (auto simp: n_def names_def)
qed

text \<open>One SDK whose setup passes and whose tests fail with status 2, on a machine with one core.\<close>

theorem pool_runs_every_sdk_witness:
  "\<exists>p. (pool_step (\<lambda>name. runSdk [Closed (Some 0) False, Closed (Some 2) False]) ^^ 2)
        (pool_init 1 [js ''sdk-a'']) p \<and>
     pool_done p \<and> results p (js ''sdk-a'') = Some 2 \<and> exit_code [js ''sdk-a''] p = 1"
proof -
  let ?sdks = "[(js ''sdk-a'', JNull)]"
  let ?ends = "\<lambda>name :: js_string. [Closed (Some 0) False, Closed (Some 2) False]"
  let ?step = "pool_step (\<lambda>name. runSdk (?ends name))"
  let ?p0 = "pool_init 1 [js ''sdk-a'']"
  let ?p1 = "?p0\<lparr>queue := [], workers := (workers ?p0)[0 := Some (js ''sdk-a'')]\<rparr>"
  let ?p2 = "?p1\<lparr>workers := (workers ?p1)[0 := None], results := (results ?p1)(js ''sdk-a'' \<mapsto> runSdk (?ends (js ''sdk-a'')))\<rparr>"
  have names: "sdk_queue ?sdks = [js ''sdk-a'']" by (simp add: sdk_queue_def)
  have size: "pool_size None 1 [js ''sdk-a''] = 1"
    by (simp add: pool_size_def CONCURRENCY_def num_or_def num_min_def num_max_def)
  have "?step ?p0 ?p1" by (rule pool_step.take) (simp_all add: pool_init_def)
  moreover have "?step ?p1 ?p2" by (rule pool_step.finish) (simp_all add: pool_init_def)
  ultimately have run: "(?step ^^ 2) ?p0 ?p2" by (auto simp: numeral_2_eq_2)
  from pool_runs_every_sdk [where sdks = ?sdks and ends = ?ends and k = 2 and jobs = None and parallelism = 1 and p = ?p2] run
  have "pool_done ?p2" "results ?p2 (js ''sdk-a'') = Some 2" "exit_code [js ''sdk-a''] ?p2 = 1"
    unfolding names size by simp_all
  with run show ?thesis by blast
qed

end
