(* ===== verification/Conformance_Producer.thy ===== *)
theory Conformance_Producer
  imports Conformance_Vectors Conformance_Pool Js_Stringify
begin

text \<open>
  The middle of \<open>conformance/check.mjs\<close>: regenerating the producer vectors with \<open>mix\<close> and requiring the
  checked-in file to be identical, and the script as a whole. The subprocess and the texts of the two
  files are arguments. Values are compared as \<open>isDeepStrictEqual\<close> compares parsed JSON (0 and -0 are
  one number here, as everywhere in the model). The lemmas show when no problem is reported, which
  vectors a report names, what the description of a stale vector lists, and when the script exits
  with 0.
\<close>

section \<open>Deep equality\<close>

text \<open>\<open>isDeepStrictEqual\<close> on parsed values: the order of an object's keys does not matter.\<close>

fun json_same :: "json \<Rightarrow> json \<Rightarrow> bool" where
  "json_same (JArr vs) (JArr ws) = list_all2 json_same vs ws"
| "json_same (JObj a) (JObj b) =
     (length a = length b \<and>
      list_all (\<lambda>p. case map_of b (fst p) of None \<Rightarrow> False | Some w \<Rightarrow> json_same (snd p) w) a)"
| "json_same v w = (v = w)"

section \<open>Keys of values\<close>

text \<open>An array index as a key, in its canonical decimal form.\<close>

definition is_index :: "js_string \<Rightarrow> bool" where
  "is_index k \<longleftrightarrow> k \<noteq> [] \<and> list_all is_digit k \<and> (hd k = 0x30 \<longrightarrow> k = [0x30]) \<and> digits_value k < 2 ^ 32 - 1"

text \<open>\<open>Object.keys(v)\<close>: indices first, in order, then the other keys; \<open>None\<close> for the throw on \<open>null\<close>.\<close>

fun object_keys :: "json \<Rightarrow> js_string list option" where
  "object_keys JNull = None"
| "object_keys (JStr s) = Some (map digit_chars [0..<length s])"
| "object_keys (JArr vs) = Some (map digit_chars [0..<length vs])"
| "object_keys (JObj ob) =
     Some (sort_key digits_value (filter is_index (map fst ob)) @ filter (\<lambda>k. \<not> is_index k) (map fst ob))"
| "object_keys _ = Some []"

text \<open>The names every object, and every array, inherits.\<close>

definition object_names :: "js_string list" where
  "object_names = map js
     [''__defineGetter__'', ''__defineSetter__'', ''__lookupGetter__'', ''__lookupSetter__'', ''__proto__'',
      ''constructor'', ''hasOwnProperty'', ''isPrototypeOf'', ''propertyIsEnumerable'', ''toLocaleString'',
      ''toString'', ''valueOf'']"

definition array_names :: "js_string list" where
  "array_names = object_names @ map js
     [''at'', ''concat'', ''copyWithin'', ''entries'', ''every'', ''fill'', ''filter'', ''find'', ''findIndex'',
      ''findLast'', ''findLastIndex'', ''flat'', ''flatMap'', ''forEach'', ''includes'', ''indexOf'', ''join'',
      ''keys'', ''lastIndexOf'', ''map'', ''pop'', ''push'', ''reduce'', ''reduceRight'', ''reverse'', ''shift'',
      ''slice'', ''some'', ''sort'', ''splice'', ''toReversed'', ''toSorted'', ''toSpliced'', ''unshift'',
      ''values'', ''with'']"

text \<open>The value of an own property; \<open>None\<close> when there is none.\<close>

fun own_property :: "json \<Rightarrow> js_string \<Rightarrow> json option" where
  "own_property (JStr s) k =
     (if is_index k \<and> digits_value k < length s then Some (JStr [s ! digits_value k])
      else if k = js ''length'' then Some (JNum (Fin (of_nat (length s)))) else None)"
| "own_property (JArr vs) k =
     (if is_index k \<and> digits_value k < length vs then Some (vs ! digits_value k)
      else if k = js ''length'' then Some (JNum (Fin (of_nat (length vs)))) else None)"
| "own_property (JObj ob) k = map_of ob k"
| "own_property _ k = None"

text \<open>\<open>key in v\<close>; \<open>None\<close> for the throw on a value that is no object.\<close>

fun in_value :: "js_string \<Rightarrow> json \<Rightarrow> bool option" where
  "in_value k (JArr vs) = Some (own_property (JArr vs) k \<noteq> None \<or> k \<in> set array_names)"
| "in_value k (JObj ob) = Some (map_of ob k \<noteq> None \<or> k \<in> set object_names)"
| "in_value k _ = None"

section \<open>describeDifference\<close>

text \<open>\<open>parts.join(sep)\<close>\<close>

fun js_join :: "js_string \<Rightarrow> js_string list \<Rightarrow> js_string" where
  "js_join sep [] = []"
| "js_join sep [s] = s"
| "js_join sep (s # ss) = s @ sep @ js_join sep ss"

text \<open>A filter over keys with a test that may throw.\<close>

fun filter_keys :: "(js_string \<Rightarrow> bool option) \<Rightarrow> js_string list \<Rightarrow> js_string list option" where
  "filter_keys t [] = Some []"
| "filter_keys t (k # ks) =
     (case t k of
        None \<Rightarrow> None
      | Some b \<Rightarrow> map_option (\<lambda>r. if b then k # r else r) (filter_keys t ks))"

text \<open>\<open>!isDeepStrictEqual(now[key], before[key])\<close>; an inherited property is a function or a prototype,
  which no parsed value equals.\<close>

definition differs_at :: "json \<Rightarrow> json \<Rightarrow> js_string \<Rightarrow> bool" where
  "differs_at now before k =
     (case (own_property now k, own_property before k) of
        (Some v, Some w) \<Rightarrow> \<not> json_same v w
      | _ \<Rightarrow> True)"

text \<open>\<open>JSON.parse(vector.input.message)\<close>: \<open>None\<close> when a property of \<open>null\<close> or \<open>undefined\<close> is read or the
  text, or the text of a value that is no string, is not JSON.\<close>

definition vector_message :: "(js_number \<Rightarrow> js_string) \<Rightarrow> json \<Rightarrow> json option" where
  "vector_message num c =
     (case json_field c ''input'' of
        None \<Rightarrow> None
      | Some i \<Rightarrow>
          (case json_field i ''message'' of
             None \<Rightarrow> None
           | Some m \<Rightarrow> if text_throws m then None else JSON_parse (js_text num m)))"

record key_changes =
  added :: "js_string list"
  removed :: "js_string list"
  changed :: "js_string list"

definition key_differences :: "json \<Rightarrow> json \<Rightarrow> key_changes option" where
  "key_differences now before =
     (case object_keys now of
        None \<Rightarrow> None
      | Some ks \<Rightarrow>
          (case filter_keys (\<lambda>k. map_option Not (in_value k before)) ks of
             None \<Rightarrow> None
           | Some add \<Rightarrow>
               (case object_keys before of
                  None \<Rightarrow> None
                | Some bs \<Rightarrow>
                    (case filter_keys (\<lambda>k. map_option Not (in_value k now)) bs of
                       None \<Rightarrow> None
                     | Some rem \<Rightarrow>
                         map_option (\<lambda>chg. \<lparr>added = add, removed = rem, changed = chg\<rparr>)
                           (filter_keys (\<lambda>k. map_option (\<lambda>b. b \<and> differs_at now before k) (in_value k before)) ks)))))"

text \<open>The description; \<open>None\<close> when the script throws.\<close>

definition part :: "string \<Rightarrow> js_string list \<Rightarrow> js_string list" where
  "part what ks = (if ks = [] then [] else [js what @ js_join (js '', '') ks])"

definition describeDifference :: "(js_number \<Rightarrow> js_string) \<Rightarrow> json \<Rightarrow> json \<Rightarrow> js_string option" where
  "describeDifference num generated checkedIn =
     (case (vector_message num generated, vector_message num checkedIn) of
        (Some now, Some before) \<Rightarrow>
          map_option (\<lambda>d.
            let parts = part ''message keys added: '' (added d) @ part ''message keys removed: '' (removed d) @
                  part ''message keys changed: '' (changed d)
            in js_join (js ''; '') (if parts = [] then [js ''the expected decode result differs''] else parts))
            (key_differences now before)
      | _ \<Rightarrow> Some (js ''its message is not JSON''))"

section \<open>Regenerating the vectors\<close>

text \<open>A command of the package's \<open>mix\<close>, with the environment it adds, and how the subprocess ends: it
  could not be run, or it exited (\<open>None\<close> when a signal ended it).\<close>

record mix_run =
  mix_args :: "string list"
  mix_env :: "(string \<times> string) list"

datatype mix_end = MixError js_string | MixExit "int option"

text \<open>\<open>result.error || result.status !== 0\<close>\<close>

definition mix_failed :: "mix_end \<Rightarrow> bool" where
  "mix_failed r \<longleftrightarrow> r \<noteq> MixExit (Some 0)"

definition mix_commands :: "string \<Rightarrow> mix_run list" where
  "mix_commands out = map (\<lambda>args. \<lparr>mix_args = args, mix_env = [(''MIX_ENV'', ''test'')]\<rparr>)
     [[''local.hex'', ''--force'', ''--if-missing''], [''local.rebar'', ''--force'', ''--if-missing''],
      [''deps.get'', ''--check-locked''], [''ankusa.conformance.gen'', ''--out'', out]]"

datatype producer_problem =
    MixFailed string mix_end
  | NotCheckedIn "json option"
  | NotGenerated "json option"
  | Stale "json option" js_string
  | NotIdentical

text \<open>The loop over the commands: the first that fails ends it.\<close>

fun run_mix :: "(mix_run \<Rightarrow> mix_end) \<Rightarrow> mix_run list \<Rightarrow> producer_problem list" where
  "run_mix mix [] = []"
| "run_mix mix (c # cs) = (if mix_failed (mix c) then [MixFailed (hd (mix_args c)) (mix c)] else run_mix mix cs)"

section \<open>Maps of vectors\<close>

text \<open>A JavaScript \<open>Map\<close> as its entries in insertion order: a key that is an array or an object is only
  ever equal to itself.\<close>

type_synonym vectors = "(json option \<times> json) list"

fun map_set :: "json option \<Rightarrow> json \<Rightarrow> vectors \<Rightarrow> vectors" where
  "map_set k v [] = [(k, v)]"
| "map_set k v (p # m) = (if fst p = k \<and> \<not> is_reference k then (k, v) # m else p # map_set k v m)"

definition map_get :: "vectors \<Rightarrow> json option \<Rightarrow> json option" where
  "map_get m k = (if is_reference k then None else map_of m k)"

text \<open>\<open>new Map(readJson(file).cases.map((c) => [c.id, c]))\<close>; \<open>None\<close> when the text is no JSON, has no array of
  cases, or a case is \<open>null\<close>.\<close>

definition case_list :: "js_string \<Rightarrow> json list option" where
  "case_list s =
     (case JSON_parse s of
        None \<Rightarrow> None
      | Some f \<Rightarrow> (case json_field f ''cases'' of Some (JArr cs) \<Rightarrow> if JNull \<in> set cs then None else Some cs | _ \<Rightarrow> None))"

definition vector_map :: "json list \<Rightarrow> vectors" where
  "vector_map cs = fold (\<lambda>c. map_set (json_field c ''id'') c) cs []"

section \<open>producerVectorProblems\<close>

text \<open>A problem that names an id, whose text may throw.\<close>

definition named :: "json option \<Rightarrow> producer_problem \<Rightarrow> producer_problem option" where
  "named i p = (if template_throws [i] then None else Some p)"

text \<open>Problems in sequence: all of them, or the throw of the first that throws.\<close>

fun problems :: "producer_problem option list \<Rightarrow> producer_problem list option" where
  "problems [] = Some []"
| "problems (p # ps) = (case p of None \<Rightarrow> None | Some x \<Rightarrow> map_option (Cons x) (problems ps))"

definition stale_problem :: "(js_number \<Rightarrow> js_string) \<Rightarrow> vectors \<Rightarrow> json option \<times> json \<Rightarrow> producer_problem option list" where
  "stale_problem num checkedIn p =
     (case map_get checkedIn (fst p) of
        None \<Rightarrow> []
      | Some old \<Rightarrow>
          (if truthy (Some old) \<and> \<not> json_same (snd p) old then
             [case describeDifference num (snd p) old of
                None \<Rightarrow> None
              | Some d \<Rightarrow> named (fst p) (Stale (fst p) d)]
           else []))"

definition vector_problems :: "(js_number \<Rightarrow> js_string) \<Rightarrow> vectors \<Rightarrow> vectors \<Rightarrow> producer_problem list option" where
  "vector_problems num generated checkedIn = problems
     (map (\<lambda>k. named k (NotCheckedIn k)) (filter (\<lambda>k. \<not> set_has (map fst checkedIn) k) (map fst generated)) @
      map (\<lambda>k. named k (NotGenerated k)) (filter (\<lambda>k. \<not> set_has (map fst generated) k) (map fst checkedIn)) @
      concat (map (stale_problem num checkedIn) generated))"

text \<open>The result, or \<open>None\<close> when the script throws: on the texts of the generated and the checked-in
  file (\<open>None\<close> is a file that cannot be read).\<close>

definition producerVectorProblems ::
  "(js_number \<Rightarrow> js_string) \<Rightarrow> (mix_run \<Rightarrow> mix_end) \<Rightarrow> string \<Rightarrow> js_string option \<Rightarrow> js_string option \<Rightarrow>
     producer_problem list option" where
  "producerVectorProblems num mix out generatedText checkedInText =
     (let failed = run_mix mix (mix_commands out)
      in if failed \<noteq> [] then Some failed
         else case (generatedText, checkedInText) of
           (Some g, Some c) \<Rightarrow>
             (case (case_list g, case_list c) of
                (Some gs, Some cs) \<Rightarrow>
                  map_option (\<lambda>ps. if ps = [] \<and> g \<noteq> c then [NotIdentical] else ps)
                    (vector_problems num (vector_map gs) (vector_map cs))
              | _ \<Rightarrow> None)
         | _ \<Rightarrow> None)"

text \<open>
  The script as a whole: its exit code from the validation of the vectors, the producer vectors and
  the code of the pool that runs the SDKs. Problems and throws exit with 1 before the pool starts.
\<close>

definition check_main :: "check_error list option \<Rightarrow> producer_problem list option \<Rightarrow> int \<Rightarrow> int" where
  "check_main errors producer pool_code =
     (case errors of
        None \<Rightarrow> 1
      | Some es \<Rightarrow>
          if es \<noteq> [] then 1
          else (case producer of None \<Rightarrow> 1 | Some ps \<Rightarrow> if ps \<noteq> [] then 1 else pool_code))"

section \<open>Deep equality of parsed values\<close>

lemma json_same_refl: "json_wf v \<Longrightarrow> json_same v v"
proof (induction v)
  case (JArr vs)
  then show ?case by (simp add: list_all2_same list_all_iff)
next
  case (JObj ob)
  have "map_of ob (fst p) = Some (snd p)" if "p \<in> set ob" for p
    using that JObj.prems by simp
  moreover have "json_same (snd p) (snd p)" if "p \<in> set ob" for p
  proof -
    obtain k v where p: "p = (k, v)" by (cases p)
    with that JObj.prems have "json_wf v" by (fastforce simp: list_all_iff)
    with that JObj.IH [of p v] show ?thesis by (simp add: p)
  qed
  ultimately show ?case by (simp add: list_all_iff)
qed simp_all

lemma json_same_objects:
  assumes "distinct (map fst a)" "distinct (map fst b)"
  shows "json_same (JObj a) (JObj b) \<longleftrightarrow>
    fst ` set a = fst ` set b \<and> (\<forall>k\<in>fst ` set a. json_same (the (map_of a k)) (the (map_of b k)))"
proof -
  have val: "map_of a (fst p) = Some (snd p)" if "p \<in> set a" for p using that assms(1) by simp
  have keys: "map_of b k \<noteq> None \<longleftrightarrow> k \<in> fst ` set b" for k by (simp add: map_of_eq_None_iff)
  have "card (fst ` set a) = length a" "card (fst ` set b) = length b"
    using assms distinct_card [of "map fst a"] distinct_card [of "map fst b"] by simp_all
  then have "length a = length b \<and> fst ` set a \<subseteq> fst ` set b \<longleftrightarrow> fst ` set a = fst ` set b"
    using card_subset_eq [of "fst ` set b" "fst ` set a"] by auto
  moreover have "(case map_of b (fst p) of None \<Rightarrow> False | Some w \<Rightarrow> json_same (snd p) w) \<longleftrightarrow>
      fst p \<in> fst ` set b \<and> json_same (the (map_of a (fst p))) (the (map_of b (fst p)))" if "p \<in> set a" for p
    using val [OF that] keys [of "fst p"] by (cases "map_of b (fst p)") auto
  then have "json_same (JObj a) (JObj b) \<longleftrightarrow>
      length a = length b \<and> (\<forall>p\<in>set a. fst p \<in> fst ` set b \<and> json_same (the (map_of a (fst p))) (the (map_of b (fst p))))"
    by (simp add: list_all_iff)
  ultimately show ?thesis by blast
qed

section \<open>What a description lists\<close>

lemma filter_keys_total:
  assumes "\<And>k. k \<in> set ks \<Longrightarrow> f k = Some (P k)"
  shows "filter_keys f ks = Some (filter P ks)"
  using assms by (induction ks) simp_all

lemma object_keys_JObj: "\<exists>ks. object_keys (JObj ob) = Some ks \<and> set ks = fst ` set ob"
  by auto

lemma key_differences_objects:
  assumes "\<forall>k\<in>fst ` set a \<union> fst ` set b. k \<notin> set object_names"
  shows "\<exists>d. key_differences (JObj a) (JObj b) = Some d \<and>
    set (added d) = fst ` set a - fst ` set b \<and> set (removed d) = fst ` set b - fst ` set a \<and>
    set (changed d) = {k \<in> fst ` set a \<inter> fst ` set b. \<not> json_same (the (map_of a k)) (the (map_of b k))}"
proof -
  obtain ks where ks: "object_keys (JObj a) = Some ks" "set ks = fst ` set a" using object_keys_JObj by blast
  obtain bs where bs: "object_keys (JObj b) = Some bs" "set bs = fst ` set b" using object_keys_JObj by blast
  have in_a: "in_value k (JObj a) = Some (k \<in> fst ` set a)" if "k \<in> fst ` set a \<union> fst ` set b" for k
    using assms that by (simp add: map_of_eq_None_iff)
  have in_b: "in_value k (JObj b) = Some (k \<in> fst ` set b)" if "k \<in> fst ` set a \<union> fst ` set b" for k
    using assms that by (simp add: map_of_eq_None_iff)
  have diff: "differs_at (JObj a) (JObj b) k \<longleftrightarrow> \<not> json_same (the (map_of a k)) (the (map_of b k))"
    if "k \<in> fst ` set a" "k \<in> fst ` set b" for k
  proof -
    from that have "map_of a k \<noteq> None" "map_of b k \<noteq> None" by (simp_all add: map_of_eq_None_iff)
    then show ?thesis by (auto simp: differs_at_def)
  qed
  have f1: "filter_keys (\<lambda>k. map_option Not (in_value k (JObj b))) ks = Some (filter (\<lambda>k. k \<notin> fst ` set b) ks)"
    by (rule filter_keys_total) (simp add: ks in_b del: in_value.simps)
  have f2: "filter_keys (\<lambda>k. map_option Not (in_value k (JObj a))) bs = Some (filter (\<lambda>k. k \<notin> fst ` set a) bs)"
    by (rule filter_keys_total) (simp add: bs in_a del: in_value.simps)
  have f3: "filter_keys (\<lambda>k. map_option (\<lambda>x. x \<and> differs_at (JObj a) (JObj b) k) (in_value k (JObj b))) ks =
      Some (filter (\<lambda>k. k \<in> fst ` set b \<and> differs_at (JObj a) (JObj b) k) ks)"
    by (rule filter_keys_total) (simp add: ks in_b del: in_value.simps)
  have kd: "key_differences (JObj a) (JObj b) = Some \<lparr>added = filter (\<lambda>k. k \<notin> fst ` set b) ks,
      removed = filter (\<lambda>k. k \<notin> fst ` set a) bs,
      changed = filter (\<lambda>k. k \<in> fst ` set b \<and> differs_at (JObj a) (JObj b) k) ks\<rparr>"
    by (simp add: key_differences_def ks bs f1 f2 f3 del: object_keys.simps in_value.simps)
  show ?thesis
    by (rule exI, rule conjI [OF kd]) (use diff in \<open>auto simp: ks bs\<close>)
qed

lemma vector_message_wf: "vector_message num c = Some v \<Longrightarrow> json_wf v"
  by (auto simp: vector_message_def split: option.splits if_splits dest: JSON_parse_wf)

lemma js_join_head: "ps \<noteq> [] \<Longrightarrow> hd ps \<noteq> [] \<Longrightarrow> js_join sep ps \<noteq> [] \<and> hd (js_join sep ps) = hd (hd ps)"
  by (induction sep ps rule: js_join.induct) auto

text \<open>
  What the report of a stale vector says: when both messages are objects, none of whose keys is
  the name of a property every object inherits, the lists name exactly the keys that were added, were
  removed, or hold another value, and the report blames the expected result exactly when the two
  messages are deeply equal.
\<close>

lemma describeDifference_exact:
  assumes "vector_message num g = Some (JObj a)" "vector_message num c = Some (JObj b)"
    and "\<forall>k\<in>fst ` set a \<union> fst ` set b. k \<notin> set object_names"
  shows "\<exists>d. key_differences (JObj a) (JObj b) = Some d \<and>
    set (added d) = fst ` set a - fst ` set b \<and> set (removed d) = fst ` set b - fst ` set a \<and>
    set (changed d) = {k \<in> fst ` set a \<inter> fst ` set b. \<not> json_same (the (map_of a k)) (the (map_of b k))} \<and>
    (describeDifference num g c = Some (js ''the expected decode result differs'') \<longleftrightarrow> json_same (JObj a) (JObj b))"
proof -
  obtain d where d: "key_differences (JObj a) (JObj b) = Some d"
    "set (added d) = fst ` set a - fst ` set b" "set (removed d) = fst ` set b - fst ` set a"
    "set (changed d) = {k \<in> fst ` set a \<inter> fst ` set b. \<not> json_same (the (map_of a k)) (the (map_of b k))}"
    using key_differences_objects [OF assms(3)] by blast
  let ?parts = "part ''message keys added: '' (added d) @ part ''message keys removed: '' (removed d) @
    part ''message keys changed: '' (changed d)"
  have desc: "describeDifference num g c =
      Some (js_join (js ''; '') (if ?parts = [] then [js ''the expected decode result differs''] else ?parts))"
    by (simp add: describeDifference_def assms d Let_def)
  have blame: "describeDifference num g c = Some (js ''the expected decode result differs'') \<longleftrightarrow> ?parts = []"
  proof (cases "?parts = []")
    case False
    then have "hd ?parts \<noteq> [] \<and> hd (hd ?parts) = 0x6D" by (auto simp: part_def js_eval)
    with js_join_head [OF False] have "hd (js_join (js ''; '') ?parts) = 0x6D" by simp
    moreover have "hd (js ''the expected decode result differs'') = 0x74" by (simp add: js_eval)
    ultimately have "js_join (js ''; '') ?parts \<noteq> js ''the expected decode result differs''"
      by (auto dest: arg_cong [where f = hd])
    with False show ?thesis by (simp only: desc if_False option.inject)
  qed (simp add: desc)
  have "distinct (map fst a)" "distinct (map fst b)"
    using vector_message_wf [OF assms(1)] vector_message_wf [OF assms(2)] by simp_all
  note same = json_same_objects [OF this]
  have "?parts = [] \<longleftrightarrow> set (added d) = {} \<and> set (removed d) = {} \<and> set (changed d) = {}"
    by (simp add: part_def)
  also have "\<dots> \<longleftrightarrow> json_same (JObj a) (JObj b)" unfolding d(2-4) same by auto
  finally have "?parts = [] \<longleftrightarrow> json_same (JObj a) (JObj b)" .
  with d blame show ?thesis by blast
qed

text \<open>
  Where the hypotheses fail the description does too: \<open>key in now\<close> also finds what every object inherits,
  so a removed key of such a name goes unreported, and \<open>Object.keys\<close> throws when a message is \<open>null\<close>.
\<close>

lemma inherited_key_missed:
  "key_differences (JObj []) (JObj [(js ''constructor'', JNull)]) = Some \<lparr>added = [], removed = [], changed = []\<rparr>"
  "\<not> json_same (JObj []) (JObj [(js ''constructor'', JNull)])" "key_differences JNull (JObj []) = None"
  by (simp_all add: key_differences_def object_names_def is_index_def is_digit_def js_eval)

text \<open>A vector with a message, for the examples.\<close>

definition example_vector :: "json_object \<Rightarrow> json" where
  "example_vector ob = JObj [(js ''id'', JStr (js ''a'')),
     (js ''input'', JObj [(js ''message'', JStr (JSON_stringify whole_text (JObj ob)))])]"

lemma example_vector_message:
  "json_wf (JObj ob) \<Longrightarrow> safe_json (JObj ob) \<Longrightarrow> vector_message num (example_vector ob) = Some (JObj ob)"
  by (simp add: example_vector_def vector_message_def JSON_parse_stringify [OF whole_text_law]
      js_eval del: JSON_stringify.simps json_wf.simps safe_json.simps)

section \<open>When nothing is reported\<close>

lemma problems_Nil_iff: "problems ps = Some [] \<longleftrightarrow> ps = []"
  by (cases ps) (auto split: option.split)

lemma map_set_keys: "set (map fst (map_set k v m)) = insert k (set (map fst m))"
  by (induction m) auto

lemma vector_map_keys: "set (map fst (vector_map cs)) = (\<lambda>c. json_field c ''id'') ` set cs"
proof -
  have "set (map fst (fold (\<lambda>c. map_set (json_field c ''id'') c) cs m)) =
      set (map fst m) \<union> (\<lambda>c. json_field c ''id'') ` set cs" for m
  proof (induction cs arbitrary: m)
    case (Cons c cs)
    show ?case unfolding fold.simps comp_apply Cons.IH map_set_keys by auto
  qed simp
  from this [of "[]"] show ?thesis by (simp add: vector_map_def)
qed

lemma map_set_distinct:
  assumes "\<not> is_reference k"
  shows "distinct (map fst m) \<Longrightarrow> distinct (map fst (map_set k v m))"
proof (induction m)
  case (Cons p m)
  with map_set_keys [of k v m] assms show ?case by auto
qed simp

lemma map_set_values: "set (map snd (map_set k v m)) \<subseteq> insert v (set (map snd m))"
  by (induction m) auto

lemma vector_map_fold:
  assumes "\<forall>c\<in>set cs. \<not> is_reference (json_field c ''id'')" "distinct (map fst m)"
    and "\<forall>k\<in>set (map fst m). \<not> is_reference k" "set (map snd m) \<subseteq> S"
  defines "r \<equiv> fold (\<lambda>c. map_set (json_field c ''id'') c) cs m"
  shows "distinct (map fst r) \<and> (\<forall>k\<in>set (map fst r). \<not> is_reference k) \<and> set (map snd r) \<subseteq> S \<union> set cs"
  using assms(1-4) unfolding r_def
proof (induction cs arbitrary: m S)
  case (Cons c cs)
  let ?m = "map_set (json_field c ''id'') c m"
  have i: "\<not> is_reference (json_field c ''id'')" using Cons.prems(1) by simp
  then have 1: "distinct (map fst ?m)" using Cons.prems(2) by (rule map_set_distinct)
  have 2: "\<forall>k\<in>set (map fst ?m). \<not> is_reference k"
    unfolding map_set_keys using i Cons.prems(3) by blast
  have 3: "set (map snd ?m) \<subseteq> insert c S"
    by (rule subset_trans [OF map_set_values]) (rule insert_mono [OF Cons.prems(4)])
  have "\<forall>c\<in>set cs. \<not> is_reference (json_field c ''id'')" using Cons.prems(1) by simp
  from Cons.IH [OF this 1 2 3] show ?case
    unfolding fold.simps comp_apply list.set Un_insert_right Un_insert_left .
qed simp

lemma vector_map_ok:
  assumes "\<forall>c\<in>set cs. \<not> is_reference (json_field c ''id'')"
  shows "distinct (map fst (vector_map cs))" "\<forall>k\<in>set (map fst (vector_map cs)). \<not> is_reference k"
    "set (map snd (vector_map cs)) \<subseteq> set cs"
  using vector_map_fold [OF assms, of "[]" "{}"] by (simp_all add: vector_map_def)

lemma case_list_wf: "case_list s = Some cs \<Longrightarrow> c \<in> set cs \<Longrightarrow> json_wf c"
proof -
  assume "case_list s = Some cs" "c \<in> set cs"
  then obtain ob where "JSON_parse s = Some (JObj ob)" "map_of ob (js ''cases'') = Some (JArr cs)"
    by (auto simp: case_list_def split: option.splits json.splits if_splits elim!: json_field.elims)
  then have "json_wf (JObj ob)" "(js ''cases'', JArr cs) \<in> set ob"
    by (auto dest: JSON_parse_wf map_of_SomeD)
  then have "json_wf (JArr cs)" by (fastforce simp: list_all_iff)
  with \<open>c \<in> set cs\<close> show "json_wf c" by (simp add: list_all_iff)
qed

lemma same_vectors_no_problem:
  assumes "case_list s = Some cs" "\<forall>c\<in>set cs. \<not> is_reference (json_field c ''id'')"
  shows "vector_problems num (vector_map cs) (vector_map cs) = Some []"
proof -
  let ?m = "vector_map cs"
  note ok = vector_map_ok [OF assms(2)]
  have has: "set_has (map fst ?m) k" if "k \<in> set (map fst ?m)" for k
    using that ok(2) by (auto simp: set_has_def)
  have "stale_problem num ?m q = []" if "q \<in> set ?m" for q
  proof -
    have "map_of ?m (fst q) = Some (snd q)" using that ok(1) by simp
    moreover have "\<not> is_reference (fst q)" using that ok(2) by auto
    moreover have "snd q \<in> set cs" using that ok(3) by auto
    then have "json_same (snd q) (snd q)" using case_list_wf [OF assms(1)] by (blast intro: json_same_refl)
    ultimately show ?thesis by (simp add: stale_problem_def map_get_def)
  qed
  moreover have "filter (\<lambda>k. \<not> set_has (map fst ?m) k) (map fst ?m) = []"
    using has by (simp only: filter_empty_conv) blast
  ultimately show ?thesis by (simp add: vector_problems_def problems_Nil_iff del: filter_map)
qed

lemma run_mix_Nil: "run_mix mix cs = [] \<longleftrightarrow> list_all (\<lambda>c. \<not> mix_failed (mix c)) cs"
  by (induction cs) auto

text \<open>An array or an object as an id is missing from the other side, whatever the other side is.\<close>

lemma reference_id_reported:
  assumes "v \<in> set cs" "is_reference (json_field v ''id'')"
  shows "vector_problems num (vector_map cs) old \<noteq> Some []"
proof -
  have "json_field v ''id'' \<in> set (map fst (vector_map cs))" using assms(1) vector_map_keys by blast
  moreover have "\<not> set_has (map fst old) (json_field v ''id'')" using assms(2) by (simp add: set_has_def)
  ultimately have "filter (\<lambda>k. \<not> set_has (map fst old) k) (map fst (vector_map cs)) \<noteq> []"
    unfolding filter_empty_conv by blast
  then show ?thesis by (simp add: vector_problems_def problems_Nil_iff del: filter_map)
qed

text \<open>
  The producer vectors pass exactly when all four \<open>mix\<close> commands exit with 0, both files can be read and
  are the same, character for character, and they are JSON with a list of cases, none of them \<open>null\<close>
  and none with an array or an object for an id.
\<close>

lemma producer_problems_Nil:
  "producerVectorProblems num mix out generatedText checkedInText = Some [] \<longleftrightarrow>
     list_all (\<lambda>r. mix r = MixExit (Some 0)) (mix_commands out) \<and>
     (\<exists>text cs. generatedText = Some text \<and> checkedInText = Some text \<and> case_list text = Some cs \<and>
        list_all (\<lambda>v. \<not> is_reference (json_field v ''id'')) cs)"
  (is "?passes \<longleftrightarrow> ?mix \<and> ?same")
proof
  assume ?passes
  then have mix: "run_mix mix (mix_commands out) = []"
    by (auto simp: producerVectorProblems_def Let_def split: if_splits)
  with \<open>?passes\<close> obtain g cs where g: "generatedText = Some g" "checkedInText = Some g" "case_list g = Some cs"
    "vector_problems num (vector_map cs) (vector_map cs) = Some []"
    by (auto simp: producerVectorProblems_def split: option.splits if_splits)
  from reference_id_reported [of _ cs] g(4) have "list_all (\<lambda>v. \<not> is_reference (json_field v ''id'')) cs"
    by (auto simp: list_all_iff)
  with g mix show "?mix \<and> ?same" by (auto simp: run_mix_Nil mix_failed_def)
next
  assume h: "?mix \<and> ?same"
  then obtain g cs where g: "generatedText = Some g" "checkedInText = Some g" "case_list g = Some cs"
    "\<forall>v\<in>set cs. \<not> is_reference (json_field v ''id'')" by (auto simp: list_all_iff)
  from h have "run_mix mix (mix_commands out) = []" unfolding run_mix_Nil by (simp add: mix_failed_def)
  with same_vectors_no_problem [OF g(3,4), of num] show ?passes
    by (simp add: producerVectorProblems_def Let_def g(1-3))
qed

text \<open>A file of vectors, for the examples.\<close>

definition example_file :: "json list \<Rightarrow> js_string" where
  "example_file cs = JSON_stringify whole_text (JObj [(js ''cases'', JArr cs)])"

lemma case_list_example:
  assumes "list_all json_wf cs" "list_all safe_json cs" "JNull \<notin> set cs"
  shows "case_list (example_file cs) = Some cs"
proof -
  have "JSON_parse (example_file cs) = Some (JObj [(js ''cases'', JArr cs)])"
    unfolding example_file_def by (rule JSON_parse_stringify [OF whole_text_law]) (use assms in simp_all)
  with assms(3) show ?thesis by (simp add: case_list_def)
qed

definition example_case :: json where
  "example_case = JObj [(js ''id'', JStr (js ''a''))]"

lemma case_list_example_case: "case_list (example_file [example_case]) = Some [example_case]"
  by (rule case_list_example) (simp_all add: example_case_def)

text \<open>What a report names: the ids on one side only, and those whose two vectors differ.\<close>

lemma problems_set: "problems ps = Some xs \<Longrightarrow> Some x \<in> set ps \<longleftrightarrow> x \<in> set xs"
  by (induction ps arbitrary: xs) (auto split: option.splits)

lemma stale_problem_iff:
  "Some x \<in> set (stale_problem num old q) \<longleftrightarrow>
     (\<exists>w d. map_get old (fst q) = Some w \<and> truthy (Some w) \<and> \<not> json_same (snd q) w \<and>
        describeDifference num (snd q) w = Some d \<and> \<not> template_throws [fst q] \<and> x = Stale (fst q) d)"
  by (cases "map_get old (fst q)"; cases "describeDifference num (snd q) (the (map_get old (fst q)))")
    (auto simp: stale_problem_def named_def)

lemma vector_problems_exact:
  assumes "vector_problems num gen old = Some ps"
  shows "x \<in> set ps \<longleftrightarrow>
    (\<exists>k\<in>fst ` set gen. \<not> set_has (map fst old) k \<and> named k (NotCheckedIn k) = Some x) \<or>
    (\<exists>k\<in>fst ` set old. \<not> set_has (map fst gen) k \<and> named k (NotGenerated k) = Some x) \<or>
    (\<exists>q\<in>set gen. Some x \<in> set (stale_problem num old q))"
proof -
  have im: "Some x \<in> f ` A \<longleftrightarrow> (\<exists>k\<in>A. f k = Some x)" for f :: "json option \<Rightarrow> producer_problem option" and A
    by force
  have "x \<in> set ps \<longleftrightarrow> Some x \<in> set
     (map (\<lambda>k. named k (NotCheckedIn k)) (filter (\<lambda>k. \<not> set_has (map fst old) k) (map fst gen)) @
      map (\<lambda>k. named k (NotGenerated k)) (filter (\<lambda>k. \<not> set_has (map fst gen) k) (map fst old)) @
      concat (map (stale_problem num old) gen))"
    using problems_set [OF assms [unfolded vector_problems_def]] by blast
  also have "\<dots> \<longleftrightarrow> (\<exists>k\<in>fst ` set gen. \<not> set_has (map fst old) k \<and> named k (NotCheckedIn k) = Some x) \<or>
      (\<exists>k\<in>fst ` set old. \<not> set_has (map fst gen) k \<and> named k (NotGenerated k) = Some x) \<or>
      (\<exists>q\<in>set gen. Some x \<in> set (stale_problem num old q))"
    unfolding set_append set_map set_filter set_concat Un_iff im by blast
  finally show ?thesis .
qed

section \<open>The whole script\<close>

text \<open>
  C22. The script exits with 0 exactly when everything it checks holds: the shared vectors are valid; all
  four \<open>mix\<close> commands exit with 0; the generated and the checked-in file of producer vectors can be read,
  are the same character for character, and hold a list of cases (none of them \<open>null\<close>, none with an array
  or an object for an id); and every command of every registered SDK succeeded. Whatever is run and
  read, any failure of a command or of a check makes the code another one. The code of the SDKs is
  that of the pool when it is done, under every interleaving; the registry, an object, has each SDK once.
\<close>

theorem check_exit_zero_iff:
  fixes ends
  defines "code \<equiv> \<lambda>name. runSdk (ends name)"
  assumes "distinct (map fst sdks)" "(pool_step code ^^ k) (pool_init n (sdk_queue sdks)) p" "pool_done p"
  shows "check_main (check_conformance features operations files packageNames sdks)
      (producerVectorProblems num mix out generatedText checkedInText) (exit_code (sdk_queue sdks) p) = 0 \<longleftrightarrow>
    check_conformance features operations files packageNames sdks = Some [] \<and>
    list_all (\<lambda>r. mix r = MixExit (Some 0)) (mix_commands out) \<and>
    (\<exists>text cs. generatedText = Some text \<and> checkedInText = Some text \<and> case_list text = Some cs \<and>
       list_all (\<lambda>v. \<not> is_reference (json_field v ''id'')) cs) \<and>
    list_all (\<lambda>sdk. list_all (\<lambda>e. child_code e = 0) (ends (fst sdk))) sdks"
proof -
  have dist: "distinct (sdk_queue sdks)" using assms(2) by (simp add: sdk_queue_def)
  have "results p = (\<lambda>name. if name \<in> set (sdk_queue sdks) then Some (code name) else None)"
    using pool_run_ok [OF assms(3) dist] assms(4) by (blast intro: pool_done_results)
  then have "exit_code (sdk_queue sdks) p = 0 \<longleftrightarrow> list_all (\<lambda>sdk. list_all (\<lambda>e. child_code e = 0) (ends (fst sdk))) sdks"
    by (auto simp: exit_code_def list_ex_iff list_all_iff code_def runSdk_fails sdk_queue_def)
  moreover have "check_main errors producer c = 0 \<longleftrightarrow> errors = Some [] \<and> producer = Some [] \<and> c = 0" for errors producer c
    by (auto simp: check_main_def split: option.splits)
  ultimately show ?thesis by (simp only: producer_problems_Nil conj_assoc)
qed

theorem check_exit_zero_iff_witness:
  "check_main (check_conformance [] [] [] [] [])
     (producerVectorProblems whole_text (\<lambda>_. MixExit (Some 0)) ''out'' (Some (example_file [example_case]))
        (Some (example_file [example_case])))
     (exit_code (sdk_queue []) (pool_init 1 (sdk_queue []))) = 0 \<and>
   check_main (check_conformance [] [] [] [] [])
     (producerVectorProblems whole_text (\<lambda>_. MixExit (Some 1)) ''out'' (Some (example_file [example_case]))
        (Some (example_file [example_case])))
     (exit_code (sdk_queue []) (pool_init 1 (sdk_queue []))) \<noteq> 0"
proof -
  have "pool_done (pool_init 1 (sdk_queue []))" by (simp add: pool_done_def pool_init_def sdk_queue_def)
  moreover have "check_conformance [] [] [] [] [] = Some []"
    by (simp add: check_conformance_def indexed_def checks.simps Let_def)
  moreover have "\<not> is_reference (json_field example_case ''id'')" by (simp add: example_case_def js_eval)
  ultimately show ?thesis
    using check_exit_zero_iff [where sdks = "[]" and k = 0 and n = 1 and p = "pool_init 1 (sdk_queue [])"
        and ends = "\<lambda>_. []" and mix = "\<lambda>_. MixExit (Some 0)" and out = "''out''" and num = whole_text
        and features = "[]" and operations = "[]" and files = "[]" and packageNames = "[]"
        and generatedText = "Some (example_file [example_case])" and checkedInText = "Some (example_file [example_case])"]
      check_exit_zero_iff [where sdks = "[]" and k = 0 and n = 1 and p = "pool_init 1 (sdk_queue [])"
        and ends = "\<lambda>_. []" and mix = "\<lambda>_. MixExit (Some 1)" and out = "''out''" and num = whole_text
        and features = "[]" and operations = "[]" and files = "[]" and packageNames = "[]"
        and generatedText = "Some (example_file [example_case])" and checkedInText = "Some (example_file [example_case])"]
    by (simp add: mix_commands_def case_list_example_case)
qed

end
