(* ===== verification/Conformance_Report.thy ===== *)
theory Conformance_Report
  imports Conformance_Producer
begin

text \<open>
  What \<open>conformance/check.mjs\<close> prints: the text of each problem, marked for the CI service when it runs
  there, the number of cases of each feature, and the verdict on each SDK. The lemmas show that the
  numbers add up to the number of cases, and that the script fails exactly when it printed a problem
  or a failed SDK.
\<close>

section \<open>Texts\<close>

text \<open>\<open>`${value}`\<close> for a property that may be absent.\<close>

definition shown :: "(js_number \<Rightarrow> js_string) \<Rightarrow> json option \<Rightarrow> js_string" where
  "shown num v = (case v of None \<Rightarrow> js ''undefined'' | Some w \<Rightarrow> js_text num w)"

definition quoted :: "js_string \<Rightarrow> js_string" where
  "quoted s = 0x22 # s @ [0x22]"

text \<open>\<open>case "<id>" (<file>): <what>\<close>\<close>

definition case_text :: "(js_number \<Rightarrow> js_string) \<Rightarrow> json \<Rightarrow> js_string \<Rightarrow> js_string \<Rightarrow> js_string" where
  "case_text num cid file what = js ''case '' @ quoted (js_text num cid) @ js '' ('' @ file @ js ''): '' @ what"

fun error_text :: "(js_number \<Rightarrow> js_string) \<Rightarrow> check_error \<Rightarrow> js_string" where
  "error_text num (DuplicateFeature i) = js ''duplicate feature id '' @ quoted (shown num i)"
| "error_text num (MissingField i file field) =
     js ''case #'' @ digit_chars i @ js '' ('' @ file @ js ''): missing '' @ quoted (js field)"
| "error_text num (DuplicateCase cid file) =
     js ''duplicate case id '' @ quoted (js_text num cid) @ js '' ('' @ file @ js '')''"
| "error_text num (UnknownFeature cid file f) = case_text num cid file (js ''unknown feature '' @ quoted (js_text num f))"
| "error_text num (UnknownOperation cid file f) = case_text num cid file (js ''unknown operation '' @ quoted (js_text num f))"
| "error_text num (ExpectForm cid file) =
     case_text num cid file (js ''expect must have exactly one of '' @ quoted (js ''ok'') @ js '' or '' @ quoted (js ''error''))"
| "error_text num (ErrorClass cid file) = case_text num cid file (js ''expect.error.class must be a string'')"
| "error_text num (MustNotRetry cid file cls) = case_text num cid file
     (cls @ js '' is permanent (docs/delivery.md, Consumer failure policy): expect.error.retryable must be false'')"
| "error_text num (NoCases i) = js ''feature '' @ quoted (shown num i) @ js '' has no cases''"
| "error_text num (NotRegistered name) = js ''packages/'' @ name @ js '' is not registered in conformance/sdks.json''"
| "error_text num (NoPackage name) =
     js ''conformance/sdks.json registers '' @ name @ js '', but packages/'' @ name @ js '' does not exist''"

text \<open>\<open>result.error?.message ?? `exit ${result.status}`\<close>\<close>

fun mix_end_text :: "mix_end \<Rightarrow> js_string" where
  "mix_end_text (MixError msg) = msg"
| "mix_end_text (MixExit None) = js ''exit null''"
| "mix_end_text (MixExit (Some n)) = js ''exit '' @ int_text n"

fun problem_text :: "(js_number \<Rightarrow> js_string) \<Rightarrow> producer_problem \<Rightarrow> js_string" where
  "problem_text num (MixFailed c r) =
     js ''`mix '' @ js c @ js ''` in packages/ankusa failed ('' @ mix_end_text r @ js '')''"
| "problem_text num (NotCheckedIn i) =
     js ''producer vector '' @ quoted (shown num i) @ js '' is generated but missing from cases/producer.json''"
| "problem_text num (NotGenerated i) =
     js ''producer vector '' @ quoted (shown num i) @ js '' is in cases/producer.json but no longer generated''"
| "problem_text num (Stale i d) = js ''producer vector '' @ quoted (shown num i) @ js '' is stale: '' @ d"
| "problem_text num NotIdentical = js ''cases/producer.json is not byte-identical to the generated file''"

section \<open>The output\<close>

type_synonym environment = "string \<Rightarrow> js_string option"

definition prefix_of :: "environment \<Rightarrow> js_string" where
  "prefix_of env = (if env ''GITHUB_ACTIONS'' = Some (js ''true'') then js ''::error::'' else [])"

text \<open>\<open>caseCounts.get(feature.id) ?? 0\<close>\<close>

definition feature_count :: "json list \<Rightarrow> (js_string \<times> nat \<times> json) list \<Rightarrow> json \<Rightarrow> nat" where
  "feature_count features cs f =
     (let i = json_field f ''id''
      in if is_reference i then 0 else count_list (counted (map (\<lambda>g. json_field g ''id'') features) cs) i)"

text \<open>The lines after the validation: its problems, or the counts; \<open>None\<close> when the text of an id throws.\<close>

definition validation_log ::
  "(js_number \<Rightarrow> js_string) \<Rightarrow> environment \<Rightarrow> json list \<Rightarrow> (js_string \<times> nat \<times> json) list \<Rightarrow> check_error list \<Rightarrow>
     js_string list option" where
  "validation_log num env features cs errors =
     (if errors \<noteq> [] then Some (map (\<lambda>e. prefix_of env @ error_text num e) errors)
      else if template_throws (map (\<lambda>f. json_field f ''id'') features) then None
      else Some ((digit_chars (length features) @ js '' features, '' @ digit_chars (length cs) @ js '' cases'') #
        map (\<lambda>f. js ''  '' @ shown num (json_field f ''id'') @ js ''  '' @ digit_chars (feature_count features cs f)) features))"

definition producer_log :: "(js_number \<Rightarrow> js_string) \<Rightarrow> environment \<Rightarrow> producer_problem list \<Rightarrow> js_string list" where
  "producer_log num env ps =
     (if ps \<noteq> [] then
        map (\<lambda>p. prefix_of env @ problem_text num p) ps @
        [prefix_of env @ js ''Ankusa.Sink.Message.encode/3 no longer matches conformance/cases/producer.json: '' @
           js ''run `mix ankusa.conformance.gen` in packages/ankusa, commit the result, and make every SDK decode it.'']
      else [js ''producer vectors  match Sink.Message.encode/3''])"

definition result_line :: "js_string \<Rightarrow> int \<Rightarrow> js_string" where
  "result_line name c =
     (if c = 0 then name @ js ''  pass'' else name @ js ''  FAIL (exit '' @ int_text c @ js '')'')"

text \<open>The results in the order of the sorted names; every name has one when the pool is done.\<close>

definition results_log :: "js_string list \<Rightarrow> pool \<Rightarrow> js_string list" where
  "results_log names p = concat (map (\<lambda>name. case results p name of None \<Rightarrow> [] | Some c \<Rightarrow> [result_line name c]) names)"

section \<open>The counts\<close>

lemma counted_valid:
  assumes "list_all (valid_case ids ops) (map (\<lambda>(file, i, raw). raw) cs)"
  shows "counted ids cs = map (\<lambda>(file, i, raw). json_field raw ''feature'') cs"
  using assms unfolding counted_def case_id_def case_object_field
  by (induction cs) (auto simp: valid_case_def case_fields_def)

lemma sum_list_counts: "distinct ys \<Longrightarrow> set xs \<subseteq> set ys \<Longrightarrow> sum_list (map (count_list xs) ys) = length xs"
  using sum_count_set [of xs "set ys"] by (simp add: sum_list_distinct_conv_sum_set)

text \<open>
  When the validation has no problem, the counts printed for the features add up to the printed number
  of cases, and none of them is 0.
\<close>

lemma counts_add_up:
  assumes "check_conformance features operations files packageNames sdks = Some []"
  shows "sum_list (map (feature_count features (indexed files)) features) = length (indexed files)"
    "list_all (\<lambda>f. 0 < feature_count features (indexed files) f) features"
proof -
  let ?ids = "map (\<lambda>f. json_field f ''id'') features"
  let ?cs = "indexed files"
  let ?xs = "map (\<lambda>(file, i, raw). json_field raw ''feature'') ?cs"
  from assms have valid: "list_all (valid_case ?ids (map Some operations)) (map (\<lambda>(file, i, raw). raw) ?cs)"
    and ids: "distinct ?ids" "list_all (\<lambda>v. \<not> is_reference v) ?ids"
    and used: "list_all (\<lambda>v. list_ex (\<lambda>raw. json_field raw ''feature'' = v) (map (\<lambda>(file, i, raw). raw) ?cs)) ?ids"
    by (simp_all only: check_conformance_valid Let_def)
  have count: "feature_count features ?cs f = count_list ?xs (json_field f ''id'')" if "f \<in> set features" for f
    using that ids(2) by (simp add: feature_count_def Let_def counted_valid [OF valid] list_all_iff)
  have sub: "set ?xs \<subseteq> set ?ids" using valid by (auto simp: list_all_iff valid_case_def set_has_def)
  have "map (feature_count features ?cs) features = map (count_list ?xs) ?ids"
    using count by (simp add: comp_def)
  then show "sum_list (map (feature_count features ?cs) features) = length ?cs"
    using sum_list_counts [OF ids(1) sub] by (simp only: length_map)
  have "json_field f ''id'' \<in> set ?xs" if "f \<in> set features" for f
    using used that by (force simp: list_all_iff list_ex_iff)
  then have "0 < count_list ?xs (json_field f ''id'')" if "f \<in> set features" for f
    using that count_list_0_iff [of ?xs "json_field f ''id''"] by (metis gr0I)
  with count show "list_all (\<lambda>f. 0 < feature_count features ?cs f) features" by (simp add: list_all_iff)
qed

section \<open>The verdict\<close>

text \<open>The exit code is that of the printed results: 1 exactly when one of them is a failure.\<close>

lemma results_log_exit:
  assumes "\<forall>name\<in>set names. results p name \<noteq> None"
  shows "length (results_log names p) = length names"
    "exit_code names p = 0 \<longleftrightarrow> results_log names p = map (\<lambda>name. name @ js ''  pass'') names"
proof -
  have log: "results_log names p = map (\<lambda>name. result_line name (the (results p name))) names"
    using assms unfolding results_log_def by (induction names) auto
  then show "length (results_log names p) = length names" by simp
  have line: "result_line name c = name @ js ''  pass'' \<longleftrightarrow> c = 0" for name c
    by (simp add: result_line_def js_eval)
  have "exit_code names p = 0 \<longleftrightarrow> (\<forall>name\<in>set names. the (results p name) = 0)"
  proof -
    have "(case results p name of Some c \<Rightarrow> c \<noteq> 0 | None \<Rightarrow> False) \<longleftrightarrow> the (results p name) \<noteq> 0" if "name \<in> set names" for name
      using assms that by (auto split: option.split)
    then show ?thesis by (simp add: exit_code_def list_ex_iff)
  qed
  then show "exit_code names p = 0 \<longleftrightarrow> results_log names p = map (\<lambda>name. name @ js ''  pass'') names"
    by (simp add: log line)
qed

end
