(* ===== verification/Control_Panel.thy ===== *)
theory Control_Panel
  imports Js_Base
begin

text \<open>
  The browser script of the control panel, \<open>examples/jetstream-k8s/control_panel/assets/js/app.js\<close>: the
  live socket it opens, the progress bar, and the development feature that opens an editor at the
  component under a click while a key is held. Phoenix, the progress bar and the reloader are named by
  the calls made to them. The lemmas show that the key a listener remembers is the last key event since
  its reloader attached, and that one click opens at most one editor.
\<close>

section \<open>Start\<close>

text \<open>The calls made to the libraries and the browser.\<close>

datatype 'r app_call =
    NewLiveSocket string nat "js_string option"
  | TopbarConfig string string
  | Connect
  | ExposeLiveSocket
  | TopbarShow nat
  | TopbarHide
  | EnableServerLogs 'r
  | ExposeReloader 'r
  | PreventDefault
  | StopImmediatePropagation
  | OpenEditorAtCaller 'r nat
  | OpenEditorAtDef 'r nat

text \<open>
  The script's start, on the page's \<open>csrf-token\<close> element: \<open>None\<close> when the page has none (reading its
  attribute then throws), \<open>Some None\<close> when the element has no \<open>content\<close>.
\<close>

definition app_start :: "js_string option option \<Rightarrow> 'r app_call list option" where
  "app_start meta =
     (case meta of
        None \<Rightarrow> None
      | Some csrfToken \<Rightarrow>
          Some [NewLiveSocket ''/live'' 2500 csrfToken, TopbarConfig ''#29d'' ''rgba(0, 0, 0, .3)'', Connect,
            ExposeLiveSocket])"

section \<open>Events\<close>

text \<open>What \<open>keyDown\<close> holds: nothing yet, \<open>null\<close> after a key was released, or the key pressed last.\<close>

datatype key_down = Undefined | Released | Pressed js_string

text \<open>The events the script listens to; a click is on a target.\<close>

datatype 'r app_event =
    PageLoadingStart
  | PageLoadingStop
  | Attached 'r
  | KeyDown js_string
  | KeyUp
  | Click nat

text \<open>The state: each attached reloader, in the order of their listeners, with its own \<open>keyDown\<close>.\<close>

type_synonym 'r listeners = "('r \<times> key_down) list"

text \<open>The click listeners in order; one that handles the click stops those after it.\<close>

fun click_listeners :: "'r listeners \<Rightarrow> nat \<Rightarrow> 'r app_call list" where
  "click_listeners [] target = []"
| "click_listeners ((reloader, keyDown) # ls) target =
     (if keyDown = Pressed (js ''c'') then [PreventDefault, StopImmediatePropagation, OpenEditorAtCaller reloader target]
      else if keyDown = Pressed (js ''d'') then [PreventDefault, StopImmediatePropagation, OpenEditorAtDef reloader target]
      else click_listeners ls target)"

text \<open>One event, in development or not (\<open>process.env.NODE_ENV === "development"\<close>).\<close>

fun on_event :: "bool \<Rightarrow> 'r listeners \<Rightarrow> 'r app_event \<Rightarrow> 'r listeners \<times> 'r app_call list" where
  "on_event dev ls PageLoadingStart = (ls, [TopbarShow 300])"
| "on_event dev ls PageLoadingStop = (ls, [TopbarHide])"
| "on_event dev ls (Attached r) =
     (if dev then (ls @ [(r, Undefined)], [EnableServerLogs r, ExposeReloader r]) else (ls, []))"
| "on_event dev ls (KeyDown k) = (map (\<lambda>(r, _). (r, Pressed k)) ls, [])"
| "on_event dev ls KeyUp = (map (\<lambda>(r, _). (r, Released)) ls, [])"
| "on_event dev ls (Click target) = (ls, click_listeners ls target)"

definition app_run :: "bool \<Rightarrow> 'r app_event list \<Rightarrow> 'r listeners" where
  "app_run dev evs = fold (\<lambda>e ls. fst (on_event dev ls e)) evs []"

section \<open>What is remembered\<close>

text \<open>The last key event of a sequence, and for each attached reloader the last one since then.\<close>

fun last_key :: "key_down \<Rightarrow> 'r app_event list \<Rightarrow> key_down" where
  "last_key k [] = k"
| "last_key k (KeyDown c # evs) = last_key (Pressed c) evs"
| "last_key k (KeyUp # evs) = last_key Released evs"
| "last_key k (_ # evs) = last_key k evs"

fun attached :: "'r app_event list \<Rightarrow> 'r listeners" where
  "attached [] = []"
| "attached (Attached r # evs) = (r, last_key Undefined evs) # attached evs"
| "attached (_ # evs) = attached evs"

lemma app_run_from:
  "fold (\<lambda>e ls. fst (on_event True ls e)) evs ls = map (\<lambda>(r, k). (r, last_key k evs)) ls @ attached evs"
proof (induction evs arbitrary: ls)
  case (Cons e evs)
  then show ?case by (cases e) (simp_all add: split_def comp_def)
qed simp

lemma app_run_attached: "app_run True evs = attached evs"
  using app_run_from [of evs "[]"] by (simp add: app_run_def)

lemma app_run_production: "app_run False evs = []"
proof -
  have "fold (\<lambda>e ls. fst (on_event False ls e)) evs [] = []" for evs :: "'a app_event list"
  proof (induction evs)
    case (Cons e evs)
    then show ?case by (cases e) simp_all
  qed simp
  then show ?thesis by (simp add: app_run_def)
qed

section \<open>Property\<close>

fun opens_editor :: "'r app_call \<Rightarrow> bool" where
  "opens_editor (OpenEditorAtCaller _ _) = True"
| "opens_editor (OpenEditorAtDef _ _) = True"
| "opens_editor _ = False"

definition holds_key :: "key_down \<Rightarrow> bool" where
  "holds_key k \<longleftrightarrow> k = Pressed (js ''c'') \<or> k = Pressed (js ''d'')"

lemma click_listeners_find:
  "click_listeners ls target =
     (case find (\<lambda>p. holds_key (snd p)) ls of
        None \<Rightarrow> []
      | Some (r, k) \<Rightarrow> [PreventDefault, StopImmediatePropagation,
          if k = Pressed (js ''c'') then OpenEditorAtCaller r target else OpenEditorAtDef r target])"
  by (induction ls target rule: click_listeners.induct) (auto simp: holds_key_def)

text \<open>
  What a click does after any events: outside development, nothing. In development it opens an
  editor exactly when the last key event since some reloader attached pressed \<open>c\<close> or \<open>d\<close>; the earliest
  attached such reloader opens it, at the caller for \<open>c\<close> and at the definition for \<open>d\<close>, the browser's own
  handling is suppressed, and no other reloader opens one: at most one editor opens.
\<close>

lemma click_opens_one_editor:
  "snd (on_event False (app_run False evs) (Click target)) = [] \<and>
   snd (on_event True (app_run True evs) (Click target)) =
     (case find (\<lambda>p. holds_key (snd p)) (attached evs) of
        None \<Rightarrow> []
      | Some (r, k) \<Rightarrow> [PreventDefault, StopImmediatePropagation,
          if k = Pressed (js ''c'') then OpenEditorAtCaller r target else OpenEditorAtDef r target]) \<and>
   length (filter opens_editor (snd (on_event True (app_run True evs) (Click target)))) \<le> 1"
  by (simp add: app_run_production app_run_attached click_listeners_find split: option.split)

end
