(* ===== verification/Spec2Isabelle.thy ===== *)
theory Spec2Isabelle
  imports Webhook_Receive Lifecycle Hook_Types Worker_Setup Schemas Message_Fate Conformance_Report Control_Panel
begin

text \<open>
  Verification of the TypeScript side of Ankusa: the SDK in \<open>packages/sdk-typescript/src\<close>, the example
  consumers and receiver that use it, the browser script of the control panel, and the checker in
  \<open>conformance/check.mjs\<close> that runs every SDK against the shared vectors.

  \<^bold>\<open>The program.\<close> Ankusa takes webhooks in and delivers them, by HTTP or through a broker. A receiver
  of the HTTP sink calls \<open>receiveDelivery\<close>, which verifies the Standard Webhooks signature
  (\<open>webhook/signature.ts\<close>) and then reads the hook's identity from the headers
  (\<open>webhook/headers.ts\<close>). A consumer of a broker calls \<open>decodeMessage\<close> (\<open>message/index.ts\<close>) or
  \<open>decodeLifecycle\<close> (\<open>lifecycle/index.ts\<close>), deduplicates on \<open>idempotencyKey\<close>, and fetches a body that
  travelled as a claim through the claim-check client (\<open>claim-check/\<close>). The admin and routes clients
  (\<open>admin/\<close>, \<open>routes/\<close>) call the management gateways. The example workers put these together and
  settle each message at their broker.

  \<^bold>\<open>The theories.\<close>
  \<^item> \<open>Js_Base\<close>, \<open>Js_Number\<close>, \<open>Js_Text\<close>, \<open>Js_Base64\<close>, \<open>Js_Json\<close>, \<open>Js_Stringify\<close>, \<open>Js_Regex\<close>, \<open>Js_Coerce\<close>,
    \<open>Js_Types\<close>, \<open>Sha256\<close>: the part of the language and its standard library the code relies on. Strings are lists of 16-bit code
    units, bytes are 8-bit words, numbers are binary64 values (rounded rationals, infinities and
    NaN; 0 and -0 are one number, which only \<open>isDeepStrictEqual\<close> in \<open>check.mjs\<close> would tell apart), \<open>JSON.parse\<close> is a parser on code units that reads back what
    \<open>JSON.stringify\<close> writes, the erased TypeScript types are a datatype with a typing predicate on
    parsed values, and SHA-256 and HMAC are the standard algorithms
    on 32-bit words. \<open>Js_Base\<close> also holds the shared result type and the locales \<open>codec\<close>,
    \<open>canonical_codec\<close> and \<open>strict_decoder\<close>, the contracts of an encoder and its decoder and of a
    decoder that reports the first rule its input breaks.
  \<^item> \<open>Webhook_Headers\<close>, \<open>Webhook_Signature\<close>, \<open>Webhook_Receive\<close>: the three files of \<open>webhook/\<close>, one
    definition for each function. Shown: exactly which deliveries are accepted, that what a sender
    signs is accepted, that the signed bytes determine the delivery, that rotating secrets is
    safe, that the signature is judged before the identity, and that header parsing is a round
    trip, ignores letter case and yields values in range.
  \<^item> \<open>Message\<close>, \<open>Lifecycle\<close>: the decoders. Shown: each equals a list of rules of which the first broken
    one decides the error, decoded values are well-formed, the text a decoded message is serialised to
    decodes to the same message (and the case where it does not), what the idempotency key identifies, and that
    trust fails closed.
  \<^item> \<open>Http\<close>, \<open>Claim_Ref\<close>, \<open>Claim_Check\<close>, \<open>Admin\<close>, \<open>Routes\<close>: the clients. A call returns the requests it
    makes and its result; the HTTP transport is an argument. Shown: references parse exactly when
    they are printed from their parts and cannot name another path, redeemed bytes have the
    expected digest, malformed arguments and route ids cause no request and every other id reaches its
    own route, and which failures are retryable. The locale \<open>http_errors\<close> is the contract between a client's judge of statuses and its
    retry bit; each client interprets it.
  \<^item> \<open>Clients\<close>: the client objects with their options, as records of calls, and the operations the
    generated schemas declare. The locale \<open>schema_client\<close> is the contract of a client against a schema,
    interpreted for the three of them. Shown: every request any sequence of calls makes is an operation
    of the schema with the configured deadline, a redirect is a retryable failure, and which failures
    are outside the classes of errors.
  \<^item> \<open>Schemas\<close>: the generated schemas as types: the component schemas, and for each operation the types of
    its query, its body and its responses, with the types the clients' methods take and return. The
    locale \<open>typed_client\<close> is the contract of a client's \<open>request\<close> with such a schema, interpreted for the
    admin and the routes client. Shown: against a server that keeps the schema the unchecked casts of
    answers and error bodies are justified, except that of \<open>health\<close>, well-typed arguments make well-typed
    requests, and exactly what the cast of a route to the schema's type leaves out.
  \<^item> \<open>Consumer\<close>: what the workers share (unchecked JSON records, \<open>resolveBody\<close>, \<open>handleHook\<close>) and the
    locale \<open>consumer\<close>, the contract that a step settles its message exactly once.
  \<^item> \<open>Rabbitmq\<close>: the RabbitMQ worker and the fleet consumer with its table; \<open>Sqs\<close>: the SQS worker with its
    batches, blocked groups and dead-letter queue; \<open>Jetstream\<close>: the JetStream consumer with its bounded
    memory, its ledger and its dead-letter stream; \<open>Event_Routing\<close>: the HTTP receiver and the Kafka
    worker. The broker, the database and the gateway are arguments; for SQS and JetStream they
    answer with knowledge of everything that happened before, so a lemma about a run covers every
    pattern of failures. Shown: how each message is settled, that none is lost, handled twice or
    taken out of order, what the table and the memory hold after any run, and the back-off times.
  \<^item> \<open>Hook_Types\<close>: the \<open>HookMessage\<close> types three workers cast parsed content to. Shown: a message that
    has its type never makes a worker throw a \<open>TypeError\<close>. \<open>Worker_Setup\<close>: the configuration, start and
    stop of the workers. Shown: a worker without its queues does nothing, a stop waits for the batch,
    and the shutdown runs once.
  \<^item> \<open>Message_Fate\<close>: one claim message on four brokers. Shown: the four queue consumers agree on what becomes of
    it, by the gateway's answer alone, and at which answers that is what the gateway's schema asks for;
    and an outage of the gateway or of the ledger only delays it.
  \<^item> \<open>Conformance_Vectors\<close>, \<open>Conformance_Producer\<close>, \<open>Conformance_Pool\<close>, \<open>Conformance_Report\<close>: the validation of the vectors, shown
    to report nothing exactly for a valid set; the comparison of the producer vectors with the
    regenerated ones, with what its reports name; the pool of SDK runs as a step relation, shown to
    end under every interleaving with each SDK's own result; the script's exit code, 0 exactly
    when all of it holds; and the lines it prints, whose counts add up.
  \<^item> \<open>Control_Panel\<close>: the browser script, with the keys its click listeners remember. Shown: one click
    opens at most one editor, and which.
  \<^item> This theory adds what spans components: a hook that a sender signs reaches the receiver's handler
    with its identity, verified; a message put on the queue is decoded, redeemed, announced and acked
    by the JetStream consumer.

  \<^bold>\<open>State and errors.\<close> State is passed explicitly (records \<open>sqs_state\<close>, \<open>js_state\<close>, \<open>pool\<close>, the table of the
  fleet consumer). Exceptions are values: \<open>result\<close> is the sum of an error and a value, with a
  datatype for each family of error classes and a constructor for the \<open>TypeError\<close> a template can throw in
  their place; an error carries the data of the source's error object, not the text of its message. Loops are recursive functions with a termination proof; no fuel is used.
  The parser's guards on the length of the rest never cut a parse short, as a lemma of \<open>Js_Json\<close> shows.

  \<^bold>\<open>Arguments for code that is not in the repository.\<close> The HTTP library, Node's base64 decoder
  outside canonical base64, \<open>2 ** x\<close> on an exponent that is not an integer, the text of a number that is
  not a small whole one, the text the database driver gives a value that is no string, the brokers,
  and the subprocesses of the checker. Where a lemma assumes anything about them it says so: that every
  command succeeds, that a string never makes the base64 decoder throw, that whole numbers below
  \<open>2^53\<close> print in decimal, that the library leaves redirects to the caller when told so, that a server
  answers as its schema declares.

  \<^bold>\<open>Not modelled.\<close> The log output of the workers and the waiting of their timers; a broker client whose
  \<open>ack\<close>, \<open>nack\<close>, \<open>nak\<close> or \<open>term\<close> itself throws (a closed connection), after which the message stays with the
  broker; the headers of the
  responses in the generated type declarations, which the clients never read; the re-exporting index
  files, which have no behaviour; the reading of the JSON files and the temporary directory of \<open>check.mjs\<close>
  (its arrays and texts are arguments); the copies of \<open>resolveBody\<close> in the fleet consumer and of
  \<open>handleHook\<close> in the SQS worker apart, which do what those of the RabbitMQ worker do; the tests; the server
  and the SDKs in other languages.
\<close>

section \<open>From the sender to the receiver\<close>

text \<open>The request a sender makes for a hook: the headers of its identity and of the signature.\<close>

definition signed_request :: "HookHeaders \<Rightarrow> js_string \<Rightarrow> nat \<Rightarrow> js_string list \<Rightarrow> byte list list \<Rightarrow> incoming" where
  "signed_request h i ts entries chunks =
     \<lparr>in_method = js ''POST'', in_url = js ''/invoices'',
      in_headers = map (\<lambda>(n, v). (n, Some (One v))) (wire_headers h @
        [(js ''webhook-id'', i), (js ''webhook-timestamp'', digit_chars ts), (js ''webhook-signature'', join_with 0x20 entries)]),
      in_chunks = chunks\<rparr>"

lemma signed_request_headers:
  "lowered_headers (Record (in_headers (signed_request h i ts entries chunks))) =
     (lowered_headers (Headers (wire_headers h)))(js ''webhook-id'' \<mapsto> i, js ''webhook-timestamp'' \<mapsto> digit_chars ts,
        js ''webhook-signature'' \<mapsto> join_with 0x20 entries)"
  by (simp add: lowered_headers_def signed_request_def to_lower_js no_capital_def)

lemma signed_request_parses:
  assumes "hook_wf h"
  shows "parseHeaders (Record (in_headers (signed_request h i ts entries chunks))) = Inr h"
proof -
  have "parseHeaders (Record (in_headers (signed_request h i ts entries chunks))) = parseHeaders (Headers (wire_headers h))"
    by (simp add: parseHeaders_def signed_request_headers parseVerificationHeaders_def Let_def split: option.split)
  with assms show ?thesis by (simp add: parseHeaders_wire)
qed

text \<open>
  C15. A signed hook arrives: when a sender puts the identity of a hook and a signature made with the
  receiver's secret on a request, whatever other entries the signature header has and however the
  body is cut into chunks, the receiver answers 204 and hands on exactly that identity as verified
  if the times are within 300 seconds of each other, and answers 401 otherwise.
\<close>

theorem signed_delivery_received:
  assumes "hook_wf h" "decodeSecret s = Inr k" "i \<noteq> []" "0 \<le> n" "n < 2 ^ 53" "ts < 2 ^ 53"
    and "signature_entry k (signed_bytes i (digit_chars ts) (concat chunks)) \<in> set entries"
    and "\<forall>e\<in>set entries. 0x20 \<notin> set e"
  shows "if \<bar>n - int ts\<bar> \<le> 300
    then \<exists>hook ty. receiver_answer (Fin (of_int n)) s (signed_request h i ts entries chunks) =
        (204, Some (hook, ty, utf8_to_string (concat chunks))) \<and> HookHeaders.truncate hook = h \<and> verified hook
    else receiver_answer (Fin (of_int n)) s (signed_request h i ts entries chunks) = (401, None)"
proof -
  let ?req = "signed_request h i ts entries chunks"
  let ?opts = "\<lparr>vs_headers = Record (in_headers ?req), vs_body = Bytes (concat chunks),
    vs_secrets = SecretList [s], vs_toleranceSeconds = None, vs_now = None\<rparr>"
  have entries: "entries \<noteq> []" "join_with 0x20 entries \<noteq> []"
    using assms(7) by (auto simp: join_with_Nil_iff signature_entry_def)
  have split: "split_on 0x20 (join_with 0x20 entries) = entries"
    using entries(1) assms(8) by (rule split_join_with)
  have num: "num_of_digits (digit_chars ts) = Fin (of_nat ts)"
    using num_of_digits_safe [of "digit_chars ts"] assms(6) by (simp add: digit_chars_value)
  have window: "out_of_tolerance (Fin 300) (Fin (of_int n)) (Fin (of_nat ts)) \<longleftrightarrow> 300 < \<bar>n - int ts\<bar>"
    using out_of_tolerance_exact [of n "digit_chars ts" 300] assms(4-6) by (simp add: digit_chars_value num)
  have "(\<exists>v. verifySignature (Fin (of_int n)) ?opts = Inr v) \<longleftrightarrow> \<bar>n - int ts\<bar> \<le> 300"
    using assms(2,3,7) entries
    by (auto simp: verifySignature_accepts signed_request_headers in_window_def digit_chars_digits split num window
        decodeSecrets_def)
  then show ?thesis
    using signed_request_parses [OF assms(1), of i ts entries chunks]
    by (cases "verifySignature (Fin (of_int n)) ?opts")
      (auto simp: receiver_answer_def receiver_options_def receiveDelivery_def receive_secrets_def
        receive_verify_options_def signed_request_def)
qed

theorem signed_delivery_received_witness:
  "\<exists>hook ty. receiver_answer (Fin (of_int 1700000200)) (js ''new'')
      (signed_request \<lparr>hook_id = js ''01J9'', hook_source = js ''stripe'', hook_tenant = None, contentType = None,
          dedupeKey = None, replayId = None, hook_idempotencyKey = None, receivedAt = None, bodySha256 = None,
          verification = None\<rparr>
        (js ''msg_1'') 1700000000
        [signature_entry (utf8_encode (js ''new'')) (signed_bytes (js ''msg_1'') (digit_chars 1700000000) [0x7B, 0x7D])]
        [[0x7B], [0x7D]]) = (204, Some (hook, ty, js ''{}'')) \<and> hook_id hook = js ''01J9'' \<and> verified hook"
proof -
  let ?h = "\<lparr>hook_id = js ''01J9'', hook_source = js ''stripe'', hook_tenant = None, contentType = None,
          dedupeKey = None, replayId = None, hook_idempotencyKey = None, receivedAt = None, bodySha256 = None,
          verification = None\<rparr>"
  let ?e = "signature_entry (utf8_encode (js ''new'')) (signed_bytes (js ''msg_1'') (digit_chars 1700000000) [0x7B, 0x7D])"
  have "hook_wf ?h" by (simp add: hook_wf_def)
  moreover have "decodeSecret (js ''new'') = Inr (utf8_encode (js ''new''))"
    by (simp add: decodeSecret_def starts_with_def js_eval)
  moreover have "utf8_to_string [0x7B, 0x7D] = js ''{}''"
    by (simp add: utf8_to_string_def utf16_of_def js_eval)
  moreover have "hook_id hook = js ''01J9''" if "HookHeaders.truncate hook = ?h" for hook :: ReceivedDelivery
    using arg_cong [OF that, of hook_id] by (simp add: HookHeaders.truncate_def)
  ultimately show ?thesis
    using signed_delivery_received [of ?h "js ''new''" "utf8_encode (js ''new'')" "js ''msg_1''" 1700000200 1700000000
        "[[0x7B], [0x7D]]" "[?e]"]
    by (auto simp: signature_entry_no_space)
qed

section \<open>From the queue to the ledger\<close>

lemma parsed_not_Nil: "parseClaimRef c = Inr p \<Longrightarrow> c \<noteq> []"
  by (auto simp: parseClaimRef_iff claim_urn_def js_eval split: option.splits)

text \<open>The body of a message can be had: it is inline, or the gateway holds the bytes of its digest.\<close>

definition body_available :: "js_world \<Rightarrow> Message \<Rightarrow> bool" where
  "body_available w m \<longleftrightarrow> msg_claim m = None \<or>
     (\<exists>bytes. msg_sha256 m = Some (sha256_hex bytes) \<and> (\<forall>h rq. js_gateway w h rq = Answers 200 (Some bytes) None))"

lemma available_body_resolves:
  assumes "message_wf m" "body_available w m"
  shows "\<exists>via. js_resolveBody (js_gateway w h) m = Inr via"
proof (cases "msg_body m")
  case None
  with assms(1) obtain c s p where c: "msg_claim m = Some c" "msg_sha256 m = Some s" "parseClaimRef c = Inr p"
    by (auto simp: message_wf_def split: option.splits sum.splits)
  with assms(2) obtain bytes where b: "s = sha256_hex bytes" "\<forall>h rq. js_gateway w h rq = Answers 200 (Some bytes) None"
    by (auto simp: body_available_def)
  have "s \<noteq> []" using sha.hex_pattern [of bytes] by (auto simp: b sha256_pattern_def)
  with c b parsed_not_Nil [OF c(3)] None show ?thesis
    by (simp add: js_resolveBody_def redeem_wf [OF c(3) sha.hex_pattern] claim_judge_def Let_def)
qed (simp add: js_resolveBody_def)

lemma remember_holds: "key \<notin> set ks \<Longrightarrow> key \<in> set (remember key ks)"
  by (cases ks) (simp_all add: remember_def Let_def DEDUPE_CAP_def)

text \<open>
  C16. A message on the queue is processed: whatever the consumer has done before, the bytes that
  \<open>JSON.stringify\<close> writes for a well-formed message with a digest, delivered while NATS answers and the
  body can be had, make the JetStream consumer announce the message under its own id and idempotency
  key, ack it and remember the key. So encoding, decoding, redeeming and settling fit together.
\<close>

theorem queue_message_processed:
  assumes "number_law num" "message_wf m" "message_printable m" "msg_sha256 m \<noteq> None" "body_available w m"
    and "\<forall>h c. nats w h c = None" and "data jm = utf8_encode (JSON_stringify num (JObj (message_json m)))"
  shows "\<exists>a. snd (js_handle w s jm) = [Announced jm a None, Acked jm] \<and> an_hook_id a = msg_id m \<and>
    an_idempotency_key a = idempotencyKey no_options (AMessage m) \<and>
    idempotencyKey no_options (AMessage m) \<in> set (seen (fst (js_handle w s jm)))"
proof -
  have dec: "decodeMessage (Bytes (data jm)) = Inr m" using wire_bytes_decode [OF assms(1-4)] by (simp add: assms(7) wire_text_def)
  have ann: "announce w h jm m key via dup = (Announced jm (announcement_of w h m key via dup) None, Inr ())" for h key via dup
    using assms(6) by (simp add: announce_def Let_def)
  have hid: "an_hook_id (announcement_of w h m key via dup) = msg_id m" for h key via dup
    by (simp add: announcement_of_def Let_def)
  obtain via where "js_resolveBody (js_gateway w (events s)) m = Inr via"
    using available_body_resolves [OF assms(2,5)] by blast
  with dec ann hid show ?thesis by (simp add: js_handle_def js_try_def Let_def remember_holds)
qed

theorem queue_message_processed_witness:
  "\<exists>a. snd (js_handle \<lparr>pod = js ''p'', nats = \<lambda>_ _. None, js_gateway = \<lambda>_ _. Rejects (Failure []), js_clock = \<lambda>_. Fin 0\<rparr>
       \<lparr>seen = [], events = []\<rparr>
       \<lparr>data = utf8_encode (JSON_stringify whole_text (JObj (message_json (example_message (Some (sha256_hex [1, 2])))))),
        seq = 7, deliveryCount = 1\<rparr>) =
     [Announced \<lparr>data = utf8_encode (JSON_stringify whole_text (JObj (message_json (example_message (Some (sha256_hex [1, 2])))))),
        seq = 7, deliveryCount = 1\<rparr> a None,
      Acked \<lparr>data = utf8_encode (JSON_stringify whole_text (JObj (message_json (example_message (Some (sha256_hex [1, 2])))))),
        seq = 7, deliveryCount = 1\<rparr>] \<and> an_hook_id a = js ''01J9''"
proof -
  let ?m = "example_message (Some (sha256_hex [1, 2]))"
  let ?w = "\<lparr>pod = js ''p'', nats = \<lambda>_ _. None, js_gateway = \<lambda>_ _. Rejects (Failure []), js_clock = \<lambda>_. Fin 0\<rparr>"
  let ?jm = "\<lparr>data = utf8_encode (JSON_stringify whole_text (JObj (message_json ?m))), seq = 7, deliveryCount = 1\<rparr>"
  have "message_printable ?m"
    by (simp add: message_printable_def example_message_def num_of_int_safe del: base64_encode.simps)
  moreover have "msg_sha256 ?m \<noteq> None" "body_available ?w ?m" "msg_id ?m = js ''01J9''"
    by (simp_all add: example_message_def body_available_def)
  ultimately show ?thesis
    using queue_message_processed [OF whole_text_law example_message_wf(1), of ?w ?jm "\<lparr>seen = [], events = []\<rparr>"]
    by (auto simp del: JSON_stringify.simps)
qed

end
